(* ===== verification/Prelude.thy ===== *)
theory Prelude
  imports Main "HOL-Library.Word"
begin

text \<open>
  What every component of the development shares: bytes and Go strings, the Go error values the
  node passes around, the outcome of a Go call, and the small facts about lists, maps and
  outcomes that the component proofs rest on.

  A Go function of type \<open>(T, error)\<close> is a function with a result of type \<open>'a res\<close>: it returns a
  value, it returns an error, it panics (nil dereference, slice bounds, explicit panic) or it
  blocks for ever (a read on a silent connection, a send on a nil channel). A stateful call also
  returns the new state, as a pair.
\<close>

section \<open>Bytes and strings\<close>

type_synonym byte = "8 word"
type_synonym bytes = "8 word list"
type_synonym address = string
type_synonym peerID = string

text \<open>The Go conversions \<open>[]byte(s)\<close> and \<open>string(b)\<close>: a Go string is a sequence of bytes, and so
  is a list of HOL characters.\<close>

definition to_bytes :: "string \<Rightarrow> bytes" where
  "to_bytes s = map of_char s"

definition of_bytes :: "bytes \<Rightarrow> string" where
  "of_bytes bs = map (\<lambda>b. char_of (unat b)) bs"

section \<open>Error values\<close>

text \<open>The status codes of \<open>acn.proto\<close>. Enums of proto3 are open: a number the schema does not name
  is kept, as \<open>STATUS_OTHER\<close>.\<close>

datatype StatusCodeEnum =
    SUCCESS
  | ERROR_UNSUPPORTED_VERSION
  | ERROR_UNEXPECTED_PAYLOAD
  | ERROR_GENERIC
  | ERROR_DECODE
  | ERROR_WRONG_AGENT_ADDRESS
  | ERROR_WRONG_PUBLIC_KEY
  | ERROR_INVALID_PROOF
  | ERROR_UNSUPPORTED_LEDGER
  | ERROR_UNKNOWN_AGENT_ADDRESS
  | ERROR_AGENT_NOT_READY
  | STATUS_OTHER int

text \<open>The error values the code compares or takes apart: the sentinels \<open>io.EOF\<close>,
  \<open>io.ErrUnexpectedEOF\<close> and \<open>context.DeadlineExceeded\<close>, errors made from a text
  (\<open>errors.New\<close>, \<open>fmt.Errorf\<close>, and every library error, by its text), errors wrapped with a
  message (\<open>errors.Wrap\<close>), \<open>common.PipeError\<close> and \<open>acn.ACNError\<close>.\<close>

datatype err =
    EOF
  | UnexpectedEOF
  | DeadlineExceeded
  | ErrMsg string
  | Wrapped err string
  | PipeError err string
  | ACNError StatusCodeEnum err

text \<open>The \<open>Error()\<close> method: \<open>PipeError\<close> shows its message only, \<open>ACNError\<close> its inner error,
  \<open>errors.Wrap\<close> the message and then the cause.\<close>

primrec Error :: "err \<Rightarrow> string" where
  "Error EOF = ''EOF''"
| "Error UnexpectedEOF = ''unexpected EOF''"
| "Error DeadlineExceeded = ''context deadline exceeded''"
| "Error (ErrMsg m) = m"
| "Error (Wrapped e m) = m @ '': '' @ Error e"
| "Error (PipeError e m) = m"
| "Error (ACNError c e) = Error e"

text \<open>\<open>errors.As(err, &e)\<close> with a target of type \<open>*common.PipeError\<close>: the first error of the
  \<open>Unwrap\<close> chain that is one (\<open>ACNError\<close> has no \<open>Unwrap\<close> method).\<close>

primrec is_pipe_error :: "err \<Rightarrow> bool" where
  "is_pipe_error EOF = False"
| "is_pipe_error UnexpectedEOF = False"
| "is_pipe_error DeadlineExceeded = False"
| "is_pipe_error (ErrMsg m) = False"
| "is_pipe_error (Wrapped e m) = is_pipe_error e"
| "is_pipe_error (PipeError e m) = True"
| "is_pipe_error (ACNError c e) = False"

section \<open>Outcomes of a call\<close>

datatype 'a res = Ok 'a | Err err | Panic | Block

primrec is_ok :: "'a res \<Rightarrow> bool" where
  "is_ok (Ok a) = True"
| "is_ok (Err e) = False"
| "is_ok Panic = False"
| "is_ok Block = False"

text \<open>A call that cannot panic or block, as a library documents it, gives a sum value.\<close>

primrec of_sum :: "err + 'a \<Rightarrow> 'a res" where
  "of_sum (Inl e) = Err e"
| "of_sum (Inr a) = Ok a"

text \<open>\<open>if err != nil { return ..., err }\<close>: the rest runs on the value only.\<close>

primrec bind_res :: "'a res \<Rightarrow> ('a \<Rightarrow> 'b res) \<Rightarrow> 'b res" where
  "bind_res (Ok a) f = f a"
| "bind_res (Err e) f = Err e"
| "bind_res Panic f = Panic"
| "bind_res Block f = Block"

text \<open>The same for a call that also returns the state it worked on, and \<open>ignore(err)\<close>: the error is
  logged and the rest runs. A panic or a call that never returns ends the function in both.\<close>

definition then_do :: "'a res \<times> 's \<Rightarrow> ('a \<Rightarrow> 's \<Rightarrow> 'b res \<times> 't) \<Rightarrow> ('s \<Rightarrow> 't) \<Rightarrow> 'b res \<times> 't" where
  "then_do x k ret =
     (case x of
        (Ok a, s) \<Rightarrow> k a s
      | (Err e, s) \<Rightarrow> (Err e, ret s)
      | (Panic, s) \<Rightarrow> (Panic, ret s)
      | (Block, s) \<Rightarrow> (Block, ret s))"

abbreviation and_then :: "'a res \<times> 's \<Rightarrow> ('a \<Rightarrow> 's \<Rightarrow> 'b res \<times> 's) \<Rightarrow> 'b res \<times> 's" where
  "and_then x k \<equiv> then_do x k (\<lambda>s. s)"

definition ignoring :: "'a res \<times> 's \<Rightarrow> ('s \<Rightarrow> 'b res \<times> 's) \<Rightarrow> 'b res \<times> 's" where
  "ignoring x k =
     (case x of
        (Ok a, s) \<Rightarrow> k s
      | (Err e, s) \<Rightarrow> k s
      | (Panic, s) \<Rightarrow> (Panic, s)
      | (Block, s) \<Rightarrow> (Block, s))"

named_theorems go_splits "case splits over outcomes and results"
named_theorems acn_defs "definitions of the protocol operations, unfolded together"

lemmas [go_splits] = prod.splits option.splits sum.splits res.splits if_splits list.splits

lemma is_ok_iff: "is_ok r \<longleftrightarrow> (\<exists>a. r = Ok a)"
  by (cases r) auto

lemma of_sum_simps [simp]:
  "of_sum x = Ok a \<longleftrightarrow> x = Inr a"
  "of_sum x = Err e \<longleftrightarrow> x = Inl e"
  "of_sum x \<noteq> Panic"
  "of_sum x \<noteq> Block"
  by (cases x; auto)+

lemma bind_res_Ok [simp]: "bind_res r f = Ok b \<longleftrightarrow> (\<exists>a. r = Ok a \<and> f a = Ok b)"
  by (cases r) auto

lemma bind_res_Err: "bind_res r f = Err e \<longleftrightarrow> r = Err e \<or> (\<exists>a. r = Ok a \<and> f a = Err e)"
  by (cases r) auto

lemma then_do_simps [simp]:
  "then_do (Ok a, s) k ret = k a s"
  "then_do (Err e, s) k ret = (Err e, ret s)"
  "then_do (Panic, s) k ret = (Panic, ret s)"
  "then_do (Block, s) k ret = (Block, ret s)"
  by (simp_all add: then_do_def)

lemma ignoring_simps [simp]:
  "ignoring (Ok a, s) k = k s"
  "ignoring (Err e, s) k = k s"
  "ignoring (Panic, s) k = (Panic, s)"
  "ignoring (Block, s) k = (Block, s)"
  by (simp_all add: ignoring_def)

lemma then_do_Ok: "then_do x k ret = (Ok b, t) \<longleftrightarrow> (\<exists>a s. x = (Ok a, s) \<and> k a s = (Ok b, t))"
  by (cases x; cases "fst x") auto

lemma ignoring_Err [simp]: "ignoring x (\<lambda>s. (Err e, s)) \<noteq> (Ok a, t)"
  by (cases x; cases "fst x") auto

lemma take_drop_append [simp]: "take n xs @ drop n xs @ ys = xs @ ys"
  by (metis append.assoc append_take_drop_id)

section \<open>Strings and bytes\<close>

lemma length_to_bytes [simp]: "length (to_bytes s) = length s"
  by (simp add: to_bytes_def)

lemma length_of_bytes [simp]: "length (of_bytes b) = length b"
  by (simp add: of_bytes_def)

lemma unat_of_char: "unat (of_char c :: byte) = of_char c"
proof -
  have "(of_char c :: nat) < 256"
    by (metis mod_less_divisor of_char_mod_256 zero_less_numeral)
  then have "unat (of_nat (of_char c) :: byte) = of_char c"
    by (simp add: unat_of_nat)
  then show ?thesis by (simp add: of_nat_of_char)
qed

lemma of_bytes_to_bytes [simp]: "of_bytes (to_bytes s) = s"
  by (simp add: of_bytes_def to_bytes_def comp_def unat_of_char)

lemma to_bytes_inject [simp]: "to_bytes s = to_bytes t \<longleftrightarrow> s = t"
  by (metis of_bytes_to_bytes)

end
