(* ===== verification/Go_Std.thy ===== *)
theory Go_Std
  imports Prelude
begin

text \<open>
  The parts of the Go standard library that the node's own code computes with:
  \<open>encoding/binary\<close> (big-endian \<open>uint32\<close>), \<open>encoding/hex\<close>, \<open>strconv\<close> and \<open>strings\<close>. They are
  the vocabulary of the components, so the theory also holds their round-trip and length laws.
\<close>

unbundle bit_operations_syntax

section \<open>encoding/binary\<close>

definition PutUint32 :: "32 word \<Rightarrow> bytes" where
  "PutUint32 v = [ucast (drop_bit 24 v), ucast (drop_bit 16 v), ucast (drop_bit 8 v), ucast v]"

text \<open>\<open>BigEndian.Uint32\<close> reads four bytes; on a shorter slice it panics, which no caller can reach:
  every one passes a buffer made with \<open>make([]byte, 4)\<close>.\<close>

fun Uint32 :: "bytes \<Rightarrow> 32 word" where
  "Uint32 (a # b # c # d # _) =
     ucast d OR push_bit 8 (ucast c) OR push_bit 16 (ucast b) OR push_bit 24 (ucast a)"
| "Uint32 _ = 0"

lemma length_PutUint32 [simp]: "length (PutUint32 v) = 4"
  by (simp add: PutUint32_def)

lemma Uint32_PutUint32 [simp]: "Uint32 (PutUint32 v @ r) = v"
proof (rule bit_word_eqI)
  fix n assume "n < LENGTH(32)"
  then have n: "n < 32" by simp
  consider "n < 8" | "8 \<le> n \<and> n < 16" | "16 \<le> n \<and> n < 24" | "24 \<le> n"
    by linarith
  then show "bit (Uint32 (PutUint32 v @ r)) n = bit v n"
    by cases (use n in \<open>auto simp: PutUint32_def bit_simps\<close>)
qed

lemma Uint32_PutUint32' [simp]: "Uint32 (PutUint32 v) = v"
  using Uint32_PutUint32 [of v "[]"] by simp

section \<open>encoding/hex\<close>

definition hexdigit :: "nat \<Rightarrow> char" where
  "hexdigit n = (if n < 16 then ''0123456789abcdef'' ! n else CHR ''?'')"

definition EncodeToString :: "bytes \<Rightarrow> string" where
  "EncodeToString bs =
     concat (map (\<lambda>b. [hexdigit (unat b div 16), hexdigit (unat b mod 16)]) bs)"

text \<open>\<open>reverseHexTable\<close>: both cases of the letters are accepted.\<close>

definition fromHexChar :: "char \<Rightarrow> nat option" where
  "fromHexChar c =
     (let n = of_char c :: nat in
      if 48 \<le> n \<and> n \<le> 57 then Some (n - 48)
      else if 97 \<le> n \<and> n \<le> 102 then Some (n - 87)
      else if 65 \<le> n \<and> n \<le> 70 then Some (n - 55)
      else None)"

definition InvalidByteError :: err where
  "InvalidByteError = ErrMsg ''encoding/hex: invalid byte''"

definition ErrLength :: err where
  "ErrLength = ErrMsg ''encoding/hex: odd length hex string''"

text \<open>\<open>hex.DecodeString\<close> returns the bytes decoded so far together with the error.\<close>

fun DecodeString :: "string \<Rightarrow> bytes \<times> err option" where
  "DecodeString [] = ([], None)"
| "DecodeString [p] = ([], Some (if fromHexChar p = None then InvalidByteError else ErrLength))"
| "DecodeString (p # q # s) =
     (case (fromHexChar p, fromHexChar q) of
        (Some a, Some b) \<Rightarrow>
          (let (bs, e) = DecodeString s in (of_nat (16 * a + b) # bs, e))
      | _ \<Rightarrow> ([], Some InvalidByteError))"

lemma length_EncodeToString [simp]: "length (EncodeToString bs) = 2 * length bs"
  by (induction bs) (simp_all add: EncodeToString_def)

lemma EncodeToString_simps [simp]:
  "EncodeToString [] = []"
  "EncodeToString (b # bs) =
     hexdigit (unat b div 16) # hexdigit (unat b mod 16) # EncodeToString bs"
  by (simp_all add: EncodeToString_def)

lemma below_16: "n < 16 \<longleftrightarrow> n \<in> set [0, 1, 2, 3, 4, 5, 6, 7, 8, 9, 10, 11, 12, 13, 14, 15 :: nat]"
  by (simp, presburger)

lemma fromHexChar_hexdigit [simp]: "n < 16 \<Longrightarrow> fromHexChar (hexdigit n) = Some n"
  unfolding below_16 by (auto simp: fromHexChar_def hexdigit_def)

lemma unat_byte_div16 [simp]: "unat (b :: byte) div 16 < 16"
  using unsigned_less [of b, where 'a = nat] by simp

theorem DecodeString_EncodeToString: "DecodeString (EncodeToString bs) = (bs, None)"
  by (induction bs) simp_all

lemma DecodeString_length: "length (fst (DecodeString s)) \<le> length s div 2"
  by (induction s rule: DecodeString.induct) (auto simp: Let_def split: option.splits prod.splits)

lemma DecodeString_length_ok:
  "DecodeString s = (bs, None) \<Longrightarrow> length s = 2 * length bs"
  by (induction s arbitrary: bs rule: DecodeString.induct)
    (auto simp: Let_def split: option.splits prod.splits)

section \<open>strconv and strings\<close>

definition decdigit :: "nat \<Rightarrow> char" where
  "decdigit n = char_of (48 + n)"

text \<open>The decimal text of a natural number, as \<open>%d\<close> and \<open>strconv.FormatInt\<close> print it.\<close>

fun itoa :: "nat \<Rightarrow> string" where
  "itoa n = (if n < 10 then [decdigit n] else itoa (n div 10) @ [decdigit (n mod 10)])"

declare itoa.simps [simp del]

definition itoa_int :: "int \<Rightarrow> string" where
  "itoa_int z = (if z < 0 then CHR ''-'' # itoa (nat (- z)) else itoa (nat z))"

definition digit_value :: "char \<Rightarrow> nat option" where
  "digit_value c = (let n = of_char c :: nat in if 48 \<le> n \<and> n \<le> 57 then Some (n - 48) else None)"

datatype num_error = ErrSyntax | ErrRange

text \<open>\<open>strconv.ParseUint(s, 10, bits)\<close> for \<open>bits < 64\<close>: the value comes back even with an error, 0 on
  a syntax error and the largest value of the width on a range error. The scan stops at the
  first digit that goes out of range.\<close>

fun parse_digits :: "nat \<Rightarrow> nat \<Rightarrow> string \<Rightarrow> nat \<times> num_error option" where
  "parse_digits maxval n [] = (n, None)"
| "parse_digits maxval n (c # cs) =
     (case digit_value c of
        None \<Rightarrow> (0, Some ErrSyntax)
      | Some d \<Rightarrow>
          if 10 * n + d > maxval then (maxval, Some ErrRange)
          else parse_digits maxval (10 * n + d) cs)"

definition ParseUint :: "string \<Rightarrow> nat \<Rightarrow> nat \<times> num_error option" where
  "ParseUint s bits = (if s = [] then (0, Some ErrSyntax) else parse_digits (2 ^ bits - 1) 0 s)"

fun Join :: "string list \<Rightarrow> string \<Rightarrow> string" where
  "Join [] sep = []"
| "Join [s] sep = s"
| "Join (s # t # ss) sep = s @ sep @ Join (t # ss) sep"

text \<open>\<open>strings.SplitN(s, sep, -1)\<close> for a separator of one byte.\<close>

fun Split :: "char \<Rightarrow> string \<Rightarrow> string list" where
  "Split sep [] = [[]]"
| "Split sep (c # cs) =
     (if c = sep then [] # Split sep cs
      else (case Split sep cs of [] \<Rightarrow> [[c]] | p # ps \<Rightarrow> (c # p) # ps))"

lemma Split_not_Nil [simp]: "Split sep s \<noteq> []"
  by (induction s) (auto split: list.splits)

lemma Join_Split: "Join (Split sep s) [sep] = s"
proof (induction s)
  case Nil
  then show ?case by simp
next
  case (Cons c s)
  obtain p ps where ps: "Split sep s = p # ps"
    by (cases "Split sep s") auto
  with Cons show ?case by (cases ps) auto
qed

lemma length_Split: "length (Split sep s) = Suc (count_list s sep)"
  by (induction s) (auto split: list.splits)

lemma parse_digits_le: "n \<le> m \<Longrightarrow> fst (parse_digits m n s) \<le> m"
  by (induction s arbitrary: n) (auto split: option.splits)

lemma ParseUint_le: "fst (ParseUint s bits) \<le> 2 ^ bits - 1"
  by (simp add: ParseUint_def parse_digits_le)

lemma digit_value_decdigit [simp]: "d < 10 \<Longrightarrow> digit_value (decdigit d) = Some d"
  by (simp add: digit_value_def decdigit_def)

lemma parse_digits_append:
  "parse_digits m n s = (k, None) \<Longrightarrow> parse_digits m n (s @ t) = parse_digits m k t"
  by (induction s arbitrary: n) (auto split: option.splits if_splits)

lemma parse_digits_itoa: "k \<le> m \<Longrightarrow> parse_digits m 0 (itoa k) = (k, None)"
proof (induction k rule: itoa.induct)
  case (1 k)
  show ?case
  proof (cases "k < 10")
    case True
    with "1.prems" show ?thesis by (simp add: itoa.simps [of k])
  next
    case False
    have "parse_digits m 0 (itoa (k div 10)) = (k div 10, None)"
      using "1.IH" [OF False] "1.prems" by simp
    then have "parse_digits m 0 (itoa k) = parse_digits m (k div 10) [decdigit (k mod 10)]"
      using False by (simp add: itoa.simps [of k] parse_digits_append)
    with "1.prems" show ?thesis by simp
  qed
qed

lemma itoa_not_Nil [simp]: "itoa n \<noteq> []"
  by (subst itoa.simps) simp

theorem ParseUint_itoa: "n < 2 ^ bits \<Longrightarrow> ParseUint (itoa n) bits = (n, None)"
  by (simp add: ParseUint_def parse_digits_itoa)

lemma parse_digits_range_append:
  "parse_digits m n s = (k, Some ErrRange) \<Longrightarrow> parse_digits m n (s @ t) = (k, Some ErrRange)"
  by (induction s arbitrary: n) (auto split: option.splits if_splits)

lemma parse_digits_itoa_range: "m < k \<Longrightarrow> parse_digits m 0 (itoa k) = (m, Some ErrRange)"
proof (induction k rule: itoa.induct)
  case (1 k)
  show ?case
  proof (cases "k < 10")
    case True
    with "1.prems" show ?thesis by (simp add: itoa.simps [of k])
  next
    case False
    have split: "parse_digits m 0 (itoa k) = parse_digits m 0 (itoa (k div 10) @ [decdigit (k mod 10)])"
      using False by (simp add: itoa.simps [of k])
    show ?thesis
    proof (cases "m < k div 10")
      case True
      then show ?thesis using "1.IH" [OF False True] split by (simp add: parse_digits_range_append)
    next
      case le: False
      then have "parse_digits m 0 (itoa (k div 10)) = (k div 10, None)"
        by (simp add: parse_digits_itoa)
      then show ?thesis using split "1.prems" by (simp add: parse_digits_append)
    qed
  qed
qed

lemma ParseUint_itoa_min: "fst (ParseUint (itoa n) bits) = min n (2 ^ bits - 1)"
proof (cases "n \<le> 2 ^ bits - 1")
  case True
  then show ?thesis by (simp add: ParseUint_def parse_digits_itoa)
next
  case False
  then show ?thesis by (simp add: ParseUint_def parse_digits_itoa_range)
qed

lemma Split_none: "sep \<notin> set s \<Longrightarrow> Split sep s = [s]"
  by (induction s) auto

lemma Split_sep: "sep \<notin> set s \<Longrightarrow> Split sep (s @ sep # t) = s # Split sep t"
  by (induction s) auto

lemma decdigit_not_colon: "d < 10 \<Longrightarrow> decdigit d \<noteq> CHR '':''"
proof
  assume d: "d < 10" and e: "decdigit d = CHR '':''"
  have "of_char (decdigit d) = (48 + d :: nat)" using d by (simp add: decdigit_def)
  with e have "48 + d = (58 :: nat)" by simp
  with d show False by simp
qed

lemma itoa_no_colon: "CHR '':'' \<notin> set (itoa n)"
proof (induction n rule: itoa.induct)
  case (1 n)
  then show ?case
    using decdigit_not_colon [of n] decdigit_not_colon [of "n mod 10"]
    by (subst itoa.simps) (auto simp: eq_commute [of "CHR '':''"])
qed

end
