(* ===== verification/Framing.thy ===== *)
theory Framing
  imports Go_Std
begin

text \<open>
  The transports of the node: connections and streams, and the length-prefixed frames of
  \<open>utils/utils.go\<close> and \<open>aea/pipe.go\<close>. A frame is a big-endian \<open>uint32\<close> length and the payload.

  A connection is what the remote side makes arrive, in the pieces in which \<open>Read\<close> delivers it
  (a TCP read returns what is there, not what was asked for), what happens when everything has
  arrived (an error such as \<open>io.EOF\<close>, or silence), the bytes written so far and, where writing
  fails, after how many extra bytes. Streams of libp2p extend it with the identity of the remote
  peer. \<open>bufio.Reader\<close> and \<open>io.ReadFull\<close> are modelled as they read: in buffers of 4096 bytes.
\<close>

section \<open>Connections\<close>

record conn =
  rx :: "bytes list"
  rx_end :: "err option"
  tx :: bytes
  wcap :: "(nat \<times> err) option"

record stream = conn +
  remotePublicKey :: "nat \<times> nat"
  remotePeer :: peerID
  streamClosed :: bool
  streamReset :: bool

text \<open>\<open>conn.Read(buf)\<close> with \<open>len(buf) = n\<close>: at most one piece of what has arrived.\<close>

definition conn_read :: "nat \<Rightarrow> 'a conn_scheme \<Rightarrow> bytes res \<times> 'a conn_scheme" where
  "conn_read n c =
     (if n = 0 then (Ok [], c)
      else case rx c of
        [] \<Rightarrow> (case rx_end c of None \<Rightarrow> (Block, c) | Some e \<Rightarrow> (Err e, c))
      | seg # segs \<Rightarrow>
          (Ok (take n seg), c\<lparr>rx := (if length seg \<le> n then segs else drop n seg # segs)\<rparr>))"

definition conn_write :: "bytes \<Rightarrow> 'a conn_scheme \<Rightarrow> unit res \<times> 'a conn_scheme" where
  "conn_write d c =
     (case wcap c of
        None \<Rightarrow> (Ok (), c\<lparr>tx := tx c @ d\<rparr>)
      | Some (k, e) \<Rightarrow>
          if length d \<le> k then (Ok (), c\<lparr>tx := tx c @ d, wcap := Some (k - length d, e)\<rparr>)
          else (Err e, c\<lparr>tx := tx c @ take k d, wcap := Some (0, e)\<rparr>))"

text \<open>What a short read leaves in a buffer made with \<open>make([]byte, n)\<close>.\<close>

definition fill_buf :: "nat \<Rightarrow> bytes \<Rightarrow> bytes" where
  "fill_buf n d = d @ replicate (n - length d) 0"

section \<open>Frames over net.Conn\<close>

definition maxMessageSizeDelegateConnection :: nat where
  "maxMessageSizeDelegateConnection = 1024 * 1024 * 3"

definition MaxInt32 :: nat where
  "MaxInt32 = 2147483647"

definition frame :: "bytes \<Rightarrow> bytes" where
  "frame d = PutUint32 (of_nat (length d)) @ d"

definition WriteBytesConn :: "'a conn_scheme \<Rightarrow> bytes \<Rightarrow> unit res \<times> 'a conn_scheme" where
  "WriteBytesConn c d =
     (if length d > MaxInt32 then (Err (ErrMsg ''data size too large''), c)
      else if length d = 0 then (Ok (), c)
      else let size = (of_nat (length d) :: 32 word); buf = PutUint32 size @ d in conn_write buf c)"

definition ReadBytesConn :: "'a conn_scheme \<Rightarrow> bytes res \<times> 'a conn_scheme" where
  "ReadBytesConn c =
     (case conn_read 4 c of
        (Ok h, c1) \<Rightarrow>
          (let size = Uint32 (fill_buf 4 h) in
           if unat size > maxMessageSizeDelegateConnection
           then (Err (ErrMsg ''expected message size larger than maximum allowed''), c1)
           else case conn_read (unat size) c1 of
             (Ok d, c2) \<Rightarrow> (Ok (fill_buf (unat size) d), c2)
           | (Err e, c2) \<Rightarrow> (Err e, c2)
           | (Panic, c2) \<Rightarrow> (Panic, c2)
           | (Block, c2) \<Rightarrow> (Block, c2))
      | (Err e, c1) \<Rightarrow> (Err e, c1)
      | (Panic, c1) \<Rightarrow> (Panic, c1)
      | (Block, c1) \<Rightarrow> (Block, c1))"

section \<open>The agent's socket\<close>

text \<open>\<open>TCPSocketChannel\<close>: the connection is nil until \<open>Connect\<close> dials it; \<open>dial\<close> is the answer of
  the operating system.\<close>

record TCPSocketChannel =
  sock_port :: "16 word"
  sock_conn :: "conn option"
  sock_dial :: "err + conn"

definition sock_Connect :: "TCPSocketChannel \<Rightarrow> unit res \<times> TCPSocketChannel" where
  "sock_Connect s =
     (case sock_dial s of
        Inl e \<Rightarrow> (Err e, s\<lparr>sock_conn := None\<rparr>)
      | Inr c \<Rightarrow> (Ok (), s\<lparr>sock_conn := Some c\<rparr>))"

definition sock_Read :: "TCPSocketChannel \<Rightarrow> bytes res \<times> TCPSocketChannel" where
  "sock_Read s =
     (case sock_conn s of
        None \<Rightarrow> (Panic, s)
      | Some c \<Rightarrow>
          (case conn_read 4 c of
             (Ok h, c1) \<Rightarrow>
               (case conn_read (unat (Uint32 (fill_buf 4 h))) c1 of
                  (Ok d, c2) \<Rightarrow>
                    (Ok (fill_buf (unat (Uint32 (fill_buf 4 h))) d), s\<lparr>sock_conn := Some c2\<rparr>)
                | (Err e, c2) \<Rightarrow> (Err e, s\<lparr>sock_conn := Some c2\<rparr>)
                | (Panic, c2) \<Rightarrow> (Panic, s\<lparr>sock_conn := Some c2\<rparr>)
                | (Block, c2) \<Rightarrow> (Block, s\<lparr>sock_conn := Some c2\<rparr>))
           | (Err e, c1) \<Rightarrow> (Err e, s\<lparr>sock_conn := Some c1\<rparr>)
           | (Panic, c1) \<Rightarrow> (Panic, s\<lparr>sock_conn := Some c1\<rparr>)
           | (Block, c1) \<Rightarrow> (Block, s\<lparr>sock_conn := Some c1\<rparr>)))"

definition sock_Write :: "TCPSocketChannel \<Rightarrow> bytes \<Rightarrow> unit res \<times> TCPSocketChannel" where
  "sock_Write s d =
     (if length d > MaxInt32 then (Err (ErrMsg ''value too large''), s)
      else case sock_conn s of
        None \<Rightarrow> (Panic, s)
      | Some c \<Rightarrow>
          (let (r, c') = conn_write (PutUint32 (of_nat (length d)) @ d) c
           in (r, s\<lparr>sock_conn := Some c'\<rparr>)))"

text \<open>Closing ends both directions: what is read or written afterwards fails.\<close>

definition closedConnError :: err where
  "closedConnError = ErrMsg ''use of closed network connection''"

definition conn_close :: "'a conn_scheme \<Rightarrow> 'a conn_scheme" where
  "conn_close c = c\<lparr>rx := [], rx_end := Some closedConnError, wcap := Some (0, closedConnError)\<rparr>"

definition sock_Close :: "TCPSocketChannel \<Rightarrow> unit res \<times> TCPSocketChannel" where
  "sock_Close s =
     (case sock_conn s of
        None \<Rightarrow> (Panic, s)
      | Some c \<Rightarrow> (Ok (), s\<lparr>sock_conn := Some (conn_close c)\<rparr>))"

definition NewPipe :: "string \<Rightarrow> string \<Rightarrow> (err + conn) \<Rightarrow> TCPSocketChannel" where
  "NewPipe msgin_path msgout_path dialled =
     \<lparr>sock_port = of_nat (fst (ParseUint msgin_path 16)), sock_conn = None, sock_dial = dialled\<rparr>"

section \<open>Buffered reading\<close>

definition bufioSize :: nat where
  "bufioSize = 4096"

text \<open>\<open>bufio.Reader.Read\<close> for a slice of \<open>n > 0\<close> bytes: one read of the source at most, past the
  buffer when the slice is at least as large as the buffer.\<close>

definition bufio_read ::
  "nat \<Rightarrow> bytes \<times> 'a conn_scheme \<Rightarrow> bytes res \<times> bytes \<times> 'a conn_scheme" where
  "bufio_read n b =
     (case b of (buf, c) \<Rightarrow>
        if buf \<noteq> [] then (Ok (take n buf), drop n buf, c)
        else if n \<ge> bufioSize then (case conn_read n c of (r, c') \<Rightarrow> (r, [], c'))
        else (case conn_read bufioSize c of
          (Ok d, c') \<Rightarrow> (Ok (take n d), drop n d, c')
        | (r, c') \<Rightarrow> (r, [], c')))"

definition avail :: "bytes \<times> 'a conn_scheme \<Rightarrow> nat" where
  "avail b = length (fst b) + (\<Sum>seg \<leftarrow> rx (snd b). Suc (length seg))"

lemma conn_read_Ok:
  assumes "0 < n" and "conn_read n c = (Ok d, c')"
  shows "d @ concat (rx c') = concat (rx c) \<and> length d \<le> n \<and> c' = c\<lparr>rx := rx c'\<rparr>
    \<and> length d + (\<Sum>seg \<leftarrow> rx c'. Suc (length seg)) \<le> (\<Sum>seg \<leftarrow> rx c. Suc (length seg))
    \<and> (d = [] \<longrightarrow> (\<Sum>seg \<leftarrow> rx c'. Suc (length seg)) < (\<Sum>seg \<leftarrow> rx c. Suc (length seg)))"
  using assms by (cases "rx c") (auto simp: conn_read_def split: option.splits if_splits)

lemma conn_read_not_Ok:
  assumes "0 < n" and "conn_read n c = (r, c')" and "\<not> is_ok r"
  shows "rx c = [] \<and> c' = c \<and> r = (case rx_end c of None \<Rightarrow> Block | Some e \<Rightarrow> Err e)"
  using assms by (auto simp: conn_read_def split: list.splits option.splits)

lemma bufio_read_Ok:
  assumes "0 < n" and "bufio_read n (buf, c) = (Ok d, buf', c')"
  shows "d @ buf' @ concat (rx c') = buf @ concat (rx c) \<and> length d \<le> n
    \<and> c' = c\<lparr>rx := rx c'\<rparr> \<and> avail (buf', c') < avail (buf, c)"
proof (cases "buf = []")
  case False
  with assms show ?thesis by (cases buf) (auto simp: bufio_read_def avail_def)
next
  case True
  show ?thesis
  proof (cases "n \<ge> bufioSize")
    case big: True
    with assms \<open>buf = []\<close> have r: "conn_read n c = (Ok d, c')" and b: "buf' = []"
      by (auto simp: bufio_read_def split: prod.splits)
    from conn_read_Ok [OF assms(1) r] b \<open>buf = []\<close> show ?thesis
      by (cases d) (auto simp: avail_def)
  next
    case small: False
    with assms \<open>buf = []\<close> obtain e where
        r: "conn_read bufioSize c = (Ok e, c')" and d: "d = take n e" "buf' = drop n e"
      by (auto simp: bufio_read_def split: prod.splits res.splits)
    have "0 < bufioSize" by (simp add: bufioSize_def)
    from conn_read_Ok [OF this r] d \<open>buf = []\<close> \<open>0 < n\<close> show ?thesis
      by (cases e) (auto simp: avail_def)
  qed
qed

lemma bufio_read_not_Ok:
  assumes "0 < n" and "bufio_read n (buf, c) = (r, b')" and "\<not> is_ok r"
  shows "buf = [] \<and> rx c = [] \<and> b' = ([], c)
    \<and> r = (case rx_end c of None \<Rightarrow> Block | Some e \<Rightarrow> Err e)"
proof -
  have pos: "0 < bufioSize" by (simp add: bufioSize_def)
  from assms show ?thesis
    by (auto simp: bufio_read_def split: if_splits prod.splits res.splits
        dest!: conn_read_not_Ok [OF assms(1)] conn_read_not_Ok [OF pos] split: option.splits)
qed

text \<open>\<open>io.ReadFull\<close>: read until \<open>n\<close> bytes are there; an \<open>EOF\<close> after the first byte is unexpected.\<close>

function readFull ::
  "nat \<Rightarrow> bytes \<Rightarrow> bytes \<times> 'a conn_scheme \<Rightarrow> bytes res \<times> bytes \<times> 'a conn_scheme" where
  "readFull n acc b =
     (if n = 0 then (Ok acc, b)
      else case bufio_read n b of
        (Ok d, b') \<Rightarrow> readFull (n - length d) (acc @ d) b'
      | (Err e, b') \<Rightarrow> (Err (if e = EOF \<and> acc \<noteq> [] then UnexpectedEOF else e), b')
      | (Panic, b') \<Rightarrow> (Panic, b')
      | (Block, b') \<Rightarrow> (Block, b'))"
  by pat_completeness auto
termination
  by (relation "measure (\<lambda>(n, acc, b). avail b)") (auto dest!: bufio_read_Ok [OF _ sym])

declare readFull.simps [simp del]

section \<open>Frames over libp2p streams\<close>

text \<open>\<open>ReadBytes\<close> makes a buffered reader of its own; what that reader has read past the frame is
  gone when it returns.\<close>

definition ReadBytes :: "'a conn_scheme option \<Rightarrow> bytes res \<times> 'a conn_scheme option" where
  "ReadBytes s =
     (case s of
        None \<Rightarrow> (Panic, None)
      | Some c \<Rightarrow>
          (case readFull 4 [] ([], c) of
             (Ok h, b1) \<Rightarrow>
               (let size = Uint32 h in
                if unat size > maxMessageSizeDelegateConnection
                then (Err (ErrMsg ''expected message size larger than maximum allowed''),
                      Some (snd b1))
                else case readFull (unat size) [] b1 of (r, b2) \<Rightarrow> (r, Some (snd b2)))
           | (r, b1) \<Rightarrow> (r, Some (snd b1))))"

text \<open>\<open>bufio.Writer\<close>: bytes collect in the buffer; a write that does not fit fills the buffer, hands
  it on and passes what is still too large straight through.\<close>

definition bw_flush :: "bytes \<times> 'a conn_scheme \<Rightarrow> unit res \<times> bytes \<times> 'a conn_scheme" where
  "bw_flush w =
     (case w of (buf, c) \<Rightarrow>
        if buf = [] then (Ok (), [], c)
        else case conn_write buf c of (r, c') \<Rightarrow> (r, [], c'))"

definition bw_write :: "bytes \<Rightarrow> bytes \<times> 'a conn_scheme \<Rightarrow> unit res \<times> bytes \<times> 'a conn_scheme" where
  "bw_write p w =
     (case w of (buf, c) \<Rightarrow>
        let k = bufioSize - length buf in
        if length p \<le> k then (Ok (), buf @ p, c)
        else if buf = [] then (case conn_write p c of (r, c') \<Rightarrow> (r, [], c'))
        else case conn_write (buf @ take k p) c of
          (Ok _, c') \<Rightarrow>
            (if length (drop k p) \<le> bufioSize then (Ok (), drop k p, c')
             else case conn_write (drop k p) c' of (r, c'') \<Rightarrow> (r, [], c''))
        | (r, c') \<Rightarrow> (r, [], c'))"

definition WriteBytes :: "'a conn_scheme option \<Rightarrow> bytes \<Rightarrow> unit res \<times> 'a conn_scheme option" where
  "WriteBytes s d =
     (if length d > MaxInt32 then (Err (ErrMsg ''data size too large''), s)
      else if length d = 0 then (Ok (), s)
      else case s of
        None \<Rightarrow> (Panic, None)
      | Some c \<Rightarrow>
          (case bw_write (PutUint32 (of_nat (length d))) ([], c) of
             (Ok _, w1) \<Rightarrow>
               (case bw_write d w1 of
                  (Ok _, w2) \<Rightarrow> (case bw_flush w2 of (r, w3) \<Rightarrow> (r, Some (snd w3)))
                | (r, w2) \<Rightarrow> (r, Some (snd w2)))
           | (r, w1) \<Rightarrow> (r, Some (snd w1))))"

section \<open>The Pipe interface\<close>

text \<open>\<open>common.Pipe\<close>: an implementation is its four methods over the state behind it.\<close>

record 'p Pipe =
  pipe_Connect :: "'p \<Rightarrow> unit res \<times> 'p"
  pipe_Read :: "'p \<Rightarrow> bytes res \<times> 'p"
  pipe_Write :: "'p \<Rightarrow> bytes \<Rightarrow> unit res \<times> 'p"
  pipe_Close :: "'p \<Rightarrow> unit res \<times> 'p"

definition ConnPipe :: "'a conn_scheme Pipe" where
  "ConnPipe =
     \<lparr>pipe_Connect = (\<lambda>c. (Ok (), c)), pipe_Read = ReadBytesConn, pipe_Write = WriteBytesConn,
      pipe_Close = (\<lambda>c. (Ok (), c))\<rparr>"

text \<open>A \<open>StreamPipe\<close> is only made around a stream that was opened or accepted, never a nil one.\<close>

definition StreamPipe :: "'a conn_scheme Pipe" where
  "StreamPipe =
     \<lparr>pipe_Connect = (\<lambda>c. (Ok (), c)),
      pipe_Read = (\<lambda>c. case ReadBytes (Some c) of (r, c') \<Rightarrow> (r, the c')),
      pipe_Write = (\<lambda>c d. case WriteBytes (Some c) d of (r, c') \<Rightarrow> (r, the c')),
      pipe_Close = (\<lambda>c. (Ok (), c))\<rparr>"

definition SocketPipe :: "TCPSocketChannel Pipe" where
  "SocketPipe =
     \<lparr>pipe_Connect = sock_Connect, pipe_Read = sock_Read, pipe_Write = sock_Write,
      pipe_Close = sock_Close\<rparr>"

section \<open>Laws of reading and writing\<close>

lemma readFull_enough:
  assumes "n \<le> length (buf @ concat (rx c))"
  shows "\<exists>buf' c'. readFull n acc (buf, c) = (Ok (acc @ take n (buf @ concat (rx c))), buf', c')
    \<and> buf' @ concat (rx c') = drop n (buf @ concat (rx c)) \<and> c' = c\<lparr>rx := rx c'\<rparr>"
  using assms
proof (induction n acc "(buf, c)" arbitrary: buf c rule: readFull.induct)
  case (1 n acc buf c)
  show ?case
  proof (cases "n = 0")
    case True
    then show ?thesis by (simp add: readFull.simps)
  next
    case False
    obtain r b' where r: "bufio_read n (buf, c) = (r, b')"
      by (cases "bufio_read n (buf, c)")
    have "is_ok r"
      using False "1.prems" r bufio_read_not_Ok [of n buf c r b'] by (cases "is_ok r") auto
    then obtain d buf1 c1 where d: "r = Ok d" "b' = (buf1, c1)"
      by (cases b') (auto simp: is_ok_iff)
    have step: "d @ buf1 @ concat (rx c1) = buf @ concat (rx c)" "length d \<le> n" "c1 = c\<lparr>rx := rx c1\<rparr>"
      using bufio_read_Ok [of n buf c d buf1 c1] False r d by auto
    have "n - length d \<le> length (buf1 @ concat (rx c1))"
      using "1.prems" step(1,2) by (metis diff_le_mono length_append add_diff_cancel_left')
    from "1.hyps" [OF False r [unfolded d, symmetric] refl this] obtain buf' c' where IH:
        "readFull (n - length d) (acc @ d) (buf1, c1)
           = (Ok ((acc @ d) @ take (n - length d) (buf1 @ concat (rx c1))), buf', c')"
        "buf' @ concat (rx c') = drop (n - length d) (buf1 @ concat (rx c1))"
        "c' = c1\<lparr>rx := rx c'\<rparr>"
      by blast
    have "readFull n acc (buf, c)
        = (Ok (acc @ take n (d @ buf1 @ concat (rx c1))), buf', c')"
      using False r d IH(1) step(2) by (simp add: readFull.simps [of n])
    moreover have "buf' @ concat (rx c') = drop n (d @ buf1 @ concat (rx c1))"
      using IH(2) step(2) by simp
    moreover have "c' = c\<lparr>rx := rx c'\<rparr>"
      using IH(3) step(3) by (metis conn.surjective conn.update_convs(1))
    ultimately show ?thesis unfolding step(1) by blast
  qed
qed

lemma readFull_short:
  assumes "length (buf @ concat (rx c)) < n"
  shows "fst (readFull n acc (buf, c)) =
    (case rx_end c of None \<Rightarrow> Block
     | Some e \<Rightarrow> Err (if e = EOF \<and> acc @ buf @ concat (rx c) \<noteq> [] then UnexpectedEOF else e))"
  using assms
proof (induction n acc "(buf, c)" arbitrary: buf c rule: readFull.induct)
  case (1 n acc buf c)
  have n: "n \<noteq> 0" using "1.prems" by simp
  obtain r b' where r: "bufio_read n (buf, c) = (r, b')"
    by (cases "bufio_read n (buf, c)")
  show ?case
  proof (cases "is_ok r")
    case False
    then have "buf = []" "rx c = []" "r = (case rx_end c of None \<Rightarrow> Block | Some e \<Rightarrow> Err e)"
      using bufio_read_not_Ok [of n buf c r b'] n r by auto
    then show ?thesis using n r by (auto simp: readFull.simps [of n] split: option.splits)
  next
    case True
    then obtain d buf1 c1 where d: "r = Ok d" "b' = (buf1, c1)"
      by (cases b') (auto simp: is_ok_iff)
    have step: "d @ buf1 @ concat (rx c1) = buf @ concat (rx c)" "length d \<le> n" "c1 = c\<lparr>rx := rx c1\<rparr>"
      using bufio_read_Ok [of n buf c d buf1 c1] n r d by auto
    have "length (buf1 @ concat (rx c1)) < n - length d"
      using "1.prems" step(1) by (metis add.commute length_append less_diff_conv)
    note IH = "1.hyps" [OF n r [unfolded d, symmetric] refl this]
    have "rx_end c1 = rx_end c" using step(3) by (metis conn.ext_inject conn.surjective conn.update_convs(1))
    moreover have "(acc @ d) @ buf1 @ concat (rx c1) = acc @ buf @ concat (rx c)"
      using step(1) by simp
    ultimately show ?thesis
      using n r d IH by (simp only: readFull.simps [of n]) simp
  qed
qed

lemma conn_write_append:
  "conn_write (a @ b) c = (case conn_write a c of (Ok _, c') \<Rightarrow> conn_write b c' | (r, c') \<Rightarrow> (r, c'))"
proof (cases "wcap c")
  case None
  then show ?thesis by (simp add: conn_write_def)
next
  case (Some ke)
  obtain k e where ke: "ke = (k, e)" by (cases ke)
  show ?thesis
  proof (cases "length a \<le> k")
    case True
    with Some ke show ?thesis by (auto simp: conn_write_def)
  next
    case False
    with Some ke show ?thesis by (simp add: conn_write_def)
  qed
qed

lemma conn_write_Nil [simp]: "conn_write [] c = (Ok (), c)"
  by (auto simp: conn_write_def split: option.splits)

lemma length_frame [simp]: "length (frame d) = 4 + length d"
  by (simp add: frame_def)

lemma frame_size: "length d \<le> MaxInt32 \<Longrightarrow> unat (of_nat (length d) :: 32 word) = length d"
  by (simp add: MaxInt32_def unat_of_nat)

lemma max_message_le: "maxMessageSizeDelegateConnection \<le> MaxInt32"
  by (simp add: maxMessageSizeDelegateConnection_def MaxInt32_def)

text \<open>The buffered writer is invisible: on every connection, failing ones included, \<open>WriteBytes\<close> has
  the effect of a single write of the frame.\<close>

lemma WriteBytes_conn_write:
  assumes "d \<noteq> []" and "length d \<le> MaxInt32"
  shows "WriteBytes (Some c) d = (case conn_write (frame d) c of (r, c') \<Rightarrow> (r, Some c'))"
proof -
  let ?h = "PutUint32 (of_nat (length d))"
  have h: "bw_write ?h ([], c) = (Ok (), ?h, c)"
    by (simp add: bw_write_def bufioSize_def)
  show ?thesis
  proof (cases "length d \<le> bufioSize - 4")
    case True
    then show ?thesis
      using assms h by (simp add: WriteBytes_def bw_write_def bw_flush_def frame_def bufioSize_def
          split: prod.splits)
  next
    case False
    let ?k = "bufioSize - 4"
    have "frame d = (?h @ take ?k d) @ drop ?k d" by (simp add: frame_def)
    then have w: "conn_write (frame d) c = (case conn_write (?h @ take ?k d) c of
        (Ok _, c') \<Rightarrow> conn_write (drop ?k d) c' | (r, c') \<Rightarrow> (r, c'))"
      by (simp only: conn_write_append)
    have hne: "?h \<noteq> []" by (metis length_PutUint32 list.size(3) zero_neq_numeral)
    obtain r1 c1 where 1: "conn_write (?h @ take ?k d) c = (r1, c1)"
      by (cases "conn_write (?h @ take ?k d) c")
    have 2: "bw_write d (?h, c) = (case r1 of
        Ok _ \<Rightarrow> if length (drop ?k d) \<le> bufioSize then (Ok (), drop ?k d, c1)
          else (case conn_write (drop ?k d) c1 of (r, c'') \<Rightarrow> (r, [], c''))
      | _ \<Rightarrow> (r1, [], c1))"
      using False hne 1 by (simp add: bw_write_def split: res.splits)
    have "WriteBytes (Some c) d = (case r1 of
        Ok _ \<Rightarrow> (case conn_write (drop ?k d) c1 of (r, c'') \<Rightarrow> (r, Some c'')) | _ \<Rightarrow> (r1, Some c1))"
      using assms h 2 False by (auto simp: WriteBytes_def bw_flush_def split: res.splits prod.splits)
    with w 1 show ?thesis by (auto split: res.splits prod.splits)
  qed
qed

lemma ReadBytes_frame:
  assumes "concat (rx c) = frame d @ rest" and "length d \<le> maxMessageSizeDelegateConnection"
  shows "\<exists>c'. ReadBytes (Some c) = (Ok d, Some c') \<and> c' = c\<lparr>rx := rx c'\<rparr>"
proof -
  have "4 \<le> length ([] @ concat (rx c))" using assms(1) by simp
  from readFull_enough [OF this, of "[]"] obtain buf1 c1 where 1:
      "readFull 4 [] ([], c) = (Ok (take 4 (frame d @ rest)), buf1, c1)"
      "buf1 @ concat (rx c1) = drop 4 (frame d @ rest)" "c1 = c\<lparr>rx := rx c1\<rparr>"
    using assms(1) by auto
  have hd: "Uint32 (take 4 (frame d @ rest)) = of_nat (length d)"
    by (simp add: frame_def)
  have size: "unat (of_nat (length d) :: 32 word) = length d"
    using assms(2) max_message_le by (intro frame_size) simp
  have dr: "drop 4 (frame d @ rest) = d @ rest" by (simp add: frame_def)
  have "length d \<le> length (buf1 @ concat (rx c1))" using 1(2) dr by simp
  from readFull_enough [OF this, of "[]"] obtain buf2 c2 where 2:
      "readFull (length d) [] (buf1, c1) = (Ok d, buf2, c2)" "c2 = c1\<lparr>rx := rx c2\<rparr>"
    using 1(2) dr by auto
  have "ReadBytes (Some c) = (Ok d, Some c2)"
    using 1(1) 2(1) hd size assms(2) by (simp add: ReadBytes_def)
  moreover have "c2 = c\<lparr>rx := rx c2\<rparr>"
    using 1(3) 2(2) by (metis conn.surjective conn.update_convs(1))
  ultimately show ?thesis by blast
qed

text \<open>Reading and writing leave what the connection is attached to alone, such as the identity of the remote peer.\<close>

lemma conn_read_more: "conn_read n c = (r, c') \<Longrightarrow> conn.more c' = conn.more c"
  by (auto simp: conn_read_def split: if_splits list.splits option.splits)

lemma conn_write_more: "conn_write d c = (r, c') \<Longrightarrow> conn.more c' = conn.more c"
  by (auto simp: conn_write_def split: if_splits option.splits)

lemma readFull_more: "readFull n acc b = (r, b') \<Longrightarrow> conn.more (snd b') = conn.more (snd b)"
proof (induction n acc b rule: readFull.induct)
  case (1 n acc b)
  show ?case
  proof (cases "n = 0")
    case False
    obtain x b1 where x: "bufio_read n b = (x, b1)" by (cases "bufio_read n b")
    then have "conn.more (snd b1) = conn.more (snd b)"
      by (auto simp: bufio_read_def dest: conn_read_more split: prod.splits if_splits res.splits)
    with 1 False x show ?thesis by (cases x) (auto simp: readFull.simps [of n])
  qed (use 1(2) in \<open>simp add: readFull.simps\<close>)
qed

lemma stream_Read_more: "pipe_Read StreamPipe c = (r, c') \<Longrightarrow> conn.more c' = conn.more c"
  by (auto simp: StreamPipe_def ReadBytes_def Let_def dest!: readFull_more split: prod.splits res.splits if_splits)

lemma stream_Write_more: "pipe_Write StreamPipe c d = (r, c') \<Longrightarrow> conn.more c' = conn.more c"
proof (cases "d \<noteq> [] \<and> length d \<le> MaxInt32")
  case True
  assume "pipe_Write StreamPipe c d = (r, c')"
  then show ?thesis
    using WriteBytes_conn_write [of d c] True by (auto simp: StreamPipe_def dest: conn_write_more split: prod.splits)
qed (auto simp: StreamPipe_def WriteBytes_def)

lemma same_remote:
  assumes "conn.more (st' :: stream) = conn.more st"
  shows "remotePublicKey st' = remotePublicKey st" and "remotePeer st' = remotePeer st"
  using assms by (cases st; cases st'; simp)+

lemma conn_read_piece:
  assumes "rx c = (a @ b) # segs" and "a \<noteq> []"
  shows "conn_read (length a) c = (Ok a, c\<lparr>rx := (if b = [] then segs else b # segs)\<rparr>)"
  using assms by (simp add: conn_read_def)

lemma fill_buf_full [simp]: "length d = n \<Longrightarrow> fill_buf n d = d"
  by (simp add: fill_buf_def)

lemma conn_read_frame:
  assumes "rx c = (frame d @ extra) # segs" and "length d \<le> MaxInt32"
  shows "\<exists>c1 c2. conn_read 4 c = (Ok (PutUint32 (of_nat (length d))), c1)
    \<and> conn_read (length d) c1 = (Ok d, c2)
    \<and> tx c2 = tx c \<and> wcap c2 = wcap c \<and> rx_end c2 = rx_end c
    \<and> concat (rx c2) = extra @ concat segs"
proof -
  let ?h = "PutUint32 (of_nat (length d))"
  have hne: "?h \<noteq> []" by (metis length_PutUint32 list.size(3) zero_neq_numeral)
  have "rx c = (?h @ d @ extra) # segs" using assms(1) by (simp add: frame_def)
  from conn_read_piece [OF this hne]
  have r1: "conn_read 4 c = (Ok ?h, c\<lparr>rx := (if d @ extra = [] then segs else (d @ extra) # segs)\<rparr>)"
    by simp
  show ?thesis
  proof (cases "d = []")
    case True
    with r1 show ?thesis by (auto simp: conn_read_def [of 0])
  next
    case False
    then have "conn_read (length d) (c\<lparr>rx := (d @ extra) # segs\<rparr>)
        = (Ok d, c\<lparr>rx := (if extra = [] then segs else extra # segs)\<rparr>)"
      by (simp add: conn_read_def)
    with r1 False show ?thesis by auto
  qed
qed

section \<open>The contract of a pipe\<close>

text \<open>
  What the protocol layer relies on, whatever the transport: a message that is written leaves as
  one frame, and a frame that arrives whole is read as the message. \<open>arriving p d\<close> says that
  the next read finds the frame of \<open>d\<close>; for \<open>net.Conn\<close> in one piece, for a stream in any pieces.
\<close>

locale framed_pipe =
  fixes P :: "'p Pipe"
    and writable :: "'p \<Rightarrow> bool"
    and sent :: "'p \<Rightarrow> bytes"
    and arriving :: "'p \<Rightarrow> bytes \<Rightarrow> bool"
  assumes write_frame:
      "\<lbrakk>writable p; d \<noteq> []; length d \<le> MaxInt32\<rbrakk> \<Longrightarrow>
       \<exists>p'. pipe_Write P p d = (Ok (), p') \<and> sent p' = sent p @ frame d \<and> writable p'
          \<and> (\<forall>e. arriving p e \<longrightarrow> arriving p' e)"
    and read_frame:
      "\<lbrakk>arriving p d; length d \<le> maxMessageSizeDelegateConnection\<rbrakk> \<Longrightarrow>
       \<exists>p'. pipe_Read P p = (Ok d, p') \<and> sent p' = sent p \<and> (writable p \<longrightarrow> writable p')"
begin

lemma write_then_read:
  assumes "writable p" and "arriving p e" and "d \<noteq> []" and "length d \<le> MaxInt32"
    and "length e \<le> maxMessageSizeDelegateConnection"
  shows "\<exists>p1 p2. pipe_Write P p d = (Ok (), p1) \<and> pipe_Read P p1 = (Ok e, p2)
    \<and> sent p2 = sent p @ frame d"
proof -
  obtain p1 where 1: "pipe_Write P p d = (Ok (), p1)" "sent p1 = sent p @ frame d" "arriving p1 e"
    using write_frame [OF assms(1,3,4)] assms(2) by blast
  obtain p2 where "pipe_Read P p1 = (Ok e, p2)" "sent p2 = sent p1"
    using read_frame [OF 1(3) assms(5)] by blast
  with 1 show ?thesis by auto
qed

end

definition conn_arriving :: "'a conn_scheme \<Rightarrow> bytes \<Rightarrow> bool" where
  "conn_arriving c d \<longleftrightarrow> (\<exists>extra segs. rx c = (frame d @ extra) # segs)"

definition stream_arriving :: "'a conn_scheme \<Rightarrow> bytes \<Rightarrow> bool" where
  "stream_arriving c d \<longleftrightarrow> (\<exists>rest. concat (rx c) = frame d @ rest)"

interpretation conn_pipe: framed_pipe ConnPipe "\<lambda>c. wcap c = None" tx conn_arriving
proof unfold_locales
  fix p :: "'a conn_scheme" and d :: bytes
  assume "wcap p = None" "d \<noteq> []" "length d \<le> MaxInt32"
  then show "\<exists>p'. pipe_Write ConnPipe p d = (Ok (), p') \<and> tx p' = tx p @ frame d \<and> wcap p' = None
      \<and> (\<forall>e. conn_arriving p e \<longrightarrow> conn_arriving p' e)"
    by (simp add: ConnPipe_def WriteBytesConn_def conn_write_def frame_def conn_arriving_def)
next
  fix p :: "'a conn_scheme" and d :: bytes
  assume a: "conn_arriving p d" and l: "length d \<le> maxMessageSizeDelegateConnection"
  then obtain extra segs where "rx p = (frame d @ extra) # segs"
    by (auto simp: conn_arriving_def)
  moreover have l': "length d \<le> MaxInt32" using l max_message_le by simp
  ultimately obtain c1 c2 where "conn_read 4 p = (Ok (PutUint32 (of_nat (length d))), c1)"
      "conn_read (length d) c1 = (Ok d, c2)" "tx c2 = tx p" "wcap c2 = wcap p"
    using conn_read_frame by blast
  with l frame_size [OF l'] show "\<exists>p'. pipe_Read ConnPipe p = (Ok d, p') \<and> tx p' = tx p
      \<and> (wcap p = None \<longrightarrow> wcap p' = None)"
    by (simp add: ConnPipe_def ReadBytesConn_def)
qed

interpretation stream_pipe: framed_pipe StreamPipe "\<lambda>c. wcap c = None" tx stream_arriving
proof unfold_locales
  fix p :: "'a conn_scheme" and d :: bytes
  assume "wcap p = None" "d \<noteq> []" "length d \<le> MaxInt32"
  then show "\<exists>p'. pipe_Write StreamPipe p d = (Ok (), p') \<and> tx p' = tx p @ frame d \<and> wcap p' = None
      \<and> (\<forall>e. stream_arriving p e \<longrightarrow> stream_arriving p' e)"
    by (simp add: StreamPipe_def WriteBytes_conn_write conn_write_def stream_arriving_def)
next
  fix p :: "'a conn_scheme" and d :: bytes
  assume a: "stream_arriving p d" and l: "length d \<le> maxMessageSizeDelegateConnection"
  then obtain rest where "concat (rx p) = frame d @ rest" by (auto simp: stream_arriving_def)
  from ReadBytes_frame [OF this l] obtain c' where
      c': "ReadBytes (Some p) = (Ok d, Some c')" "c' = p\<lparr>rx := rx c'\<rparr>" by blast
  have "tx c' = tx p" "wcap c' = wcap p"
    by (subst c'(2), simp)+
  with c'(1) show "\<exists>p'. pipe_Read StreamPipe p = (Ok d, p') \<and> tx p' = tx p
      \<and> (wcap p = None \<longrightarrow> wcap p' = None)"
    by (simp add: StreamPipe_def)
qed

interpretation socket_pipe: framed_pipe SocketPipe
  "\<lambda>s. \<exists>c. sock_conn s = Some c \<and> wcap c = None"
  "\<lambda>s. case sock_conn s of None \<Rightarrow> [] | Some c \<Rightarrow> tx c"
  "\<lambda>s d. \<exists>c. sock_conn s = Some c \<and> conn_arriving c d"
proof (unfold_locales, goal_cases)
  case (1 p d)
  then show ?case
    by (auto simp: SocketPipe_def sock_Write_def conn_write_def frame_def conn_arriving_def)
next
  case (2 p d)
  then obtain c extra segs where c: "sock_conn p = Some c" "rx c = (frame d @ extra) # segs"
    by (auto simp: conn_arriving_def)
  have l: "length d \<le> MaxInt32" using 2(2) max_message_le by simp
  obtain c1 c2 where "conn_read 4 c = (Ok (PutUint32 (of_nat (length d))), c1)"
      "conn_read (length d) c1 = (Ok d, c2)" "tx c2 = tx c" "wcap c2 = wcap c"
    using conn_read_frame [OF c(2) l] by blast
  with c(1) frame_size [OF l] show ?case by (simp add: SocketPipe_def sock_Read_def)
qed

section \<open>Properties of the transports\<close>

text \<open>C12: What \<open>WriteBytes\<close> puts on a stream, \<open>ReadBytes\<close> gives back, however the bytes are cut into
  pieces on the way and whatever follows them, for every message of 1 byte to 3 MiB.\<close>

theorem stream_roundtrip:
  assumes "d \<noteq> []" and "length d \<le> maxMessageSizeDelegateConnection" and "wcap c = None"
    and "WriteBytes (Some c) d = (r, Some c')" and "tx c' = tx c @ wire" and "concat (rx c2) = wire @ rest"
  shows "r = Ok () \<and> fst (ReadBytes (Some c2)) = Ok d"
proof -
  have "length d \<le> MaxInt32" using assms(2) max_message_le by simp
  then have "r = Ok ()" "tx c' = tx c @ frame d"
    using assms(1,3,4) by (auto simp: WriteBytes_conn_write conn_write_def)
  with assms(5,6) ReadBytes_frame [of c2 d rest] assms(2) show ?thesis by auto
qed

lemma stream_roundtrip_witness:
  "fst (ReadBytes (Some \<lparr>rx = [[0, 0], [0], [2, 7], [9]], rx_end = None, tx = [], wcap = None\<rparr>)) = Ok [7, 9]"
proof -
  let ?c = "\<lparr>rx = [], rx_end = None, tx = [], wcap = None\<rparr> :: conn"
  have w: "PutUint32 2 = [0, 0, 0, 2]" by (simp add: PutUint32_def)
  then have "WriteBytes (Some ?c) [7, 9] = (Ok (), Some (?c\<lparr>tx := [0, 0, 0, 2, 7, 9]\<rparr>))"
    by (simp add: WriteBytes_conn_write MaxInt32_def conn_write_def frame_def)
  from stream_roundtrip [OF _ _ _ this, of "[0, 0, 0, 2, 7, 9]"
      "\<lparr>rx = [[0, 0], [0], [2, 7], [9]], rx_end = None, tx = [], wcap = None\<rparr>" "[]"]
  show ?thesis by (simp add: maxMessageSizeDelegateConnection_def)
qed

text \<open>C23: The buffered writer of \<open>WriteBytes\<close> is invisible: on every stream, also one that fails after some
  bytes, the outcome and the bytes written are those of one write of the whole frame.\<close>

theorem WriteBytes_one_write:
  assumes "d \<noteq> []" and "length d \<le> MaxInt32"
  shows "WriteBytes (Some c) d = (case conn_write (PutUint32 (of_nat (length d)) @ d) c of (r, c') \<Rightarrow> (r, Some c'))"
  using WriteBytes_conn_write [OF assms] by (simp add: frame_def)

lemma WriteBytes_one_write_witness:
  "fst (WriteBytes (Some \<lparr>rx = [], rx_end = None, tx = [], wcap = Some (5, EOF)\<rparr>) [7, 9]) = Err EOF"
  using WriteBytes_one_write [of "[7, 9]" "\<lparr>rx = [], rx_end = None, tx = [], wcap = Some (5, EOF)\<rparr>"]
  by (simp add: MaxInt32_def conn_write_def PutUint32_def)

text \<open>C33: A header that announces more than 3 MiB is refused before anything of the payload is read, on
  libp2p streams (however the bytes are cut) and on delegate connections (where the header arrives in one
  piece, alone or followed by payload); a stream that ends inside a frame gives an error, never a shortened
  message.\<close>

theorem ReadBytes_refuses:
  assumes "concat (rx c) = PutUint32 n @ rest"
  shows "(unat n > maxMessageSizeDelegateConnection \<longrightarrow>
      fst (ReadBytes (Some c)) = Err (ErrMsg ''expected message size larger than maximum allowed''))
    \<and> (unat n \<le> maxMessageSizeDelegateConnection \<and> length rest < unat n \<and> rx_end c = Some e \<longrightarrow>
      (\<exists>x. fst (ReadBytes (Some c)) = Err x))
    \<and> (unat n > maxMessageSizeDelegateConnection \<and> rx c = (PutUint32 n @ p) # segs \<longrightarrow>
      ReadBytesConn c = (Err (ErrMsg ''expected message size larger than maximum allowed''),
        c\<lparr>rx := (if p = [] then segs else p # segs)\<rparr>))"
proof -
  have "4 \<le> length ([] @ concat (rx c))" using assms by simp
  from readFull_enough [OF this, of "[]"] obtain buf1 c1 where 1:
      "readFull 4 [] ([], c) = (Ok (PutUint32 n), buf1, c1)" "buf1 @ concat (rx c1) = rest" "c1 = c\<lparr>rx := rx c1\<rparr>"
    using assms by auto
  have "rx_end c1 = rx_end c" by (subst 1(3)) simp
  then have "\<exists>x. fst (readFull (unat n) [] (buf1, c1)) = Err x" if "length rest < unat n" "rx_end c = Some e"
    using readFull_short [of buf1 c1 "unat n" "[]"] 1(2) that by (auto simp: length_append [symmetric] simp del: length_append)
  moreover have "ReadBytesConn c = (Err (ErrMsg ''expected message size larger than maximum allowed''),
      c\<lparr>rx := (if p = [] then segs else p # segs)\<rparr>)"
    if "unat n > maxMessageSizeDelegateConnection" "rx c = (PutUint32 n @ p) # segs"
    using that by (auto simp: ReadBytesConn_def conn_read_def fill_buf_def)
  ultimately show ?thesis using 1(1) by (auto simp: ReadBytes_def split: prod.splits)
qed

lemma ReadBytes_refuses_witness:
  "fst (ReadBytes (Some \<lparr>rx = [[255, 0, 0, 0, 1]], rx_end = None, tx = [], wcap = None\<rparr>))
    = Err (ErrMsg ''expected message size larger than maximum allowed'')
   \<and> fst (ReadBytesConn \<lparr>rx = [[255, 0, 0, 0, 1]], rx_end = None, tx = [], wcap = None\<rparr>)
    = Err (ErrMsg ''expected message size larger than maximum allowed'')
   \<and> (\<exists>x. fst (ReadBytes (Some \<lparr>rx = [[0, 0, 0, 3, 1]], rx_end = Some EOF, tx = [], wcap = None\<rparr>)) = Err x)"
proof -
  have "PutUint32 0xFF000000 = [255, 0, 0, 0]" "PutUint32 3 = [0, 0, 0, 3]" by (simp_all add: PutUint32_def)
  then show ?thesis
    using ReadBytes_refuses [of "\<lparr>rx = [[255, 0, 0, 0, 1]], rx_end = None, tx = [], wcap = None\<rparr>" "0xFF000000" "[1]"
        EOF "[1]" "[]"]
      ReadBytes_refuses [of "\<lparr>rx = [[0, 0, 0, 3, 1]], rx_end = Some EOF, tx = [], wcap = None\<rparr>" 3 "[1]" EOF]
    by (simp add: maxMessageSizeDelegateConnection_def)
qed

text \<open>C36: On a plain connection (delegate clients, the agent's socket) a payload that arrives in more than
  one piece is not waited for: the first piece comes back, padded with zeros to the announced length, and
  the rest is taken for the next frame.\<close>

theorem ReadBytesConn_short_read:
  assumes "rx c = PutUint32 (of_nat n) # d # segs" and "d \<noteq> []" and "length d < n"
    and "n \<le> maxMessageSizeDelegateConnection"
  shows "ReadBytesConn c = (Ok (d @ replicate (n - length d) 0), c\<lparr>rx := segs\<rparr>)"
proof -
  have size: "unat (of_nat n :: 32 word) = n"
    using assms(4) by (simp add: maxMessageSizeDelegateConnection_def unat_of_nat)
  have "conn_read 4 c = (Ok (PutUint32 (of_nat n)), c\<lparr>rx := d # segs\<rparr>)"
    using assms(1) by (simp add: conn_read_def)
  moreover have "conn_read n (c\<lparr>rx := d # segs\<rparr>) = (Ok d, c\<lparr>rx := segs\<rparr>)"
    using assms(3) by (simp add: conn_read_def)
  ultimately show ?thesis
    using size assms(3,4) by (simp add: ReadBytesConn_def fill_buf_def)
qed

lemma ReadBytesConn_short_read_witness:
  "fst (ReadBytesConn \<lparr>rx = [[0, 0, 0, 4], [1, 2], [3, 4]], rx_end = None, tx = [], wcap = None\<rparr>) = Ok [1, 2, 0, 0]"
proof -
  have "PutUint32 4 = [0, 0, 0, 4]" by (simp add: PutUint32_def)
  then show ?thesis
    using ReadBytesConn_short_read [of "\<lparr>rx = [[0, 0, 0, 4], [1, 2], [3, 4]], rx_end = None, tx = [], wcap = None\<rparr>"
        4 "[1, 2]" "[[3, 4]]"]
    by (simp add: maxMessageSizeDelegateConnection_def numeral_2_eq_2)
qed

end
