(* ===== verification/AcnTypes.thy ===== *)
theory AcnTypes
  imports Framing
begin

text \<open>
  The messages of the agent communication network (\<open>protocols/acn/v1_0_0/acn.proto\<close> and its
  generated Go types) and the AEA envelope (\<open>aea/envelope.proto\<close>). A sub-message of proto3 may be
  missing: the generated field is a pointer, an \<open>option\<close> here.

  Serialisation itself is done by the protobuf library, which is not part of the repository: a
  \<open>codec\<close> is a parameter of every definition that marshals. What the code relies on is stated by
  \<open>codec_ok\<close>, the documented behaviour of protobuf: parsing what was serialised gives the message
  back, and a message whose oneof is set has at least one byte.
\<close>

section \<open>Message types\<close>

record AgentRecord =
  ServiceId :: string
  LedgerId :: string
  Address :: string
  PublicKey :: string
  PeerPublicKey :: string
  Signature :: string
  NotBefore :: string
  NotAfter :: string

record StatusBody =
  Code :: StatusCodeEnum
  Msgs :: "string list"

record AeaEnvelopePerformative =
  ape_Envelope :: bytes
  ape_Record :: "AgentRecord option"

datatype Performative =
    AeaEnvelope AeaEnvelopePerformative
  | LookupRequest string
  | LookupResponse "AgentRecord option"
  | Register "AgentRecord option"
  | Status "StatusBody option"

type_synonym AcnMessage = "Performative option"

record Envelope =
  To :: string
  Sender :: string
  ProtocolId :: string
  Message :: bytes
  Uri :: string

text \<open>\<open>StatusCodeEnum.String()\<close>: the name of the schema, the number for a value it does not name.\<close>

fun StatusCode_String :: "StatusCodeEnum \<Rightarrow> string" where
  "StatusCode_String SUCCESS = ''SUCCESS''"
| "StatusCode_String ERROR_UNSUPPORTED_VERSION = ''ERROR_UNSUPPORTED_VERSION''"
| "StatusCode_String ERROR_UNEXPECTED_PAYLOAD = ''ERROR_UNEXPECTED_PAYLOAD''"
| "StatusCode_String ERROR_GENERIC = ''ERROR_GENERIC''"
| "StatusCode_String ERROR_DECODE = ''ERROR_DECODE''"
| "StatusCode_String ERROR_WRONG_AGENT_ADDRESS = ''ERROR_WRONG_AGENT_ADDRESS''"
| "StatusCode_String ERROR_WRONG_PUBLIC_KEY = ''ERROR_WRONG_PUBLIC_KEY''"
| "StatusCode_String ERROR_INVALID_PROOF = ''ERROR_INVALID_PROOF''"
| "StatusCode_String ERROR_UNSUPPORTED_LEDGER = ''ERROR_UNSUPPORTED_LEDGER''"
| "StatusCode_String ERROR_UNKNOWN_AGENT_ADDRESS = ''ERROR_UNKNOWN_AGENT_ADDRESS''"
| "StatusCode_String ERROR_AGENT_NOT_READY = ''ERROR_AGENT_NOT_READY''"
| "StatusCode_String (STATUS_OTHER n) = itoa_int n"

text \<open>The numbers of the schema, as \<open>%d\<close> prints them.\<close>

fun StatusCode_Number :: "StatusCodeEnum \<Rightarrow> int" where
  "StatusCode_Number SUCCESS = 0"
| "StatusCode_Number ERROR_UNSUPPORTED_VERSION = 1"
| "StatusCode_Number ERROR_UNEXPECTED_PAYLOAD = 2"
| "StatusCode_Number ERROR_GENERIC = 3"
| "StatusCode_Number ERROR_DECODE = 4"
| "StatusCode_Number ERROR_WRONG_AGENT_ADDRESS = 10"
| "StatusCode_Number ERROR_WRONG_PUBLIC_KEY = 11"
| "StatusCode_Number ERROR_INVALID_PROOF = 12"
| "StatusCode_Number ERROR_UNSUPPORTED_LEDGER = 13"
| "StatusCode_Number ERROR_UNKNOWN_AGENT_ADDRESS = 20"
| "StatusCode_Number ERROR_AGENT_NOT_READY = 21"
| "StatusCode_Number (STATUS_OTHER n) = n"

section \<open>The protobuf library\<close>

record codec =
  acn_Marshal :: "AcnMessage \<Rightarrow> err + bytes"
  acn_Unmarshal :: "bytes \<Rightarrow> err + AcnMessage"
  acn_String :: "AcnMessage \<Rightarrow> string"
  env_Marshal :: "Envelope \<Rightarrow> err + bytes"
  env_Unmarshal :: "bytes \<Rightarrow> err + Envelope"
  rec_Marshal :: "AgentRecord \<Rightarrow> err + bytes"
  rec_Unmarshal :: "bytes \<Rightarrow> err + AgentRecord"
  rec_String :: "AgentRecord \<Rightarrow> string"

definition codec_ok :: "codec \<Rightarrow> bool" where
  "codec_ok C \<longleftrightarrow>
     (\<forall>m b. acn_Marshal C m = Inr b \<longrightarrow> acn_Unmarshal C b = Inr m) \<and>
     (\<forall>m b. acn_Marshal C (Some m) = Inr b \<longrightarrow> b \<noteq> []) \<and>
     (\<forall>e b. env_Marshal C e = Inr b \<longrightarrow> env_Unmarshal C b = Inr e) \<and>
     (\<forall>r b. rec_Marshal C r = Inr b \<longrightarrow> rec_Unmarshal C b = Inr r)"

lemma codec_acn: "\<lbrakk>codec_ok C; acn_Marshal C m = Inr b\<rbrakk> \<Longrightarrow> acn_Unmarshal C b = Inr m"
  by (simp add: codec_ok_def)

lemma codec_acn_not_Nil: "\<lbrakk>codec_ok C; acn_Marshal C (Some m) = Inr b\<rbrakk> \<Longrightarrow> b \<noteq> []"
  by (simp add: codec_ok_def)

lemma codec_env: "\<lbrakk>codec_ok C; env_Marshal C e = Inr b\<rbrakk> \<Longrightarrow> env_Unmarshal C b = Inr e"
  by (simp add: codec_ok_def)

lemma codec_rec: "\<lbrakk>codec_ok C; rec_Marshal C r = Inr b\<rbrakk> \<Longrightarrow> rec_Unmarshal C b = Inr r"
  by (simp add: codec_ok_def)

lemmas codec_laws = codec_acn codec_acn_not_Nil codec_env codec_rec

text \<open>A message travels over a pipe when it can be serialised into a frame that a reader accepts.\<close>

definition carries :: "codec \<Rightarrow> Performative \<Rightarrow> bytes \<Rightarrow> bool" where
  "carries C m b \<longleftrightarrow> acn_Marshal C (Some m) = Inr b \<and> length b \<le> maxMessageSizeDelegateConnection"

section \<open>A codec for examples\<close>

text \<open>Concrete codecs for the witnesses: finite tables of messages, each serialised as the byte
  strings of its table.\<close>

definition table_codec ::
  "(Performative \<times> bytes) list \<Rightarrow> (Envelope \<times> bytes) list \<Rightarrow> (AgentRecord \<times> bytes) list \<Rightarrow> codec" where
  "table_codec ms es rs =
     \<lparr>acn_Marshal = (\<lambda>m. case m of None \<Rightarrow> Inl (ErrMsg ''proto: no performative'')
        | Some pm \<Rightarrow> (case map_of ms pm of None \<Rightarrow> Inl (ErrMsg ''proto: cannot marshal'')
            | Some b \<Rightarrow> Inr b)),
      acn_Unmarshal = (\<lambda>b. case map_of (map prod.swap ms) b of
          None \<Rightarrow> Inl (ErrMsg ''proto: cannot parse'') | Some pm \<Rightarrow> Inr (Some pm)),
      acn_String = (\<lambda>m. []),
      env_Marshal = (\<lambda>e. case map_of es e of None \<Rightarrow> Inl (ErrMsg ''proto: cannot marshal'')
          | Some b \<Rightarrow> Inr b),
      env_Unmarshal = (\<lambda>b. case map_of (map prod.swap es) b of
          None \<Rightarrow> Inl (ErrMsg ''proto: cannot parse'') | Some e \<Rightarrow> Inr e),
      rec_Marshal = (\<lambda>r. case map_of rs r of None \<Rightarrow> Inl (ErrMsg ''proto: cannot marshal'')
          | Some b \<Rightarrow> Inr b),
      rec_Unmarshal = (\<lambda>b. case map_of (map prod.swap rs) b of
          None \<Rightarrow> Inl (ErrMsg ''proto: cannot parse'') | Some r \<Rightarrow> Inr r),
      rec_String = (\<lambda>r. [])\<rparr>"

lemma map_of_swap:
  assumes "distinct (map snd xs)" and "map_of xs a = Some b"
  shows "map_of (map prod.swap xs) b = Some a"
proof -
  have "(a, b) \<in> set xs" using assms(2) by (rule map_of_SomeD)
  then have "(b, a) \<in> set (map prod.swap xs)" by force
  moreover have "distinct (map fst (map prod.swap xs))" using assms(1) by (simp add: comp_def)
  ultimately show ?thesis by simp
qed

lemma codec_ok_table:
  assumes "distinct (map snd ms)" and "[] \<notin> set (map snd ms)"
    and "distinct (map snd es)" and "distinct (map snd rs)"
  shows "codec_ok (table_codec ms es rs)"
proof -
  have "map_of ms m \<noteq> Some []" for m
    using assms(2) by (force dest: map_of_SomeD)
  with assms(1,3,4) show ?thesis
    by (auto simp: codec_ok_def table_codec_def map_of_swap split: option.splits)
qed

end
