(* ===== verification/Go_Chan.thy ===== *)
theory Go_Chan
  imports Prelude
begin

text \<open>
  Channels of Go as values: a capacity, the buffered elements in order and whether the channel is
  closed; a nil channel is \<open>None\<close>. Sending and receiving give \<open>Block\<close> where the goroutine would
  wait, so a handler's outcome \<open>Block\<close> says that it does not proceed in that state. Sending on a
  closed channel panics; receiving from a closed and empty one gives the zero value.

  The locale \<open>bounded_queue\<close> is the contract of every queue of the node: first in, first out, at
  most \<open>cap\<close> elements. Its one consequence that the clients use: over any sequence of operations
  what was accepted is what was delivered, in order, followed by what is still queued. The locales
  \<open>queue_turns\<close> and \<open>queue_worker\<close> are the contract of the goroutines that empty such a queue: the loop is the run of
  its job on the queued elements, in order, and ends as the first job that does not return does.
\<close>

record 'a chan =
  chan_cap :: nat
  chan_buf :: "'a list"
  chan_closed :: bool

definition make_chan :: "nat \<Rightarrow> 'a chan" where
  "make_chan n = \<lparr>chan_cap = n, chan_buf = [], chan_closed = False\<rparr>"

definition chan_send :: "'a \<Rightarrow> 'a chan option \<Rightarrow> unit res \<times> 'a chan option" where
  "chan_send v ch =
     (case ch of
        None \<Rightarrow> (Block, None)
      | Some c \<Rightarrow>
          if chan_closed c then (Panic, ch)
          else if length (chan_buf c) < chan_cap c
          then (Ok (), Some (c\<lparr>chan_buf := chan_buf c @ [v]\<rparr>))
          else (Block, ch))"

definition chan_recv :: "'a \<Rightarrow> 'a chan option \<Rightarrow> 'a res \<times> 'a chan option" where
  "chan_recv zero ch =
     (case ch of
        None \<Rightarrow> (Block, None)
      | Some c \<Rightarrow>
          (case chan_buf c of
             v # vs \<Rightarrow> (Ok v, Some (c\<lparr>chan_buf := vs\<rparr>))
           | [] \<Rightarrow> if chan_closed c then (Ok zero, ch) else (Block, ch)))"

text \<open>\<open>select { case ch <- v: ... default: ... }\<close>: whether the element was taken.\<close>

definition chan_try_send :: "'a \<Rightarrow> 'a chan option \<Rightarrow> bool res \<times> 'a chan option" where
  "chan_try_send v ch =
     (case chan_send v ch of
        (Ok _, ch') \<Rightarrow> (Ok True, ch')
      | (Panic, ch') \<Rightarrow> (Panic, ch')
      | (_, ch') \<Rightarrow> (Ok False, ch'))"

definition chan_close :: "'a chan option \<Rightarrow> unit res \<times> 'a chan option" where
  "chan_close ch =
     (case ch of
        None \<Rightarrow> (Panic, None)
      | Some c \<Rightarrow> if chan_closed c then (Panic, ch) else (Ok (), Some (c\<lparr>chan_closed := True\<rparr>)))"

definition chan_len :: "'a chan option \<Rightarrow> nat" where
  "chan_len ch = (case ch of None \<Rightarrow> 0 | Some c \<Rightarrow> length (chan_buf c))"

section \<open>Bounded queues\<close>

datatype 'a queue_op = Push 'a | Pop

text \<open>\<open>push\<close> tells whether the element was taken, \<open>pop\<close> gives the next element where there is one.
  \<open>good\<close> is the provider's invariant, \<open>contents\<close> what is queued, \<open>fits\<close> the elements that the
  queue is for.\<close>

locale bounded_queue =
  fixes push :: "'a \<Rightarrow> 'q \<Rightarrow> bool \<times> 'q"
    and pop :: "'q \<Rightarrow> 'a option \<times> 'q"
    and contents :: "'q \<Rightarrow> 'a list"
    and cap :: "'q \<Rightarrow> nat"
    and good :: "'q \<Rightarrow> bool"
    and fits :: "'a \<Rightarrow> bool"
  assumes push_law: "\<lbrakk>good q; fits v\<rbrakk> \<Longrightarrow>
      (if length (contents q) < cap q
       then fst (push v q) \<and> contents (snd (push v q)) = contents q @ [v]
       else \<not> fst (push v q) \<and> contents (snd (push v q)) = contents q)
      \<and> good (snd (push v q)) \<and> cap (snd (push v q)) = cap q"
    and pop_law: "good q \<Longrightarrow>
      (case contents q of
         [] \<Rightarrow> fst (pop q) = None \<and> contents (snd (pop q)) = []
       | v # vs \<Rightarrow> fst (pop q) = Some v \<and> contents (snd (pop q)) = vs)
      \<and> good (snd (pop q)) \<and> cap (snd (pop q)) = cap q"
begin

text \<open>A run: the elements accepted, the elements delivered and the final queue.\<close>

fun run :: "'a queue_op list \<Rightarrow> 'q \<Rightarrow> 'a list \<times> 'a list \<times> 'q" where
  "run [] q = ([], [], q)"
| "run (Push v # ops) q =
     (case push v q of (ok, q1) \<Rightarrow> case run ops q1 of (ins, outs, q2) \<Rightarrow> (if ok then v # ins else ins, outs, q2))"
| "run (Pop # ops) q =
     (case pop q of (r, q1) \<Rightarrow> case run ops q1 of (ins, outs, q2) \<Rightarrow>
        (ins, (case r of None \<Rightarrow> outs | Some v \<Rightarrow> v # outs), q2))"

lemma fifo:
  assumes "good q" and "\<And>v. Push v \<in> set ops \<Longrightarrow> fits v" and "run ops q = (ins, outs, q')"
  shows "contents q @ ins = outs @ contents q' \<and> good q' \<and> cap q' = cap q"
  using assms
proof (induction ops arbitrary: q ins outs q')
  case (Cons oper ops)
  show ?case
  proof (cases oper)
    case (Push v)
    obtain ok q1 where p: "push v q = (ok, q1)" by (cases "push v q")
    obtain i o' q2 where r: "run ops q1 = (i, o', q2)" by (cases "run ops q1") auto
    have "good q1" "cap q1 = cap q" "contents q1 = contents q @ (if ok then [v] else [])"
      using push_law [OF Cons.prems(1), of v] Cons.prems(2) Push p by (auto split: if_splits)
    with Cons.IH [OF _ _ r] Cons.prems(2,3) Push p r show ?thesis by (auto split: if_splits)
  next
    case Pop
    obtain x q1 where p: "pop q = (x, q1)" by (cases "pop q")
    obtain i o' q2 where r: "run ops q1 = (i, o', q2)" by (cases "run ops q1") auto
    have "good q1" "cap q1 = cap q" "contents q = (case x of None \<Rightarrow> [] | Some v \<Rightarrow> [v]) @ contents q1"
      using pop_law [OF Cons.prems(1)] p by (auto split: list.splits)
    with Cons.IH [OF _ _ r] Cons.prems(2,3) Pop p r show ?thesis by (auto split: option.splits)
  qed
qed simp

lemma bounded:
  assumes "good q" and "\<And>v. Push v \<in> set ops \<Longrightarrow> fits v" and "length (contents q) \<le> cap q"
    and "run ops q = (ins, outs, q')"
  shows "length (contents q') \<le> cap q'"
  using assms
proof (induction ops arbitrary: q ins outs q')
  case (Cons oper ops)
  show ?case
  proof (cases oper)
    case (Push v)
    obtain ok q1 where p: "push v q = (ok, q1)" by (cases "push v q")
    have "good q1" "length (contents q1) \<le> cap q1"
      using push_law [OF Cons.prems(1), of v] p Cons.prems(2,3) Push by (auto split: if_splits)
    with Cons.IH [of q1] Cons.prems(2,4) Push p show ?thesis by (auto split: prod.splits)
  next
    case Pop
    obtain x q1 where p: "pop q = (x, q1)" by (cases "pop q")
    have "good q1" "length (contents q1) \<le> cap q1"
      using pop_law [OF Cons.prems(1)] p Cons.prems(3) by (auto split: list.splits)
    with Cons.IH [of q1] Cons.prems(2,4) Pop p show ?thesis by (auto split: prod.splits)
  qed
qed simp

end

text \<open>Go's buffered channels are such queues.\<close>

definition chan_push :: "'a \<Rightarrow> 'a chan \<Rightarrow> bool \<times> 'a chan" where
  "chan_push v c = (case chan_try_send v (Some c) of (r, c') \<Rightarrow> (r = Ok True, the c'))"

definition chan_pop :: "'a chan \<Rightarrow> 'a option \<times> 'a chan" where
  "chan_pop c =
     (case chan_buf c of [] \<Rightarrow> (None, c) | v # vs \<Rightarrow> (Some v, the (snd (chan_recv v (Some c)))))"

interpretation chan_queue: bounded_queue chan_push chan_pop chan_buf chan_cap "\<lambda>c. \<not> chan_closed c"
  "\<lambda>_. True"
  by unfold_locales
    (auto simp: chan_push_def chan_pop_def chan_try_send_def chan_send_def chan_recv_def
      split: list.splits)

lemma chan_buf_make [simp]: "chan_buf (make_chan n) = []"
  by (simp add: make_chan_def)

lemma chan_send_room:
  "\<lbrakk>\<not> chan_closed c; length (chan_buf c) < chan_cap c\<rbrakk> \<Longrightarrow>
    chan_send v (Some c) = (Ok (), Some (c\<lparr>chan_buf := chan_buf c @ [v]\<rparr>))"
  by (simp add: chan_send_def)

lemma chan_send_Ok:
  "chan_send v ch = (Ok u, ch') \<longleftrightarrow>
    (\<exists>c. ch = Some c \<and> \<not> chan_closed c \<and> length (chan_buf c) < chan_cap c
      \<and> ch' = Some (c\<lparr>chan_buf := chan_buf c @ [v]\<rparr>))"
  by (auto simp: chan_send_def split: option.splits)

lemma chan_send_not_Ok: "chan_send v ch = (r, ch') \<Longrightarrow> \<not> is_ok r \<Longrightarrow> ch' = ch"
  by (auto simp: chan_send_def split: option.splits if_splits)

section \<open>Workers\<close>

text \<open>The turns of a goroutine's loop, at most \<open>k\<close> of them: a turn answers \<open>True\<close> to go on and \<open>False\<close> to return; the
  outcome is \<open>Block\<close> also when the turns are used up. \<open>run_jobs\<close> is the reference for such loops: a list of jobs
  done one after the other, whatever they answer, up to the first one that panics or never returns, whose
  outcome is then the outcome of the run.\<close>

fun run_turns :: "('s \<Rightarrow> bool res \<times> 's) \<Rightarrow> nat \<Rightarrow> 's \<Rightarrow> unit res \<times> 's" where
  "run_turns turn 0 s = (Block, s)"
| "run_turns turn (Suc k) s =
     (case turn s of
        (Ok True, t) \<Rightarrow> run_turns turn k t
      | (Ok False, t) \<Rightarrow> (Ok (), t)
      | (Err e, t) \<Rightarrow> (Err e, t)
      | (Panic, t) \<Rightarrow> (Panic, t)
      | (Block, t) \<Rightarrow> (Block, t))"

fun run_jobs :: "('a \<Rightarrow> 's \<Rightarrow> unit res \<times> 's) \<Rightarrow> 'a list \<Rightarrow> 's \<Rightarrow> unit res \<times> 's" where
  "run_jobs job [] s = (Ok (), s)"
| "run_jobs job (e # es) s =
     (case job e s of
        (Panic, t) \<Rightarrow> (Panic, t)
      | (Block, t) \<Rightarrow> (Block, t)
      | (_, t) \<Rightarrow> run_jobs job es t)"

lemma run_jobs_not_Err: "fst (run_jobs job es s) \<noteq> Err e"
  by (induction es arbitrary: s) (auto split: res.split prod.split)

lemma run_jobs_map: "run_jobs job (map f es) s = run_jobs (\<lambda>e. job (f e)) es s"
proof (induction es arbitrary: s)
  case (Cons e es)
  show ?case by (cases "job (f e) s"; cases "fst (job (f e) s)") (simp_all add: Cons.IH)
qed simp

text \<open>A goroutine that takes jobs from a queue until it is closed or stops for good: a turn takes the first job,
  does it and goes on whatever the job answers, unless it panics or never returns. A job leaves the rest of the
  queue alone. The consequence: the goroutine does the jobs of the queue exactly as \<open>run_jobs\<close> does, each once and in
  order, and then returns if the queue is closed and waits if it is not.\<close>

locale queue_turns =
  fixes backlog :: "'s \<Rightarrow> 'a list"
    and closed :: "'s \<Rightarrow> bool"
    and job :: "'a \<Rightarrow> 's \<Rightarrow> unit res \<times> 's"
    and turn :: "'s \<Rightarrow> bool res \<times> 's"
    and good :: "'s \<Rightarrow> bool"
  assumes turn_job: "\<lbrakk>good s; backlog s = e # es\<rbrakk> \<Longrightarrow>
      turn s = (case job e s of (Panic, t) \<Rightarrow> (Panic, t) | (Block, t) \<Rightarrow> (Block, t) | (_, t) \<Rightarrow> (Ok True, t))"
    and job_law: "\<lbrakk>good s; backlog s = e # es; job e s = (r, t)\<rbrakk> \<Longrightarrow> backlog t = es \<and> good t \<and> closed t = closed s"
    and turn_idle: "\<lbrakk>good s; backlog s = []\<rbrakk> \<Longrightarrow> turn s = (if closed s then Ok False else Block, s)"
begin

lemma run_jobs_good:
  assumes "good s" and "run_jobs job (backlog s) s = (r, t)"
  shows "good t \<and> closed t = closed s \<and> (\<exists>k \<le> length (backlog s). backlog t = drop k (backlog s)) \<and> (r = Ok () \<longrightarrow> backlog t = [])"
  using assms
proof (induction "backlog s" arbitrary: s)
  case (Cons e es)
  obtain x u where x: "job e s = (x, u)" by (cases "job e s")
  note u = job_law [OF Cons.prems(1) Cons.hyps(2) [symmetric] x]
  show ?case
  proof (cases "x = Panic \<or> x = Block")
    case True
    then have "r = x \<and> t = u" using Cons.prems(2) x unfolding Cons.hyps(2) [symmetric] by auto
    with True u show ?thesis unfolding Cons.hyps(2) [symmetric] by (auto intro!: exI [of _ 1])
  next
    case False
    then have "run_jobs job (backlog u) u = (r, t)"
      using Cons.prems(2) x u unfolding Cons.hyps(2) [symmetric] by (cases x) simp_all
    with Cons.hyps(1) [of u] u obtain k where
        "good t \<and> closed t = closed s \<and> k \<le> length es \<and> backlog t = drop k es \<and> (r = Ok () \<longrightarrow> backlog t = [])"
      by auto
    then show ?thesis unfolding Cons.hyps(2) [symmetric] by (auto intro!: exI [of _ "Suc k"])
  qed
qed (auto)

lemma loop_runs:
  assumes "good s"
    and loop: "\<And>s. good s \<Longrightarrow> loop (Suc (length (backlog s))) s = (case turn s of
        (Ok True, t) \<Rightarrow> loop (length (backlog s)) t | (Ok False, t) \<Rightarrow> (Ok (), t) | (Err e, t) \<Rightarrow> (Err e, t)
      | (Panic, t) \<Rightarrow> (Panic, t) | (Block, t) \<Rightarrow> (Block, t))"
  shows "loop (Suc (length (backlog s))) s =
    (case run_jobs job (backlog s) s of (Ok _, t) \<Rightarrow> (if closed s then Ok () else Block, t) | (r, t) \<Rightarrow> (r, t))"
  using assms(1)
proof (induction "backlog s" arbitrary: s)
  case Nil
  then show ?case using turn_idle [of s] loop [of s] by auto
next
  case (Cons e es)
  obtain x t where x: "job e s = (x, t)" by (cases "job e s")
  note t = job_law [OF Cons.prems Cons.hyps(2) [symmetric] x]
  have step: "loop (Suc (length (backlog s))) s
      = (case x of Panic \<Rightarrow> (Panic, t) | Block \<Rightarrow> (Block, t) | _ \<Rightarrow> loop (Suc (length (backlog t))) t)"
    using loop [OF Cons.prems] turn_job [OF Cons.prems Cons.hyps(2) [symmetric]] x t
    unfolding Cons.hyps(2) [symmetric] by (simp split: res.split)
  show ?case
    unfolding step unfolding Cons.hyps(2) [symmetric] using Cons.hyps(1) [of t] t x by (cases x) simp_all
qed

lemma turns_run:
  "good s \<Longrightarrow> run_turns turn (Suc (length (backlog s))) s =
    (case run_jobs job (backlog s) s of (Ok _, t) \<Rightarrow> (if closed s then Ok () else Block, t) | (r, t) \<Rightarrow> (r, t))"
  by (rule loop_runs [where loop = "run_turns turn"]) simp_all

text \<open>Jobs that all return under an invariant leave nothing behind, and the invariant holds at the end.\<close>

lemma all_jobs_done:
  assumes "good s" and "I s"
    and "\<And>t e es. \<lbrakk>good t; I t; backlog t = e # es\<rbrakk> \<Longrightarrow>
      fst (job e t) \<noteq> Panic \<and> fst (job e t) \<noteq> Block \<and> I (snd (job e t))"
  shows "\<exists>s'. run_jobs job (backlog s) s = (Ok (), s') \<and> backlog s' = [] \<and> good s' \<and> I s'"
  using assms(1,2)
proof (induction "backlog s" arbitrary: s)
  case (Cons e es)
  obtain x t where x: "job e s = (x, t)" by (cases "job e s")
  note t = job_law [OF Cons.prems(1) Cons.hyps(2) [symmetric] x]
  have I: "x \<noteq> Panic" "x \<noteq> Block" "I t" using assms(3) [OF Cons.prems Cons.hyps(2) [symmetric]] x by simp_all
  have "\<exists>s'. run_jobs job (backlog t) t = (Ok (), s') \<and> backlog s' = [] \<and> good s' \<and> I s'"
    using t I(3) by (intro Cons.hyps(1)) auto
  with I(1,2) t x show ?case unfolding Cons.hyps(2) [symmetric] by (cases x) simp_all
qed (auto)

end

text \<open>A loop that is known to end on every state needs no bound on its turns.\<close>

locale queue_worker = queue_turns backlog closed job turn good
  for backlog :: "'s \<Rightarrow> 'a list" and closed :: "'s \<Rightarrow> bool" and job :: "'a \<Rightarrow> 's \<Rightarrow> unit res \<times> 's"
    and turn :: "'s \<Rightarrow> bool res \<times> 's" and good :: "'s \<Rightarrow> bool" +
  fixes worker :: "'s \<Rightarrow> unit res \<times> 's"
  assumes worker_turns: "worker s = (case turn s of
        (Ok True, t) \<Rightarrow> worker t
      | (Ok False, t) \<Rightarrow> (Ok (), t)
      | (Err e, t) \<Rightarrow> (Err e, t)
      | (Panic, t) \<Rightarrow> (Panic, t)
      | (Block, t) \<Rightarrow> (Block, t))"
begin

lemma worker_runs:
  "good s \<Longrightarrow> worker s =
    (case run_jobs job (backlog s) s of (Ok _, t) \<Rightarrow> (if closed s then Ok () else Block, t) | (r, t) \<Rightarrow> (r, t))"
  by (rule loop_runs [where loop = "\<lambda>_. worker"]) (simp_all add: worker_turns [symmetric])

end

end
