(* ===== verification/Acn.thy ===== *)
theory Acn
  imports AcnTypes Go_Chan
begin

text \<open>
  The ACN protocol layer, \<open>acn/utils.go\<close>: encoding, sending and receiving of registration, lookup,
  envelope and status messages over any pipe. Every function takes the codec, the pipe's methods
  and the pipe's state, and returns the new state of the pipe with its outcome. Logging is left
  out.

  The facts: what each reader does on every kind of message, that the messages of each sender are
  accepted by the matching reader over every transport that keeps the contract \<open>framed_pipe\<close>, and
  that messages without their optional parts are let through (the callers dereference them).
\<close>

section \<open>Decoding\<close>

text \<open>\<open>DecodeAcnMessage\<close> returns the type of the message with the envelope or the status body; the
  body of a status may be missing. The error is an \<open>ACNError\<close>.\<close>

definition DecodeAcnMessage ::
  "codec \<Rightarrow> bytes \<Rightarrow> err + (string \<times> AeaEnvelopePerformative option \<times> StatusBody option)" where
  "DecodeAcnMessage C buf =
     (case acn_Unmarshal C buf of
        Inl e \<Rightarrow> Inl (ACNError ERROR_DECODE e)
      | Inr response \<Rightarrow>
          (case response of
             Some (AeaEnvelope pl) \<Rightarrow> Inr (''aea_envelope'', Some pl, None)
           | Some (Status body) \<Rightarrow> Inr (''status'', None, body)
           | _ \<Rightarrow>
               Inl (ACNError ERROR_UNEXPECTED_PAYLOAD
                 (ErrMsg (''unexpected ACN Message: '' @ acn_String C response)))))"

section \<open>Waiting for an acknowledgement\<close>

text \<open>\<open>WaitForStatus\<close> on a channel as it is when the wait ends, with everything that arrived before
  the timeout: the oldest status, or the timeout. A nil channel (\<open>None\<close>) never delivers.\<close>

definition WaitForStatus ::
  "StatusBody chan option \<Rightarrow> StatusBody res \<times> StatusBody chan option" where
  "WaitForStatus ch =
     (case ch of
        None \<Rightarrow> (Err (ErrMsg ''ACN send acknowledge timeout''), ch)
      | Some c \<Rightarrow>
          (case chan_buf c of
             [] \<Rightarrow> (Err (ErrMsg ''ACN send acknowledge timeout''), ch)
           | m # ms \<Rightarrow> (Ok m, Some (c\<lparr>chan_buf := ms\<rparr>))))"

section \<open>Sending\<close>

definition SendAcnSuccess :: "codec \<Rightarrow> 'p Pipe \<Rightarrow> 'p \<Rightarrow> unit res \<times> 'p" where
  "SendAcnSuccess C P p =
     (case acn_Marshal C (Some (Status (Some \<lparr>Code = SUCCESS, Msgs = []\<rparr>))) of
        Inl e \<Rightarrow> (Err e, p)
      | Inr buf \<Rightarrow> pipe_Write P p buf)"

text \<open>\<open>err_codes\<close> is variadic: the first code given, or \<open>ERROR_GENERIC\<close>.\<close>

definition SendAcnError ::
  "codec \<Rightarrow> 'p Pipe \<Rightarrow> 'p \<Rightarrow> string \<Rightarrow> StatusCodeEnum list \<Rightarrow> unit res \<times> 'p" where
  "SendAcnError C P p error_msg err_codes =
     (let err_code = (case err_codes of [] \<Rightarrow> ERROR_GENERIC | c # _ \<Rightarrow> c) in
      case acn_Marshal C (Some (Status (Some \<lparr>Code = err_code, Msgs = [error_msg]\<rparr>))) of
        Inl e \<Rightarrow> (Err e, p)
      | Inr buf \<Rightarrow> pipe_Write P p buf)"

definition EncodeAcnEnvelope :: "codec \<Rightarrow> bytes \<Rightarrow> AgentRecord option \<Rightarrow> err + bytes" where
  "EncodeAcnEnvelope C envelope_bytes record =
     acn_Marshal C (Some (AeaEnvelope
       (case record of
          Some r \<Rightarrow> \<lparr>ape_Envelope = envelope_bytes, ape_Record = Some r\<rparr>
        | None \<Rightarrow> \<lparr>ape_Envelope = envelope_bytes, ape_Record = None\<rparr>)))"

definition SendEnvelopeMessage ::
  "codec \<Rightarrow> 'p Pipe \<Rightarrow> 'p \<Rightarrow> bytes \<Rightarrow> AgentRecord option \<Rightarrow> unit res \<times> 'p" where
  "SendEnvelopeMessage C P p envelope_bytes record =
     (case EncodeAcnEnvelope C envelope_bytes record of
        Inl e \<Rightarrow> (Err e, p)
      | Inr buf \<Rightarrow> pipe_Write P p buf)"

definition SendEnvelopeMessageAndWaitForStatus ::
  "codec \<Rightarrow> 'p Pipe \<Rightarrow> 'p \<Rightarrow> bytes \<Rightarrow> StatusBody chan option \<Rightarrow>
   unit res \<times> 'p \<times> StatusBody chan option" where
  "SendEnvelopeMessageAndWaitForStatus C P p envelope_bytes ch =
     then_do (SendEnvelopeMessage C P p envelope_bytes None)
       (\<lambda>_ p1. case WaitForStatus ch of
          (Ok status, ch1) \<Rightarrow>
            (if Code status \<noteq> SUCCESS
             then (Err (ErrMsg
               (''send envelope: acn confirmation status is not Status Success: ''
                 @ itoa_int (StatusCode_Number (Code status)))), p1, ch1)
             else (Ok (), p1, ch1))
        | (Err e, ch1) \<Rightarrow> (Err e, p1, ch1)
        | (Panic, ch1) \<Rightarrow> (Panic, p1, ch1)
        | (Block, ch1) \<Rightarrow> (Block, p1, ch1))
       (\<lambda>p1. (p1, ch))"

definition SendLookupRequest :: "codec \<Rightarrow> 'p Pipe \<Rightarrow> 'p \<Rightarrow> string \<Rightarrow> unit res \<times> 'p" where
  "SendLookupRequest C P p address =
     (case acn_Marshal C (Some (LookupRequest address)) of
        Inl e \<Rightarrow> (Err e, p)
      | Inr buf \<Rightarrow> pipe_Write P p buf)"

definition SendLookupResponse :: "codec \<Rightarrow> 'p Pipe \<Rightarrow> 'p \<Rightarrow> AgentRecord option \<Rightarrow> unit res \<times> 'p" where
  "SendLookupResponse C P p record =
     (case acn_Marshal C (Some (LookupResponse record)) of
        Inl e \<Rightarrow> (Err e, p)
      | Inr buf \<Rightarrow> pipe_Write P p buf)"

section \<open>Receiving\<close>

definition ReadAgentRegistrationMessage ::
  "codec \<Rightarrow> 'p Pipe \<Rightarrow> 'p \<Rightarrow> AgentRecord option res \<times> 'p" where
  "ReadAgentRegistrationMessage C P p =
     and_then (pipe_Read P p) (\<lambda>buf p1.
       case acn_Unmarshal C buf of
         Inl e \<Rightarrow> ignoring (SendAcnError C P p1 (Error e) [ERROR_DECODE]) (\<lambda>p2. (Err e, p2))
       | Inr (Some (Register record)) \<Rightarrow> (Ok record, p1)
       | Inr _ \<Rightarrow>
           ignoring (SendAcnError C P p1 ''Unexpected payload'' [ERROR_UNEXPECTED_PAYLOAD])
             (\<lambda>p2. (Err (ErrMsg ''Unexpected payload''), p2)))"

definition ReadLookupRequest :: "codec \<Rightarrow> 'p Pipe \<Rightarrow> 'p \<Rightarrow> string res \<times> 'p" where
  "ReadLookupRequest C P p =
     and_then (pipe_Read P p) (\<lambda>buf p1.
       case acn_Unmarshal C buf of
         Inl e \<Rightarrow> ignoring (SendAcnError C P p1 (Error e) [ERROR_DECODE]) (\<lambda>p2. (Err e, p2))
       | Inr (Some (LookupRequest address)) \<Rightarrow> (Ok address, p1)
       | Inr _ \<Rightarrow>
           ignoring (SendAcnError C P p1 ''Unexpected payload'' [ERROR_UNEXPECTED_PAYLOAD])
             (\<lambda>p2. (Err (ErrMsg ''Unexpected payload''), p2)))"

text \<open>\<open>ReadLookupResponse\<close>: a status is an error made from its body, so a status without a body is a
  nil dereference; a response may come without a record.\<close>

definition ReadLookupResponse :: "codec \<Rightarrow> 'p Pipe \<Rightarrow> 'p \<Rightarrow> AgentRecord option res \<times> 'p" where
  "ReadLookupResponse C P p =
     and_then (pipe_Read P p) (\<lambda>buf p1.
       case acn_Unmarshal C buf of
         Inl e \<Rightarrow> (Err e, p1)
       | Inr (Some (LookupResponse record)) \<Rightarrow> (Ok record, p1)
       | Inr (Some (Status body)) \<Rightarrow>
           (case body of
              None \<Rightarrow> (Panic, p1)
            | Some st \<Rightarrow>
                (Err (ErrMsg (''Failed agent lookup response '' @ StatusCode_String (Code st)
                  @ '' : '' @ Join (Msgs st) '':'')), p1))
       | Inr _ \<Rightarrow> (Err (ErrMsg ''Unexpected Acn Message''), p1))"

definition ReadAcnStatus :: "codec \<Rightarrow> 'p Pipe \<Rightarrow> 'p \<Rightarrow> StatusBody option res \<times> 'p" where
  "ReadAcnStatus C P p =
     and_then (pipe_Read P p) (\<lambda>buf p1.
       case acn_Unmarshal C buf of
         Inl e \<Rightarrow> (Err e, p1)
       | Inr (Some (Status body)) \<Rightarrow> (Ok body, p1)
       | Inr _ \<Rightarrow> (Err (ErrMsg ''Unexpected Acn Message''), p1))"

definition SendAgentRegisterMessage ::
  "codec \<Rightarrow> 'p Pipe \<Rightarrow> 'p \<Rightarrow> AgentRecord option \<Rightarrow> unit res \<times> 'p" where
  "SendAgentRegisterMessage C P p agentRecord =
     (case acn_Marshal C (Some (Register agentRecord)) of
        Inl e \<Rightarrow> (Err e, p)
      | Inr buf \<Rightarrow>
          and_then (pipe_Write P p buf) (\<lambda>_ p1.
            and_then (ReadAcnStatus C P p1) (\<lambda>status p2.
              case status of
                None \<Rightarrow> (Panic, p2)
              | Some st \<Rightarrow>
                  if Code st \<noteq> SUCCESS
                  then (Err (ErrMsg (''Registration failed: '' @ Join (Msgs st) '':'')), p2)
                  else (Ok (), p2))))"

definition ReadEnvelopeMessage :: "codec \<Rightarrow> 'p Pipe \<Rightarrow> 'p \<Rightarrow> AeaEnvelopePerformative res \<times> 'p" where
  "ReadEnvelopeMessage C P p =
     and_then (pipe_Read P p) (\<lambda>buf p1.
       case DecodeAcnMessage C buf of
         Inl acnErr \<Rightarrow>
           ignoring (SendAcnError C P p1 (Error acnErr)
               (case acnErr of ACNError code e \<Rightarrow> [code] | _ \<Rightarrow> []))
             (\<lambda>p2. (Err (case acnErr of ACNError code e \<Rightarrow> e | e \<Rightarrow> e), p2))
       | Inr (messageType, envelope, _) \<Rightarrow>
           if messageType \<noteq> ''aea_envelope''
           then (Err (ErrMsg ''unexpected payload for acn message''), p1)
           else (case envelope of None \<Rightarrow> (Panic, p1) | Some pl \<Rightarrow> (Ok pl, p1)))"

definition PerformAddressLookup ::
  "codec \<Rightarrow> 'p Pipe \<Rightarrow> 'p \<Rightarrow> string \<Rightarrow> AgentRecord option res \<times> 'p" where
  "PerformAddressLookup C P p address =
     and_then (SendLookupRequest C P p address) (\<lambda>_ p1. ReadLookupResponse C P p1)"

lemmas acn_send_defs =
  SendAcnSuccess_def SendAcnError_def SendEnvelopeMessage_def EncodeAcnEnvelope_def
  SendLookupRequest_def SendLookupResponse_def

lemmas acn_read_defs =
  ReadAgentRegistrationMessage_def ReadLookupRequest_def ReadLookupResponse_def ReadAcnStatus_def
  ReadEnvelopeMessage_def DecodeAcnMessage_def

lemma DecodeAcnMessage_envelope:
  assumes "DecodeAcnMessage C b = Inr (''aea_envelope'', Some pl, x)"
  shows "acn_Unmarshal C b = Inr (Some (AeaEnvelope pl))"
  using assms by (auto simp: DecodeAcnMessage_def split: sum.splits option.splits Performative.splits)

lemma ReadEnvelopeMessage_Ok:
  assumes "ReadEnvelopeMessage C P p = (Ok pl, p')"
  shows "\<exists>b. pipe_Read P p = (Ok b, p') \<and> acn_Unmarshal C b = Inr (Some (AeaEnvelope pl))"
proof -
  obtain b p1 where b: "pipe_Read P p = (Ok b, p1)"
    using assms by (auto simp: ReadEnvelopeMessage_def then_do_Ok)
  obtain t env x where d: "DecodeAcnMessage C b = Inr (t, env, x)"
    using assms b by (cases "DecodeAcnMessage C b") (auto simp: ReadEnvelopeMessage_def)
  have "t = ''aea_envelope''" "env = Some pl" "p' = p1"
    using assms b d by (auto simp: ReadEnvelopeMessage_def split: if_splits option.splits)
  with b d show ?thesis by (auto dest: DecodeAcnMessage_envelope)
qed

section \<open>Messages over a pipe\<close>

text \<open>What each reader returns when the frame of a message arrives, for any transport that keeps
  the contract.\<close>

context framed_pipe
begin

lemma read_message:
  assumes "codec_ok C" and "carries C m b" and "arriving p b"
  shows "\<exists>p'. pipe_Read P p = (Ok b, p') \<and> acn_Unmarshal C b = Inr (Some m) \<and> sent p' = sent p
    \<and> (writable p \<longrightarrow> writable p')"
  using assms read_frame by (fastforce simp: carries_def dest: codec_acn)

lemma send_message:
  assumes "codec_ok C" and "carries C m b" and "writable p"
  shows "\<exists>p'. pipe_Write P p b = (Ok (), p') \<and> sent p' = sent p @ frame b \<and> writable p'
    \<and> (\<forall>e. arriving p e \<longrightarrow> arriving p' e)"
proof -
  have "b \<noteq> []" "length b \<le> MaxInt32"
    using assms(1,2) max_message_le by (auto simp: carries_def dest: codec_acn_not_Nil)
  then show ?thesis using write_frame assms(3) by blast
qed

lemma register_received:
  assumes "codec_ok C" and "carries C (Register record) b" and "arriving p b"
  shows "fst (ReadAgentRegistrationMessage C P p) = Ok record"
  using read_message [OF assms] by (auto simp: acn_read_defs)

lemma lookup_request_received:
  assumes "codec_ok C" and "carries C (LookupRequest address) b" and "arriving p b"
  shows "fst (ReadLookupRequest C P p) = Ok address"
  using read_message [OF assms] by (auto simp: acn_read_defs)

lemma lookup_response_received:
  assumes "codec_ok C" and "carries C (LookupResponse record) b" and "arriving p b"
  shows "\<exists>p'. ReadLookupResponse C P p = (Ok record, p') \<and> sent p' = sent p"
  using read_message [OF assms] by (auto simp: acn_read_defs)

lemma status_received:
  assumes "codec_ok C" and "carries C (Status body) b" and "arriving p b"
  shows "\<exists>p'. ReadAcnStatus C P p = (Ok body, p') \<and> sent p' = sent p"
  using read_message [OF assms] by (auto simp: acn_read_defs)

lemma envelope_received:
  assumes "codec_ok C" and "carries C (AeaEnvelope pl) b" and "arriving p b"
  shows "\<exists>p'. ReadEnvelopeMessage C P p = (Ok pl, p') \<and> sent p' = sent p
    \<and> (writable p \<longrightarrow> writable p')"
  using read_message [OF assms] by (auto simp: acn_read_defs)

lemma lookup_exchange:
  assumes "codec_ok C" and "writable p" and "carries C (LookupRequest address) b"
    and "carries C (LookupResponse record) a" and "arriving p a"
  shows "\<exists>p'. PerformAddressLookup C P p address = (Ok record, p') \<and> sent p' = sent p @ frame b"
proof -
  obtain p1 where 1: "pipe_Write P p b = (Ok (), p1)" "sent p1 = sent p @ frame b" "arriving p1 a"
    using send_message [OF assms(1,3,2)] assms(5) by blast
  obtain p2 where "ReadLookupResponse C P p1 = (Ok record, p2)" "sent p2 = sent p1"
    using lookup_response_received [OF assms(1,4) 1(3)] by blast
  with 1 assms(3) show ?thesis
    by (auto simp: PerformAddressLookup_def SendLookupRequest_def carries_def)
qed

lemma registration_exchange:
  assumes "codec_ok C" and "writable p" and "carries C (Register record) b"
    and "carries C (Status (Some st)) a" and "arriving p a"
  shows "fst (SendAgentRegisterMessage C P p record) =
    (if Code st = SUCCESS then Ok ()
     else Err (ErrMsg (''Registration failed: '' @ Join (Msgs st) '':'')))"
proof -
  obtain p1 where 1: "pipe_Write P p b = (Ok (), p1)" "arriving p1 a"
    using send_message [OF assms(1,3,2)] assms(5) by blast
  obtain p2 where "ReadAcnStatus C P p1 = (Ok (Some st), p2)"
    using status_received [OF assms(1,4) 1(2)] by blast
  with 1 assms(3) show ?thesis
    by (auto simp: SendAgentRegisterMessage_def carries_def)
qed

end

section \<open>Properties of the exchanges\<close>

text \<open>A lookup over a stream sends exactly the frame of the request and returns the record of the response,
  in whatever pieces the response arrives.\<close>

lemma lookup_over_stream:
  assumes "codec_ok C" and "wcap c = None" and "carries C (LookupRequest address) b"
    and "carries C (LookupResponse record) a" and "concat (rx c) = frame a @ rest"
  shows "\<exists>c'. PerformAddressLookup C StreamPipe c address = (Ok record, c') \<and> tx c' = tx c @ frame b"
  using assms by (intro stream_pipe.lookup_exchange) (auto simp: stream_arriving_def)

definition ex_lookup_codec :: codec where
  "ex_lookup_codec = table_codec [(LookupRequest ''a'', [1]), (LookupResponse None, [2])] [] []"

lemma ex_lookup_codec_ok: "codec_ok ex_lookup_codec"
  unfolding ex_lookup_codec_def by (intro codec_ok_table) simp_all

lemma lookup_over_stream_witness:
  "\<exists>c'. PerformAddressLookup ex_lookup_codec StreamPipe
      (\<lparr>rx = [[0, 0], [0, 1], [2]], rx_end = None, tx = [], wcap = None\<rparr> :: conn) ''a'' = (Ok None, c')
    \<and> tx c' = [0, 0, 0, 1, 1]"
proof -
  have f: "frame [2] = [0, 0, 0, 1, 2]" "frame [1] = [0, 0, 0, 1, 1]" by (simp_all add: frame_def PutUint32_def)
  have "carries ex_lookup_codec (LookupRequest ''a'') [1]" "carries ex_lookup_codec (LookupResponse None) [2]"
    by (simp_all add: carries_def ex_lookup_codec_def table_codec_def maxMessageSizeDelegateConnection_def)
  from lookup_over_stream [OF ex_lookup_codec_ok _ this,
      of "\<lparr>rx = [[0, 0], [0, 1], [2]], rx_end = None, tx = [], wcap = None\<rparr> :: conn" "[]"]
  show ?thesis by (simp add: f)
qed

text \<open>A registration over a stream succeeds exactly when the answer's code is \<open>SUCCESS\<close>; otherwise the error
  shows the messages of the answer.\<close>

lemma registration_over_stream:
  assumes "codec_ok C" and "wcap c = None" and "carries C (Register record) b"
    and "carries C (Status (Some st)) a" and "concat (rx c) = frame a @ rest"
  shows "fst (SendAgentRegisterMessage C StreamPipe c record) =
    (if Code st = SUCCESS then Ok () else Err (ErrMsg (''Registration failed: '' @ Join (Msgs st) '':'')))"
  using assms by (intro stream_pipe.registration_exchange) (auto simp: stream_arriving_def)

definition ex_register_codec :: codec where
  "ex_register_codec =
     table_codec [(Register None, [1]), (Status (Some \<lparr>Code = ERROR_INVALID_PROOF, Msgs = [''no'']\<rparr>), [2])] [] []"

lemma registration_over_stream_witness:
  "fst (SendAgentRegisterMessage ex_register_codec StreamPipe
      (\<lparr>rx = [[0, 0, 0], [1, 2]], rx_end = None, tx = [], wcap = None\<rparr> :: conn) None)
    = Err (ErrMsg ''Registration failed: no'')"
proof -
  have f: "frame [2] = [0, 0, 0, 1, 2]" by (simp add: frame_def PutUint32_def)
  have ok: "codec_ok ex_register_codec" unfolding ex_register_codec_def by (intro codec_ok_table) simp_all
  have "carries ex_register_codec (Register None) [1]"
    "carries ex_register_codec (Status (Some \<lparr>Code = ERROR_INVALID_PROOF, Msgs = [''no'']\<rparr>)) [2]"
    by (simp_all add: carries_def ex_register_codec_def table_codec_def maxMessageSizeDelegateConnection_def)
  from registration_over_stream [OF ok _ this,
      of "\<lparr>rx = [[0, 0, 0], [1, 2]], rx_end = None, tx = [], wcap = None\<rparr> :: conn" "[]"]
  show ?thesis by (simp add: f)
qed

text \<open>A message of another kind where a lookup request is expected is answered on the same stream with
  one status frame, \<open>ERROR_UNEXPECTED_PAYLOAD\<close> and nothing else, and is an error for the caller.\<close>

lemma unexpected_payload_answered:
  assumes "codec_ok C" and "wcap c = None" and "carries C m b" and "concat (rx c) = frame b @ rest"
    and "\<forall>x. m \<noteq> LookupRequest x"
    and "carries C (Status (Some \<lparr>Code = ERROR_UNEXPECTED_PAYLOAD, Msgs = [''Unexpected payload'']\<rparr>)) a"
  shows "\<exists>c'. ReadLookupRequest C StreamPipe c = (Err (ErrMsg ''Unexpected payload''), c') \<and> tx c' = tx c @ frame a"
proof -
  have arr: "stream_arriving c b" using assms(4) by (auto simp: stream_arriving_def)
  obtain c1 where 1: "pipe_Read StreamPipe c = (Ok b, c1)" "acn_Unmarshal C b = Inr (Some m)" "tx c1 = tx c"
      "wcap c1 = None"
    using stream_pipe.read_message [OF assms(1,3) arr] assms(2) by blast
  obtain c2 where "pipe_Write StreamPipe c1 a = (Ok (), c2)" "tx c2 = tx c @ frame a"
    using stream_pipe.send_message [OF assms(1,6) 1(4)] 1(3) by auto
  with 1 assms(5,6) show ?thesis
    by (cases m) (auto simp: ReadLookupRequest_def SendAcnError_def carries_def)
qed

definition ex_unexpected_codec :: codec where
  "ex_unexpected_codec = table_codec [(Register None, [1]),
     (Status (Some \<lparr>Code = ERROR_UNEXPECTED_PAYLOAD, Msgs = [''Unexpected payload'']\<rparr>), [2])] [] []"

lemma unexpected_payload_answered_witness:
  "\<exists>c'. ReadLookupRequest ex_unexpected_codec StreamPipe
      (\<lparr>rx = [[0, 0, 0, 1, 1]], rx_end = None, tx = [], wcap = None\<rparr> :: conn)
      = (Err (ErrMsg ''Unexpected payload''), c') \<and> tx c' = [0, 0, 0, 1, 2]"
proof -
  have f: "frame [1] = [0, 0, 0, 1, 1]" "frame [2] = [0, 0, 0, 1, 2]" by (simp_all add: frame_def PutUint32_def)
  have ok: "codec_ok ex_unexpected_codec" unfolding ex_unexpected_codec_def by (intro codec_ok_table) simp_all
  have m: "carries ex_unexpected_codec (Register None) [1]"
    "carries ex_unexpected_codec (Status (Some \<lparr>Code = ERROR_UNEXPECTED_PAYLOAD, Msgs = [''Unexpected payload'']\<rparr>)) [2]"
    by (simp_all add: carries_def ex_unexpected_codec_def table_codec_def maxMessageSizeDelegateConnection_def)
  from unexpected_payload_answered [OF ok _ m(1) _ _ m(2),
      of "\<lparr>rx = [[0, 0, 0, 1, 1]], rx_end = None, tx = [], wcap = None\<rparr> :: conn" "[]"]
  show ?thesis by (simp add: f)
qed

end
