(* ===== verification/Aea.thy ===== *)
theory Aea
  imports Complex_Main Acn
begin

text \<open>
  The node's side of the agent: \<open>aea/utils.go\<close> (one ACN message from a pipe) and \<open>aea/api.go\<close> (the
  \<open>AeaApi\<close> object: configuration, the socket to the agent, its two queues and its two loops).

  \<open>HandleAcnMessageFromPipe\<close> is used by the agent's socket and by the delegate connections, so it
  takes the pipe and the status queue (\<open>acn.StatusQueue\<close>) as arguments. The loops of \<open>AeaApi\<close> are
  functions over the state that run until the goroutine returns, waits or panics; each message read
  takes something off the socket, so the listening loop ends on every finite input.

  The operating system and libraries that \<open>Init\<close> asks (environment, name resolution, a trial
  listen, decimal parsing of a float) are fields of \<open>environ\<close>. \<open>log.Fatal\<close> ends the process, as a
  panic does.
\<close>

section \<open>One message of a counterparty\<close>

definition keep_queue :: "'q \<Rightarrow> 'a res \<times> 'p \<Rightarrow> 'a res \<times> 'p \<times> 'q" where
  "keep_queue q x = (case x of (r, p) \<Rightarrow> (r, p, q))"

definition acn_codes :: "err \<Rightarrow> StatusCodeEnum list" where
  "acn_codes e = (case e of ACNError c _ \<Rightarrow> [c] | _ \<Rightarrow> [])"

text \<open>The status is read for the log before it is queued, so a status message without a body is a
  nil dereference. The result is \<open>None\<close> for a status, the envelope otherwise.\<close>

definition HandleAcnMessageFromPipe ::
  "codec \<Rightarrow> 'p Pipe \<Rightarrow> (StatusBody \<Rightarrow> string \<Rightarrow> 'q \<Rightarrow> unit res \<times> 'q) \<Rightarrow> string \<Rightarrow> 'p \<Rightarrow> 'q \<Rightarrow>
   Envelope option res \<times> 'p \<times> 'q" where
  "HandleAcnMessageFromPipe C P addAcnStatusMessage counterpartyID p q =
     (case pipe_Read P p of
        (Err e, p1) \<Rightarrow> (Err (PipeError e ''Pipe error during envelope read''), p1, q)
      | (Panic, p1) \<Rightarrow> (Panic, p1, q)
      | (Block, p1) \<Rightarrow> (Block, p1, q)
      | (Ok data, p1) \<Rightarrow>
          (case DecodeAcnMessage C data of
             Inl acnErr \<Rightarrow>
               keep_queue q (ignoring (SendAcnError C P p1 (Error acnErr) (acn_codes acnErr))
                 (\<lambda>p2. (Err acnErr, p2)))
           | Inr (msg_type, acn_envelope, status) \<Rightarrow>
               if msg_type = ''aea_envelope''
               then (case acn_envelope of
                       None \<Rightarrow> (Panic, p1, q)
                     | Some pl \<Rightarrow>
                         (case env_Unmarshal C (ape_Envelope pl) of
                            Inl e \<Rightarrow>
                              keep_queue q (ignoring
                                (SendAcnError C P p1 ''error on decoding envelope'' [ERROR_DECODE])
                                (\<lambda>p2. (Err e, p2)))
                          | Inr envelope \<Rightarrow>
                              keep_queue q (and_then (SendAcnSuccess C P p1)
                                (\<lambda>_ p2. (Ok (Some envelope), p2)))))
               else if msg_type = ''status''
               then (case status of
                       None \<Rightarrow> (Panic, p1, q)
                     | Some st \<Rightarrow>
                         (case addAcnStatusMessage st counterpartyID q of
                            (Ok _, q1) \<Rightarrow> (Ok None, p1, q1)
                          | (Err e, q1) \<Rightarrow> (Err e, p1, q1)
                          | (Panic, q1) \<Rightarrow> (Panic, p1, q1)
                          | (Block, q1) \<Rightarrow> (Block, p1, q1)))
               else keep_queue q (ignoring (SendAcnError C P p1 ''Unsupported ACN message'' [])
                      (\<lambda>p2. (Err (ErrMsg ''unsupported ACN message''), p2)))))"

section \<open>The AeaApi object\<close>

record AeaApi =
  msgin_path :: string
  msgout_path :: string
  agent_addr :: string
  agent_record :: "AgentRecord option"
  aea_id :: string
  entry_peers :: "string list"
  host :: string
  port :: "16 word"
  host_public :: string
  port_public :: "16 word"
  host_delegate :: string
  port_delegate :: "16 word"
  host_monitoring :: string
  port_monitoring :: "16 word"
  mailbox_uri :: string
  registrationDelay :: rat
  recordsStoragePath :: string
  aea_pipe :: "TCPSocketChannel option"
  out_queue :: "Envelope option chan option"
  send_queue :: "Envelope option chan option"
  aea_closing :: bool
  aea_connected :: bool
  sandbox :: bool
  standalone :: bool
  acn_status_chan :: "StatusBody chan option"

definition SendQueueSize :: nat where
  "SendQueueSize = 100"

definition OutQueueSize :: nat where
  "OutQueueSize = 100"

text \<open>\<open>AeaApi{}\<close>: the zero value.\<close>

definition AeaApi_zero :: AeaApi where
  "AeaApi_zero =
     \<lparr>msgin_path = [], msgout_path = [], agent_addr = [], agent_record = None, aea_id = [],
      entry_peers = [], host = [], port = 0, host_public = [], port_public = 0, host_delegate = [],
      port_delegate = 0, host_monitoring = [], port_monitoring = 0, mailbox_uri = [],
      registrationDelay = 0, recordsStoragePath = [], aea_pipe = None, out_queue = None,
      send_queue = None, aea_closing = False, aea_connected = False, sandbox = False,
      standalone = False, acn_status_chan = None\<rparr>"

text \<open>What the rest of the node reads of the agent: the methods return the fields. \<open>Address()\<close> and
  \<open>AgentRecord()\<close> are named \<open>aea_Address\<close> and \<open>aea_AgentRecord\<close>, beside the type of agent records.\<close>

definition MailboxUri :: "AeaApi \<Rightarrow> string" where
  [simp]: "MailboxUri aea = mailbox_uri aea"

definition AeaAddress :: "AeaApi \<Rightarrow> string" where
  [simp]: "AeaAddress aea = agent_addr aea"

definition PrivateKey :: "AeaApi \<Rightarrow> string" where
  [simp]: "PrivateKey aea = aea_id aea"

definition aea_Address :: "AeaApi \<Rightarrow> string \<times> 16 word" where
  [simp]: "aea_Address aea = (host aea, port aea)"

definition PublicAddress :: "AeaApi \<Rightarrow> string \<times> 16 word" where
  [simp]: "PublicAddress aea = (host_public aea, port_public aea)"

definition DelegateAddress :: "AeaApi \<Rightarrow> string \<times> 16 word" where
  [simp]: "DelegateAddress aea = (host_delegate aea, port_delegate aea)"

definition MonitoringAddress :: "AeaApi \<Rightarrow> string \<times> 16 word" where
  [simp]: "MonitoringAddress aea = (host_monitoring aea, port_monitoring aea)"

definition EntryPeers :: "AeaApi \<Rightarrow> string list" where
  [simp]: "EntryPeers aea = entry_peers aea"

definition aea_AgentRecord :: "AeaApi \<Rightarrow> AgentRecord option" where
  [simp]: "aea_AgentRecord aea = agent_record aea"

definition RegistrationDelayInSeconds :: "AeaApi \<Rightarrow> rat" where
  [simp]: "RegistrationDelayInSeconds aea = registrationDelay aea"

definition RecordStoragePath :: "AeaApi \<Rightarrow> string" where
  [simp]: "RecordStoragePath aea = recordsStoragePath aea"

section \<open>Configuration\<close>

record environ =
  os_Args :: "string list"
  godotenv_Overload :: "string \<Rightarrow> err option"
  os_Getenv :: "string \<Rightarrow> string"
  ResolveTCPAddr :: "string \<Rightarrow> err + string"
  ListenTCP :: "string \<Rightarrow> err option"
  ParseFloat32 :: "string \<Rightarrow> err + rat"
  net_Dial :: "err + conn"

text \<open>\<open>strings.SplitN(uri, ":", -1)\<close>, the first part and the second as a port. The error of
  \<open>strconv.ParseUint\<close> is dropped; the value that comes with it is used.\<close>

definition parse_uri :: "string \<Rightarrow> err + (string \<times> 16 word)" where
  "parse_uri uri =
     (let parts = Split (CHR '':'') uri in
      if length parts < 2 then Inl (ErrMsg (''malformed Uri '' @ uri))
      else Inr (parts ! 0, of_nat (fst (ParseUint (parts ! 1) 16))))"

text \<open>An optional address: empty means none.\<close>

definition parse_opt_uri :: "string \<Rightarrow> err + (string \<times> 16 word)" where
  "parse_opt_uri uri = (if uri \<noteq> [] then parse_uri uri else Inr ([], 0))"

text \<open>The first part of \<open>Init\<close>: the fields taken from the environment as they are.\<close>

definition load_env :: "environ \<Rightarrow> AeaApi \<Rightarrow> AeaApi" where
  "load_env E a =
     (let g = os_Getenv E;
          por = g ''AEA_P2P_POR_ADDRESS''
      in a\<lparr>aea_connected := False,
           msgin_path := g ''AEA_TO_NODE'', msgout_path := g ''NODE_TO_AEA'',
           agent_addr := g ''AEA_AGENT_ADDR'', aea_id := g ''AEA_P2P_ID'',
           agent_record :=
             (if por \<noteq> []
              then Some \<lparr>ServiceId = g ''AEA_P2P_POR_SERVICE_ID'', LedgerId = g ''AEA_P2P_POR_LEDGER_ID'',
                     Address = por, PublicKey = g ''AEA_P2P_POR_PUBKEY'',
                     PeerPublicKey = g ''AEA_P2P_POR_PEER_PUBKEY'',
                     Signature = g ''AEA_P2P_POR_SIGNATURE'', NotBefore = [], NotAfter = []\<rparr>
              else agent_record a),
           mailbox_uri := g ''AEA_P2P_MAILBOX_URI'',
           recordsStoragePath := g ''AEA_P2P_CFG_STORAGE_PATH''\<rparr>)"

text \<open>The last part: entry peers, registration delay, the pipe and the status channel.\<close>

definition Init_finish :: "environ \<Rightarrow> AeaApi \<Rightarrow> unit res \<times> AeaApi" where
  "Init_finish E a =
     (let peers = os_Getenv E ''AEA_P2P_ENTRY_URIS'';
          delay = os_Getenv E ''AEA_P2P_CFG_REGISTRATION_DELAY'';
          a1 = (if length peers > 0 then a\<lparr>entry_peers := Split (CHR '','') peers\<rparr> else a);
          fin = (\<lambda>a. (Ok (), (if \<not> standalone a
                   then a\<lparr>aea_pipe := Some (NewPipe (msgin_path a) (msgout_path a) (net_Dial E))\<rparr>
                   else a)\<lparr>acn_status_chan := Some (make_chan 1000)\<rparr>))
      in if delay = [] then fin (a1\<lparr>registrationDelay := 0\<rparr>)
         else case ParseFloat32 E delay of
           Inl e \<Rightarrow> (Err e, a1)
         | Inr d \<Rightarrow> fin (a1\<lparr>registrationDelay := d\<rparr>))"

definition Init :: "environ \<Rightarrow> AeaApi \<Rightarrow> unit res \<times> AeaApi" where
  "Init E a0 =
     (if sandbox a0 then (Ok (), a0)
      else if aea_connected a0 then (Ok (), a0)
      else case os_Args E of
        _ # env_file # _ \<Rightarrow>
          (case godotenv_Overload E env_file of
             Some _ \<Rightarrow> (Panic, a0)
           | None \<Rightarrow>
               (let a = load_env E a0; uri = os_Getenv E ''AEA_P2P_URI'' in
                if aea_id a = [] \<or> uri = []
                then (Err (ErrMsg ''couldn't get AEA configuration: key and uri are required''), a)
                else if \<not> (msgin_path a = [] \<and> msgout_path a = [] \<and> agent_addr a = []) \<and>
                        (msgin_path a = [] \<or> msgout_path a = [] \<or> agent_addr a = [])
                then (Err (ErrMsg ''couldn't get AEA configuration: pipes paths are required when agent address is provided''), a)
                else
                  let a1 = (if msgin_path a = [] \<and> msgout_path a = [] \<and> agent_addr a = []
                            then a\<lparr>standalone := True\<rparr> else a) in
                  case parse_uri uri of
                    Inl e \<Rightarrow> (Err e, a1)
                  | Inr (h, p) \<Rightarrow>
                      (let a2 = a1\<lparr>host := h, port := p\<rparr> in
                       case ResolveTCPAddr E uri of
                         Inl e \<Rightarrow> (Err e, a2)
                       | Inr addr \<Rightarrow>
                           (case ListenTCP E addr of
                              Some e \<Rightarrow> (Err e, a2)
                            | None \<Rightarrow>
                                (case parse_opt_uri (os_Getenv E ''AEA_P2P_URI_PUBLIC'') of
                                   Inl e \<Rightarrow> (Err e, a2)
                                 | Inr (h, p) \<Rightarrow>
                                     let a3 = a2\<lparr>host_public := h, port_public := p\<rparr> in
                                     (case parse_opt_uri (os_Getenv E ''AEA_P2P_DELEGATE_URI'') of
                                        Inl e \<Rightarrow> (Err e, a3)
                                      | Inr (h, p) \<Rightarrow>
                                          let a4 = a3\<lparr>host_delegate := h, port_delegate := p\<rparr> in
                                          (case parse_opt_uri (os_Getenv E ''AEA_P2P_URI_MONITORING'') of
                                             Inl e \<Rightarrow> (Err e, a4)
                                           | Inr (h, p) \<Rightarrow>
                                               Init_finish E (a4\<lparr>host_monitoring := h,
                                                 port_monitoring := p\<rparr>))))))))
      | _ \<Rightarrow> (Panic, a0))"

section \<open>Queues and connection\<close>

definition Put :: "Envelope option \<Rightarrow> AeaApi \<Rightarrow> unit res \<times> AeaApi" where
  "Put envelope a =
     (if standalone a then (Err (ErrMsg ''node running in standalone mode''), a)
      else case chan_send envelope (send_queue a) of (r, ch) \<Rightarrow> (r, a\<lparr>send_queue := ch\<rparr>))"

definition Get :: "AeaApi \<Rightarrow> Envelope option res \<times> AeaApi" where
  "Get a =
     (if standalone a then (Ok None, a)
      else case chan_recv None (out_queue a) of (r, ch) \<Rightarrow> (r, a\<lparr>out_queue := ch\<rparr>))"

definition Queue :: "AeaApi \<Rightarrow> Envelope option chan option" where
  [simp]: "Queue a = out_queue a"

definition Connected :: "AeaApi \<Rightarrow> bool" where
  "Connected a \<longleftrightarrow> aea_connected a \<or> standalone a"

text \<open>\<open>stop\<close>: the error of closing the pipe is logged; a nil pipe is a nil dereference.\<close>

definition aea_stop :: "AeaApi \<Rightarrow> unit res \<times> AeaApi" where
  "aea_stop a =
     (case aea_pipe a of
        None \<Rightarrow> (Panic, a)
      | Some p \<Rightarrow>
          (case pipe_Close SocketPipe p of
             (Panic, p1) \<Rightarrow> (Panic, a\<lparr>aea_pipe := Some p1\<rparr>)
           | (Block, p1) \<Rightarrow> (Block, a\<lparr>aea_pipe := Some p1\<rparr>)
           | (_, p1) \<Rightarrow> (Ok (), a\<lparr>aea_pipe := Some p1\<rparr>)))"

definition Stop :: "AeaApi \<Rightarrow> unit res \<times> AeaApi" where
  "Stop a =
     (case chan_send None (send_queue a) of
        (Ok _, ch) \<Rightarrow>
          and_then (aea_stop (a\<lparr>send_queue := ch, aea_closing := True\<rparr>)) (\<lambda>_ a1.
            case chan_close (out_queue a1) of
              (Ok _, oq) \<Rightarrow>
                (case chan_close (send_queue a1) of
                   (r, sq) \<Rightarrow> (r, a1\<lparr>out_queue := oq, send_queue := sq\<rparr>))
            | (r, oq) \<Rightarrow> (r, a1\<lparr>out_queue := oq\<rparr>))
      | (r, ch) \<Rightarrow> (r, a\<lparr>send_queue := ch\<rparr>))"

definition Connect :: "AeaApi \<Rightarrow> unit res \<times> AeaApi" where
  "Connect a =
     (if standalone a then (Ok (), a)
      else case aea_pipe a of
        None \<Rightarrow> (Panic, a)
      | Some p \<Rightarrow>
          (case pipe_Connect SocketPipe p of
             (Ok _, p1) \<Rightarrow>
               (Ok (), a\<lparr>aea_pipe := Some p1, aea_closing := False,
                  out_queue := Some (make_chan OutQueueSize),
                  send_queue := Some (make_chan SendQueueSize), aea_connected := True\<rparr>)
           | (r, p1) \<Rightarrow> (r, a\<lparr>aea_pipe := Some p1\<rparr>)))"

section \<open>From the agent\<close>

definition aea_AddAcnStatusMessage ::
  "StatusBody \<Rightarrow> string \<Rightarrow> StatusBody chan option \<Rightarrow> unit res \<times> StatusBody chan option" where
  "aea_AddAcnStatusMessage status counterpartyID ch = chan_send status ch"

text \<open>The loop body of \<open>listenForEnvelopes\<close>: \<open>True\<close> to go on, \<open>False\<close> when the goroutine returns.\<close>

definition listen_step :: "codec \<Rightarrow> AeaApi \<Rightarrow> bool res \<times> AeaApi" where
  "listen_step C a =
     (case aea_pipe a of
        None \<Rightarrow> (Panic, a)
      | Some p \<Rightarrow>
          (case HandleAcnMessageFromPipe C SocketPipe aea_AddAcnStatusMessage (agent_addr a) p
                  (acn_status_chan a) of
             (r, p1, ch) \<Rightarrow>
               (let a1 = a\<lparr>aea_pipe := Some p1, acn_status_chan := ch\<rparr> in
                case r of
                  Panic \<Rightarrow> (Panic, a1)
                | Block \<Rightarrow> (Block, a1)
                | Err e \<Rightarrow>
                    (if is_pipe_error e
                     then (if \<not> aea_closing a1
                           then and_then (Stop a1) (\<lambda>_ a2. (Ok False, a2))
                           else (Ok False, a1))
                     else (Ok True, a1))
                | Ok None \<Rightarrow> (Ok True, a1)
                | Ok (Some envel) \<Rightarrow>
                    (case agent_record a1 of
                       None \<Rightarrow> (Panic, a1)
                     | Some r \<Rightarrow>
                         if Sender envel \<noteq> Address r then (Ok True, a1)
                         else (case chan_send (Some envel) (out_queue a1) of
                             (Ok _, oq) \<Rightarrow>
                               (Ok (\<not> aea_closing a1), a1\<lparr>out_queue := oq\<rparr>)
                           | (Err e, oq) \<Rightarrow> (Err e, a1\<lparr>out_queue := oq\<rparr>)
                           | (Panic, oq) \<Rightarrow> (Panic, a1\<lparr>out_queue := oq\<rparr>)
                           | (Block, oq) \<Rightarrow> (Block, a1\<lparr>out_queue := oq\<rparr>))))))"

section \<open>Reading makes progress\<close>

text \<open>The contract that makes a reading loop end: \<open>m\<close> measures what is left to read; every message
  read makes it smaller, writing leaves it alone.\<close>

locale draining_pipe =
  fixes P :: "'p Pipe" and m :: "'p \<Rightarrow> nat"
  assumes read_less: "pipe_Read P p = (Ok d, p') \<Longrightarrow> m p' < m p"
    and write_same: "m (snd (pipe_Write P p d)) = m p"
begin

lemma send_error_same: "m (snd (SendAcnError C P p msg codes)) = m p"
  by (auto simp: SendAcnError_def Let_def write_same split: sum.splits)

lemma send_success_same: "m (snd (SendAcnSuccess C P p)) = m p"
  by (auto simp: SendAcnSuccess_def write_same split: sum.splits)

lemma ignoring_same:
  "m (snd x) = n \<Longrightarrow> ignoring x (\<lambda>p2. (r, p2)) = (r', p') \<Longrightarrow> m p' = n"
  by (cases x; cases "fst x") auto

lemma and_then_same:
  "m (snd x) = n \<Longrightarrow> and_then x (\<lambda>_ p2. (r, p2)) = (r', p') \<Longrightarrow> m p' = n"
  by (cases x; cases "fst x") auto

lemma handled_less:
  assumes "HandleAcnMessageFromPipe C P add cid p q = (r, p', q')" and "r \<noteq> Panic" and "r \<noteq> Block"
    and "\<And>e. r = Err e \<Longrightarrow> \<not> is_pipe_error e"
  shows "m p' < m p"
proof -
  obtain x p1 where rd: "pipe_Read P p = (x, p1)" by (cases "pipe_Read P p")
  have "is_ok x" using assms rd by (cases x) (auto simp: HandleAcnMessageFromPipe_def)
  then obtain d where d: "x = Ok d" by (auto simp: is_ok_iff)
  then have less: "m p1 < m p" using rd read_less by simp
  note ign = ignoring_same [OF send_error_same] and suc = and_then_same [OF send_success_same]
  have "m p' = m p1"
    using assms(1-3) rd d
    by (auto simp: HandleAcnMessageFromPipe_def keep_queue_def split: sum.splits if_splits
        option.splits prod.splits res.splits dest: ign suc)
  with less show ?thesis by simp
qed

end

definition conn_pending :: "'a conn_scheme \<Rightarrow> nat" where
  "conn_pending c = (\<Sum>seg \<leftarrow> rx c. Suc (length seg))"

definition sock_pending :: "TCPSocketChannel \<Rightarrow> nat" where
  "sock_pending s = (case sock_conn s of None \<Rightarrow> 0 | Some c \<Rightarrow> conn_pending c)"

lemma conn_read_pending: "conn_pending (snd (conn_read n c)) \<le> conn_pending c"
  by (cases "rx c") (auto simp: conn_read_def conn_pending_def split: option.splits)

lemma conn_read_less: "0 < n \<Longrightarrow> conn_read n c = (Ok d, c') \<Longrightarrow> conn_pending c' < conn_pending c"
  by (cases "rx c") (auto simp: conn_read_def conn_pending_def split: option.splits if_splits)

lemma conn_write_pending: "conn_pending (snd (conn_write d c)) = conn_pending c"
  by (auto simp: conn_write_def conn_pending_def split: option.splits prod.splits)

lemma conn_write_pendingD: "conn_write d c = (r, c') \<Longrightarrow> conn_pending c' = conn_pending c"
  using conn_write_pending [of d c] by simp

lemma two_reads_less:
  assumes "conn_read 4 c = (Ok h, c1)" and "conn_read n c1 = (r, c2)"
  shows "conn_pending c2 < conn_pending c"
  using conn_read_less [OF _ assms(1)] conn_read_pending [of n c1] assms(2) by simp

interpretation sock_drain: draining_pipe SocketPipe sock_pending
proof unfold_locales
  fix p d p' assume "pipe_Read SocketPipe p = (Ok d, p')"
  then show "sock_pending p' < sock_pending p"
    by (auto simp: SocketPipe_def sock_Read_def sock_pending_def two_reads_less
        split: option.splits prod.splits res.splits)
next
  fix p d show "sock_pending (snd (pipe_Write SocketPipe p d)) = sock_pending p"
    by (auto simp: SocketPipe_def sock_Write_def sock_pending_def dest: conn_write_pendingD
        split: option.splits prod.splits)
qed

interpretation conn_drain: draining_pipe ConnPipe conn_pending
proof unfold_locales
  fix p :: "'a conn_scheme" and d p' assume "pipe_Read ConnPipe p = (Ok d, p')"
  then show "conn_pending p' < conn_pending p"
    by (auto simp: ConnPipe_def ReadBytesConn_def Let_def two_reads_less
        split: prod.splits res.splits if_splits)
next
  fix p :: "'a conn_scheme" and d show "conn_pending (snd (pipe_Write ConnPipe p d)) = conn_pending p"
    by (auto simp: ConnPipe_def WriteBytesConn_def Let_def conn_write_pending)
qed

section \<open>The loops of the object\<close>

definition aea_pending :: "AeaApi \<Rightarrow> nat" where
  "aea_pending a = (case aea_pipe a of None \<Rightarrow> 0 | Some p \<Rightarrow> sock_pending p)"

lemma listen_step_less:
  assumes "listen_step C a = (Ok True, a')"
  shows "aea_pending a' < aea_pending a"
proof -
  obtain p where p: "aea_pipe a = Some p"
    using assms by (cases "aea_pipe a") (auto simp: listen_step_def)
  obtain r p1 ch where h: "HandleAcnMessageFromPipe C SocketPipe aea_AddAcnStatusMessage (agent_addr a) p
      (acn_status_chan a) = (r, p1, ch)"
    by (metis prod_cases3)
  have r: "r \<noteq> Panic" "r \<noteq> Block" "\<And>e. r = Err e \<Longrightarrow> \<not> is_pipe_error e"
    using assms p h by (auto simp: listen_step_def then_do_def Let_def split: if_splits res.splits prod.splits)
  have "aea_pipe a' = Some p1"
    using assms p h r
    by (auto simp: listen_step_def Let_def split: if_splits res.splits prod.splits option.splits)
  with sock_drain.handled_less [OF h r] p show ?thesis by (simp add: aea_pending_def)
qed

text \<open>\<open>listenForEnvelopes\<close>: the outcome is \<open>Ok\<close> when the goroutine returns.\<close>

function listenForEnvelopes :: "codec \<Rightarrow> AeaApi \<Rightarrow> unit res \<times> AeaApi" where
  "listenForEnvelopes C a =
     (case listen_step C a of
        (Ok True, a1) \<Rightarrow> listenForEnvelopes C a1
      | (Ok False, a1) \<Rightarrow> (Ok (), a1)
      | (Err e, a1) \<Rightarrow> (Err e, a1)
      | (Panic, a1) \<Rightarrow> (Panic, a1)
      | (Block, a1) \<Rightarrow> (Block, a1))"
  by pat_completeness auto
termination
  by (relation "measure (\<lambda>(C, a). aea_pending a)") (auto dest: listen_step_less [OF sym])

declare listenForEnvelopes.simps [simp del]

section \<open>To the agent\<close>

definition MakeAcnMessageFromEnvelope :: "codec \<Rightarrow> Envelope \<Rightarrow> err + bytes" where
  "MakeAcnMessageFromEnvelope C envelope =
     (case env_Marshal C envelope of
        Inl e \<Rightarrow> Inl e
      | Inr envelope_bytes \<Rightarrow> EncodeAcnEnvelope C envelope_bytes None)"

definition SendEnvelope ::
  "codec \<Rightarrow> 'p Pipe \<Rightarrow> 'p \<Rightarrow> StatusBody chan option \<Rightarrow> Envelope \<Rightarrow>
   unit res \<times> 'p \<times> StatusBody chan option" where
  "SendEnvelope C P p ch envelope =
     (case env_Marshal C envelope of
        Inl e \<Rightarrow> (Err e, p, ch)
      | Inr envelope_bytes \<Rightarrow> SendEnvelopeMessageAndWaitForStatus C P p envelope_bytes ch)"

text \<open>One turn of \<open>envelopeSendLoop\<close>. \<open>arrivals\<close> are the statuses that the listening goroutine puts
  into the status channel while this one waits; what does not fit waits in that goroutine.\<close>

definition chan_arrive :: "'a list \<Rightarrow> 'a chan option \<Rightarrow> 'a chan option" where
  "chan_arrive vs ch = map_option (\<lambda>c. c\<lparr>chan_buf := chan_buf c @ vs\<rparr>) ch"

definition send_step :: "codec \<Rightarrow> StatusBody list \<Rightarrow> AeaApi \<Rightarrow> bool res \<times> AeaApi" where
  "send_step C arrivals a =
     (case chan_recv None (send_queue a) of
        (Ok None, sq) \<Rightarrow> (Ok False, a\<lparr>send_queue := sq\<rparr>)
      | (Ok (Some envelope), sq) \<Rightarrow>
          (let a1 = a\<lparr>send_queue := sq\<rparr> in
           case aea_pipe a1 of
             None \<Rightarrow> (Panic, a1)
           | Some p \<Rightarrow>
               (case SendEnvelope C SocketPipe p (chan_arrive arrivals (acn_status_chan a1)) envelope of
                  (r, p1, ch) \<Rightarrow>
                    (let a2 = a1\<lparr>aea_pipe := Some p1, acn_status_chan := ch\<rparr> in
                     case r of
                       Panic \<Rightarrow> (Panic, a2)
                     | Block \<Rightarrow> (Block, a2)
                     | _ \<Rightarrow> (Ok (\<not> aea_closing a2), a2))))
      | (Err e, sq) \<Rightarrow> (Err e, a\<lparr>send_queue := sq\<rparr>)
      | (Panic, sq) \<Rightarrow> (Panic, a\<lparr>send_queue := sq\<rparr>)
      | (Block, sq) \<Rightarrow> (Block, a\<lparr>send_queue := sq\<rparr>))"

lemma send_step_less:
  assumes "send_step C arr a = (Ok True, a')"
  shows "chan_len (send_queue a') < chan_len (send_queue a)"
  using assms
  by (auto simp: send_step_def chan_recv_def chan_len_def Let_def
      split: option.splits list.splits if_splits prod.splits res.splits)

text \<open>\<open>envelopeSendLoop\<close>, with the statuses that arrive in each of its turns.\<close>

function envelopeSendLoop :: "codec \<Rightarrow> StatusBody list list \<Rightarrow> AeaApi \<Rightarrow> unit res \<times> AeaApi" where
  "envelopeSendLoop C arr a =
     (case send_step C (case arr of [] \<Rightarrow> [] | x # _ \<Rightarrow> x) a of
        (Ok True, a1) \<Rightarrow> envelopeSendLoop C (tl arr) a1
      | (Ok False, a1) \<Rightarrow> (Ok (), a1)
      | (Err e, a1) \<Rightarrow> (Err e, a1)
      | (Panic, a1) \<Rightarrow> (Panic, a1)
      | (Block, a1) \<Rightarrow> (Block, a1))"
  by pat_completeness auto
termination
  by (relation "measure (\<lambda>(C, arr, a). chan_len (send_queue a))") (auto dest: send_step_less [OF sym])

declare envelopeSendLoop.simps [simp del]

section \<open>Envelopes on a plain connection\<close>

text \<open>\<open>WriteEnvelopeConn\<close> and \<open>ReadEnvelopeConn\<close> of \<open>utils/utils.go\<close>.\<close>

definition WriteEnvelopeConn :: "codec \<Rightarrow> conn \<Rightarrow> Envelope \<Rightarrow> unit res \<times> conn" where
  "WriteEnvelopeConn C c envelope =
     (case env_Marshal C envelope of
        Inl e \<Rightarrow> (Err e, c)
      | Inr data \<Rightarrow> WriteBytesConn c data)"

definition ReadEnvelopeConn :: "codec \<Rightarrow> conn \<Rightarrow> Envelope res \<times> conn" where
  "ReadEnvelopeConn C c =
     and_then (ReadBytesConn c) (\<lambda>data c1. (case env_Unmarshal C data of Inl e \<Rightarrow> Err e | Inr envelope \<Rightarrow> Ok envelope, c1))"

section \<open>What the agent sends reaches the node\<close>

lemma conn_read_whole:
  assumes "rx c = frame d # segs" and "d \<noteq> []"
  shows "conn_read 4 c = (Ok (PutUint32 (of_nat (length d))), c\<lparr>rx := d # segs\<rparr>)"
    and "conn_read (length d) (c\<lparr>rx := d # segs\<rparr>) = (Ok d, c\<lparr>rx := segs\<rparr>)"
  using assms by (simp_all add: conn_read_def frame_def)

text \<open>An envelope that arrives in one piece is read as it was written; one that is marshalled to no bytes at all is not
  written.\<close>

lemma envelope_conn_roundtrip:
  assumes "codec_ok C" and "env_Marshal C e = Inr d" and "d \<noteq> []" and "length d \<le> maxMessageSizeDelegateConnection"
    and "wcap c = None" and "rx c' = frame d # segs"
  shows "WriteEnvelopeConn C c e = (Ok (), c\<lparr>tx := tx c @ frame d\<rparr>)" "ReadEnvelopeConn C c' = (Ok e, c'\<lparr>rx := segs\<rparr>)"
proof -
  have le: "length d \<le> MaxInt32" using assms(4) max_message_le by simp
  show "WriteEnvelopeConn C c e = (Ok (), c\<lparr>tx := tx c @ frame d\<rparr>)"
    using assms(2,3,5) le by (simp add: WriteEnvelopeConn_def WriteBytesConn_def conn_write_def frame_def Let_def)
  have "ReadBytesConn c' = (Ok d, c'\<lparr>rx := segs\<rparr>)"
    using conn_read_whole [OF assms(6,3)] frame_size [OF le] assms(4) by (simp add: ReadBytesConn_def fill_buf_def)
  then show "ReadEnvelopeConn C c' = (Ok e, c'\<lparr>rx := segs\<rparr>)"
    using codec_env [OF assms(1,2)] by (simp add: ReadEnvelopeConn_def)
qed

lemma envelope_conn_empty: "env_Marshal C e = Inr [] \<Longrightarrow> WriteEnvelopeConn C c e = (Ok (), c)"
  by (simp add: WriteEnvelopeConn_def WriteBytesConn_def)

lemma sock_Read_whole:
  assumes "sock_conn s = Some c" and "rx c = frame d # segs" and "d \<noteq> []" and "length d \<le> MaxInt32"
  shows "pipe_Read SocketPipe s = (Ok d, s\<lparr>sock_conn := Some (c\<lparr>rx := segs\<rparr>)\<rparr>)"
  using assms frame_size [OF assms(4)]
  by (simp add: SocketPipe_def sock_Read_def conn_read_whole [OF assms(2,3)])

lemma sock_Write_open:
  "\<lbrakk>sock_conn s = Some c; wcap c = None; length d \<le> MaxInt32\<rbrakk> \<Longrightarrow>
    pipe_Write SocketPipe s d = (Ok (), s\<lparr>sock_conn := Some (c\<lparr>tx := tx c @ frame d\<rparr>)\<rparr>)"
  by (simp add: SocketPipe_def sock_Write_def conn_write_def frame_def)

text \<open>An envelope of the agent on the wire: \<open>b\<close> is the serialised message that carries \<open>e\<close>.\<close>

definition envelope_message :: "codec \<Rightarrow> Envelope \<Rightarrow> bytes \<Rightarrow> bool" where
  "envelope_message C e b \<longleftrightarrow>
     (\<exists>pl. carries C (AeaEnvelope pl) b \<and> env_Unmarshal C (ape_Envelope pl) = Inr e)"

definition success_message :: "codec \<Rightarrow> bytes \<Rightarrow> bool" where
  "success_message C ok \<longleftrightarrow> carries C (Status (Some \<lparr>Code = SUCCESS, Msgs = []\<rparr>)) ok"

lemma handle_envelope:
  assumes "codec_ok C" and "envelope_message C e b" and "success_message C ok"
    and "sock_conn s = Some c" and "rx c = frame b # segs" and "wcap c = None"
  shows "HandleAcnMessageFromPipe C SocketPipe add cid s q
    = (Ok (Some e), s\<lparr>sock_conn := Some (c\<lparr>rx := segs, tx := tx c @ frame ok\<rparr>)\<rparr>, q)"
proof -
  obtain pl where pl: "acn_Marshal C (Some (AeaEnvelope pl)) = Inr b"
      "length b \<le> maxMessageSizeDelegateConnection" "env_Unmarshal C (ape_Envelope pl) = Inr e"
    using assms(2) by (auto simp: envelope_message_def carries_def)
  have ok: "acn_Marshal C (Some (Status (Some \<lparr>Code = SUCCESS, Msgs = []\<rparr>))) = Inr ok" "length ok \<le> MaxInt32"
    using assms(3) max_message_le by (auto simp: success_message_def carries_def)
  have b: "b \<noteq> []" "length b \<le> MaxInt32" "acn_Unmarshal C b = Inr (Some (AeaEnvelope pl))"
    using pl codec_acn_not_Nil [OF assms(1)] codec_acn [OF assms(1)] max_message_le by auto
  have "pipe_Read SocketPipe s = (Ok b, s\<lparr>sock_conn := Some (c\<lparr>rx := segs\<rparr>)\<rparr>)"
    using assms(4,5) b by (intro sock_Read_whole)
  moreover have "pipe_Write SocketPipe (s\<lparr>sock_conn := Some (c\<lparr>rx := segs\<rparr>)\<rparr>) ok
      = (Ok (), s\<lparr>sock_conn := Some (c\<lparr>rx := segs, tx := tx c @ frame ok\<rparr>)\<rparr>)"
    using sock_Write_open [of "s\<lparr>sock_conn := Some (c\<lparr>rx := segs\<rparr>)\<rparr>" "c\<lparr>rx := segs\<rparr>" ok] assms(6) ok(2)
    by simp
  ultimately show ?thesis
    using b(3) pl(3) ok(1)
    by (simp add: HandleAcnMessageFromPipe_def DecodeAcnMessage_def SendAcnSuccess_def keep_queue_def)
qed

lemma listen_step_envelope:
  assumes "codec_ok C" and "envelope_message C e b" and "success_message C ok"
    and "aea_pipe a = Some s" and "sock_conn s = Some c" and "rx c = frame b # segs" and "wcap c = None"
    and "agent_record a = Some r" and "\<not> aea_closing a"
    and "out_queue a = Some q" and "\<not> chan_closed q" and "length (chan_buf q) < chan_cap q"
  shows "listen_step C a = (Ok True,
    a\<lparr>aea_pipe := Some (s\<lparr>sock_conn := Some (c\<lparr>rx := segs, tx := tx c @ frame ok\<rparr>)\<rparr>),
      out_queue := Some (if Sender e = Address r then q\<lparr>chan_buf := chan_buf q @ [Some e]\<rparr> else q)\<rparr>)"
  using assms(4-) handle_envelope [OF assms(1-3,5-7), of aea_AddAcnStatusMessage "agent_addr a" "acn_status_chan a"]
  by (simp add: listen_step_def chan_send_room Let_def)

lemma listen_envelopes:
  assumes "codec_ok C" and "success_message C ok" and "list_all2 (envelope_message C) es bs"
    and "aea_pipe a = Some s" and "sock_conn s = Some c" and "rx c = map frame bs" and "wcap c = None"
    and "rx_end c = None" and "agent_record a = Some r" and "\<not> aea_closing a"
    and "out_queue a = Some q" and "\<not> chan_closed q" and "length (chan_buf q) + length es \<le> chan_cap q"
  shows "listenForEnvelopes C a = (Block,
    a\<lparr>aea_pipe := Some (s\<lparr>sock_conn := Some (c\<lparr>rx := [], tx := tx c @ concat (map (\<lambda>_. frame ok) es)\<rparr>)\<rparr>),
      out_queue := Some (q\<lparr>chan_buf := chan_buf q @ map Some (filter (\<lambda>e. Sender e = Address r) es)\<rparr>)\<rparr>)"
  using assms(3-)
proof (induction es bs arbitrary: a s c q rule: list_all2_induct)
  case Nil
  then show ?case
    by (simp add: listenForEnvelopes.simps listen_step_def HandleAcnMessageFromPipe_def SocketPipe_def
        sock_Read_def conn_read_def)
next
  case (Cons e es b bs)
  let ?c = "c\<lparr>rx := map frame bs, tx := tx c @ frame ok\<rparr>"
  let ?s = "s\<lparr>sock_conn := Some ?c\<rparr>"
  let ?q = "if Sender e = Address r then q\<lparr>chan_buf := chan_buf q @ [Some e]\<rparr> else q"
  let ?a = "a\<lparr>aea_pipe := Some ?s, out_queue := Some ?q\<rparr>"
  have "listen_step C a = (Ok True, ?a)"
    using Cons.prems Cons.hyps(1) assms(1,2) by (intro listen_step_envelope) simp_all
  moreover have "listenForEnvelopes C ?a = (Block,
      ?a\<lparr>aea_pipe := Some (?s\<lparr>sock_conn := Some (?c\<lparr>rx := [], tx := tx ?c @ concat (map (\<lambda>_. frame ok) es)\<rparr>)\<rparr>),
        out_queue := Some (?q\<lparr>chan_buf := chan_buf ?q @ map Some (filter (\<lambda>e. Sender e = Address r) es)\<rparr>)\<rparr>)"
    using Cons.prems by (intro Cons.IH) auto
  ultimately show ?case by (simp add: listenForEnvelopes.simps [of C a])
qed

section \<open>What the node sends reaches the agent\<close>

lemma send_step_envelope:
  assumes "codec_ok C" and "env_Marshal C e = Inr eb"
    and "carries C (AeaEnvelope \<lparr>ape_Envelope = eb, ape_Record = None\<rparr>) b"
    and "send_queue a = Some q" and "chan_buf q = Some e # es"
    and "aea_pipe a = Some s" and "sock_conn s = Some c" and "wcap c = None"
    and "acn_status_chan a = Some ch"
  shows "\<exists>ch'. send_step C arr a = (Ok (\<not> aea_closing a),
    a\<lparr>send_queue := Some (q\<lparr>chan_buf := es\<rparr>),
      aea_pipe := Some (s\<lparr>sock_conn := Some (c\<lparr>tx := tx c @ frame b\<rparr>)\<rparr>), acn_status_chan := ch'\<rparr>)"
proof -
  have b: "acn_Marshal C (Some (AeaEnvelope \<lparr>ape_Envelope = eb, ape_Record = None\<rparr>)) = Inr b" "length b \<le> MaxInt32"
    using assms(3) max_message_le by (auto simp: carries_def)
  show ?thesis
    using assms(2,4-) b
    by (auto simp: send_step_def chan_recv_def SendEnvelope_def SendEnvelopeMessageAndWaitForStatus_def
        SendEnvelopeMessage_def EncodeAcnEnvelope_def sock_Write_open WaitForStatus_def chan_arrive_def
        Let_def split: list.splits)
qed

section \<open>Configuration\<close>

text \<open>A range error of \<open>ParseUint\<close> is not seen: a port above 65535 becomes 65535, text becomes 0.\<close>

lemma parse_uri_host_port:
  assumes "CHR '':'' \<notin> set h"
  shows "parse_uri (h @ '':'' @ itoa p) = Inr (h, of_nat (min p 65535))"
  using assms
  by (simp add: parse_uri_def Split_sep Split_none itoa_no_colon ParseUint_itoa_min Let_def)

lemma parse_uri_error: "(\<exists>e. parse_uri u = Inl e) \<longleftrightarrow> CHR '':'' \<notin> set u"
proof -
  have "length (Split (CHR '':'') u) < 2 \<longleftrightarrow> CHR '':'' \<notin> set u"
    by (simp add: length_Split count_list_0_iff)
  then show ?thesis by (simp add: parse_uri_def Let_def)
qed

text \<open>The two ways to run the node: with an agent, or standalone; nothing in between is accepted.\<close>

lemma Init_Ok_finish:
  assumes "Init E a0 = (Ok (), a)" and "\<not> sandbox a0" and "\<not> aea_connected a0"
  shows "\<exists>b. Init_finish E b = (Ok (), a) \<and> aea_id (load_env E a0) \<noteq> []
    \<and> msgin_path b = msgin_path (load_env E a0) \<and> msgout_path b = msgout_path (load_env E a0)
    \<and> agent_addr b = agent_addr (load_env E a0) \<and> aea_id b = aea_id (load_env E a0)
    \<and> aea_connected b = aea_connected (load_env E a0) \<and> aea_pipe b = aea_pipe (load_env E a0)
    \<and> (if msgin_path b = [] \<and> msgout_path b = [] \<and> agent_addr b = [] then standalone b
        else msgin_path b \<noteq> [] \<and> msgout_path b \<noteq> [] \<and> agent_addr b \<noteq> []
          \<and> standalone b = standalone (load_env E a0))"
proof -
  let ?a = "load_env E a0"
  let ?none = "msgin_path ?a = [] \<and> msgout_path ?a = [] \<and> agent_addr ?a = []"
  let ?b = "if ?none then ?a\<lparr>standalone := True\<rparr> else ?a"
  have "\<exists>h p h1 p1 h2 p2 h3 p3. Init_finish E (?b\<lparr>host := h, port := p, host_public := h1, port_public := p1,
      host_delegate := h2, port_delegate := p2, host_monitoring := h3, port_monitoring := p3\<rparr>) = (Ok (), a)
    \<and> aea_id ?a \<noteq> [] \<and> (?none \<or> msgin_path ?a \<noteq> [] \<and> msgout_path ?a \<noteq> [] \<and> agent_addr ?a \<noteq> [])"
    using assms
    by (simp add: Init_def Let_def split: if_split_asm list.split_asm option.split_asm sum.split_asm prod.split_asm)
      blast+
  then obtain h p h1 p1 h2 p2 h3 p3 where
    "Init_finish E (?b\<lparr>host := h, port := p, host_public := h1, port_public := p1,
      host_delegate := h2, port_delegate := p2, host_monitoring := h3, port_monitoring := p3\<rparr>) = (Ok (), a)"
    "aea_id ?a \<noteq> []" "?none \<or> msgin_path ?a \<noteq> [] \<and> msgout_path ?a \<noteq> [] \<and> agent_addr ?a \<noteq> []"
    by blast
  then show ?thesis
    by (intro exI [of _ "?b\<lparr>host := h, port := p, host_public := h1, port_public := p1,
      host_delegate := h2, port_delegate := p2, host_monitoring := h3, port_monitoring := p3\<rparr>"]) auto
qed

lemma Init_finish_Ok:
  assumes "Init_finish E b = (Ok (), a)"
  shows "acn_status_chan a = Some (make_chan 1000) \<and> standalone a = standalone b \<and> aea_id a = aea_id b
    \<and> agent_addr a = agent_addr b \<and> aea_connected a = aea_connected b
    \<and> aea_pipe a = (if standalone b then aea_pipe b
        else Some (NewPipe (msgin_path b) (msgout_path b) (net_Dial E)))"
  using assms by (auto simp: Init_finish_def Let_def split: if_splits sum.splits)

lemma load_env_simps [simp]:
  "msgin_path (load_env E a) = os_Getenv E ''AEA_TO_NODE''"
  "msgout_path (load_env E a) = os_Getenv E ''NODE_TO_AEA''"
  "agent_addr (load_env E a) = os_Getenv E ''AEA_AGENT_ADDR''"
  "aea_id (load_env E a) = os_Getenv E ''AEA_P2P_ID''"
  "aea_connected (load_env E a) = False"
  "aea_pipe (load_env E a) = aea_pipe a"
  "standalone (load_env E a) = standalone a"
  by (simp_all add: load_env_def Let_def)

lemma AeaApi_zero_simps [simp]:
  "sandbox AeaApi_zero = False" "aea_connected AeaApi_zero = False" "aea_pipe AeaApi_zero = None"
  "standalone AeaApi_zero = False"
  by (simp_all add: AeaApi_zero_def)

lemma Init_standalone_iff:
  assumes "Init E AeaApi_zero = (Ok (), a)"
  shows "(standalone a \<longleftrightarrow> os_Getenv E ''AEA_AGENT_ADDR'' = [])
    \<and> (standalone a \<longleftrightarrow> os_Getenv E ''AEA_TO_NODE'' = [])
    \<and> (standalone a \<longleftrightarrow> os_Getenv E ''NODE_TO_AEA'' = [])
    \<and> (standalone a \<longleftrightarrow> aea_pipe a = None) \<and> acn_status_chan a = Some (make_chan 1000)
    \<and> aea_id a \<noteq> [] \<and> \<not> aea_connected a"
proof -
  obtain b where b: "Init_finish E b = (Ok (), a)" and
      eqs: "aea_id b \<noteq> []" "\<not> aea_connected b" "aea_pipe b = None"
      "standalone b \<longleftrightarrow> os_Getenv E ''AEA_AGENT_ADDR'' = []"
      "standalone b \<longleftrightarrow> os_Getenv E ''AEA_TO_NODE'' = []"
      "standalone b \<longleftrightarrow> os_Getenv E ''NODE_TO_AEA'' = []"
    using Init_Ok_finish [OF assms] by (auto split: if_splits)
  with Init_finish_Ok [OF b] show ?thesis by auto
qed

section \<open>Properties of the agent's connection\<close>

text \<open>An agent's connection with everything set up: the configuration of a connected node, the frames \<open>bs\<close> of
  the agent on the socket, room in the queue.\<close>

definition agent_connected :: "AeaApi \<Rightarrow> conn \<Rightarrow> AgentRecord \<Rightarrow> bytes list \<Rightarrow> bool" where
  "agent_connected a c r bs \<longleftrightarrow>
     (\<exists>s. aea_pipe a = Some s \<and> sock_conn s = Some c) \<and> rx c = map frame bs \<and> wcap c = None \<and> rx_end c = None
     \<and> agent_record a = Some r \<and> \<not> aea_closing a
     \<and> (\<exists>q. out_queue a = Some q \<and> \<not> chan_closed q \<and> chan_buf q = [] \<and> length bs \<le> chan_cap q)"

definition agent_queue :: "AeaApi \<Rightarrow> Envelope option list" where
  "agent_queue a = (case out_queue a of None \<Rightarrow> [] | Some q \<Rightarrow> chan_buf q)"

definition agent_tx :: "AeaApi \<Rightarrow> bytes" where
  "agent_tx a = (case aea_pipe a of None \<Rightarrow> [] | Some s \<Rightarrow> (case sock_conn s of None \<Rightarrow> [] | Some c \<Rightarrow> tx c))"

lemma agent_listens:
  assumes "codec_ok C" and "success_message C ok" and "list_all2 (envelope_message C) es bs"
    and "agent_connected a c r bs"
  shows "\<exists>a'. listenForEnvelopes C a = (Block, a')
    \<and> agent_queue a' = map Some (filter (\<lambda>e. Sender e = Address r) es)
    \<and> agent_tx a' = tx c @ concat (map (\<lambda>_. frame ok) es)"
proof -
  obtain s q where "aea_pipe a = Some s" "sock_conn s = Some c" "rx c = map frame bs" "wcap c = None"
      "rx_end c = None" "agent_record a = Some r" "\<not> aea_closing a" "out_queue a = Some q"
      "\<not> chan_closed q" and q: "chan_buf q = []" "length bs \<le> chan_cap q"
    using assms(4) by (auto simp: agent_connected_def)
  moreover have "length (chan_buf q) + length es \<le> chan_cap q"
    using q list_all2_lengthD [OF assms(3)] by simp
  ultimately show ?thesis
    using listen_envelopes [OF assms(1-3)] by (simp add: agent_queue_def agent_tx_def q(1))
qed

definition ex_env :: "string \<Rightarrow> string \<Rightarrow> Envelope" where
  "ex_env t f = \<lparr>To = t, Sender = f, ProtocolId = [], Message = [], Uri = []\<rparr>"

text \<open>A codec for one envelope, its message, a success and one more status.\<close>

definition ex_agent_codec :: codec where
  "ex_agent_codec =
     table_codec
       [(AeaEnvelope \<lparr>ape_Envelope = [1], ape_Record = None\<rparr>, [1]),
        (AeaEnvelope \<lparr>ape_Envelope = [2], ape_Record = None\<rparr>, [2]),
        (Status (Some \<lparr>Code = SUCCESS, Msgs = []\<rparr>), [3])]
       [(ex_env ''b'' ''a'', [1]), (ex_env ''b'' ''x'', [2])] []"

lemma ex_agent_codec_ok: "codec_ok ex_agent_codec"
  unfolding ex_agent_codec_def by (intro codec_ok_table) simp_all

lemma ex_agent_messages:
  "success_message ex_agent_codec [3]" "envelope_message ex_agent_codec (ex_env ''b'' ''a'') [1]"
  "envelope_message ex_agent_codec (ex_env ''b'' ''x'') [2]"
proof -
  show "success_message ex_agent_codec [3]"
    by (simp add: success_message_def carries_def ex_agent_codec_def table_codec_def maxMessageSizeDelegateConnection_def)
  show "envelope_message ex_agent_codec (ex_env ''b'' ''a'') [1]"
    unfolding envelope_message_def
    by (rule exI [of _ "\<lparr>ape_Envelope = [1], ape_Record = None\<rparr>"])
      (simp add: carries_def ex_agent_codec_def table_codec_def maxMessageSizeDelegateConnection_def)
  show "envelope_message ex_agent_codec (ex_env ''b'' ''x'') [2]"
    unfolding envelope_message_def
    by (rule exI [of _ "\<lparr>ape_Envelope = [2], ape_Record = None\<rparr>"])
      (simp add: carries_def ex_agent_codec_def table_codec_def maxMessageSizeDelegateConnection_def)
qed

definition ex_agent_record :: AgentRecord where
  "ex_agent_record = \<lparr>ServiceId = [], LedgerId = [], Address = ''a'', PublicKey = [], PeerPublicKey = [],
     Signature = [], NotBefore = [], NotAfter = []\<rparr>"

definition ex_agent_conn :: conn where
  "ex_agent_conn = \<lparr>rx = [frame [1], frame [2]], rx_end = None, tx = [], wcap = None\<rparr>"

end
