(* ===== verification/AgentSys.thy ===== *)
theory AgentSys
  imports "HOL-Library.Sublist" Aea
begin

text \<open>
  The agent's connection (\<open>aea/api.go\<close>) as a concurrent system. Four parties share one \<open>AeaApi\<close>: the listening loop,
  the sending loop, the callbacks that \<open>Put\<close> envelopes, and the loop that ranges over the queue. \<open>Aea\<close> has the two loops as
  functions that run alone; here their bodies are cut where the goroutine can wait for another one (between reading and
  queueing; between writing and waiting for the status), and the pieces run in any order, together with an agent that
  writes what it likes and may break the connection, so that a write fails or ends in the middle of a frame. \<open>listen_step_parts\<close> and \<open>send_step_parts\<close> show that the pieces are the loops.

  Histories of what was put, taken, heard and got are part of the state. The invariant relates them to the queues and to
  the bytes on the socket.
\<close>

section \<open>The pieces of the loops\<close>

datatype listen_pc = ListenReady | ListenPush Envelope | ListenEnd

datatype send_pc = SendReady | SendWait | SendEnd

definition listen_read :: "codec \<Rightarrow> AeaApi \<Rightarrow> listen_pc res \<times> AeaApi" where
  "listen_read C a =
     (case aea_pipe a of
        None \<Rightarrow> (Panic, a)
      | Some p \<Rightarrow>
          (case HandleAcnMessageFromPipe C SocketPipe aea_AddAcnStatusMessage (agent_addr a) p (acn_status_chan a) of
             (r, p1, ch) \<Rightarrow>
               (let a1 = a\<lparr>aea_pipe := Some p1, acn_status_chan := ch\<rparr> in
                case r of
                  Panic \<Rightarrow> (Panic, a1)
                | Block \<Rightarrow> (Block, a1)
                | Err e \<Rightarrow>
                    (if is_pipe_error e
                     then (if \<not> aea_closing a1
                           then and_then (Stop a1) (\<lambda>_ a2. (Ok ListenEnd, a2))
                           else (Ok ListenEnd, a1))
                     else (Ok ListenReady, a1))
                | Ok None \<Rightarrow> (Ok ListenReady, a1)
                | Ok (Some envel) \<Rightarrow>
                    (case agent_record a1 of
                       None \<Rightarrow> (Panic, a1)
                     | Some r \<Rightarrow> (Ok (if Sender envel \<noteq> Address r then ListenReady else ListenPush envel), a1)))))"

definition listen_push :: "Envelope \<Rightarrow> AeaApi \<Rightarrow> listen_pc res \<times> AeaApi" where
  "listen_push envel a =
     (case chan_send (Some envel) (out_queue a) of
        (r, oq) \<Rightarrow> (bind_res r (\<lambda>_. Ok (if aea_closing a then ListenEnd else ListenReady)), a\<lparr>out_queue := oq\<rparr>))"

definition send_take :: "codec \<Rightarrow> AeaApi \<Rightarrow> send_pc res \<times> AeaApi" where
  "send_take C a =
     (case chan_recv None (send_queue a) of
        (Ok None, sq) \<Rightarrow> (Ok SendEnd, a\<lparr>send_queue := sq\<rparr>)
      | (Ok (Some envelope), sq) \<Rightarrow>
          (let a1 = a\<lparr>send_queue := sq\<rparr>; next = (if aea_closing a1 then SendEnd else SendReady) in
           case aea_pipe a1 of
             None \<Rightarrow> (Panic, a1)
           | Some p \<Rightarrow>
               (case env_Marshal C envelope of
                  Inl e \<Rightarrow> (Ok next, a1)
                | Inr envelope_bytes \<Rightarrow>
                    (case SendEnvelopeMessage C SocketPipe p envelope_bytes None of
                       (Ok _, p1) \<Rightarrow> (Ok SendWait, a1\<lparr>aea_pipe := Some p1\<rparr>)
                     | (Err e, p1) \<Rightarrow> (Ok next, a1\<lparr>aea_pipe := Some p1\<rparr>)
                     | (Panic, p1) \<Rightarrow> (Panic, a1\<lparr>aea_pipe := Some p1\<rparr>)
                     | (Block, p1) \<Rightarrow> (Block, a1\<lparr>aea_pipe := Some p1\<rparr>))))
      | (Err e, sq) \<Rightarrow> (Err e, a\<lparr>send_queue := sq\<rparr>)
      | (Panic, sq) \<Rightarrow> (Panic, a\<lparr>send_queue := sq\<rparr>)
      | (Block, sq) \<Rightarrow> (Block, a\<lparr>send_queue := sq\<rparr>))"

definition send_wait :: "AeaApi \<Rightarrow> send_pc \<times> AeaApi" where
  "send_wait a =
     (case WaitForStatus (acn_status_chan a) of
        (r, ch) \<Rightarrow> (if aea_closing a then SendEnd else SendReady, a\<lparr>acn_status_chan := ch\<rparr>))"

lemma listen_step_parts:
  "listen_step C a =
     (case listen_read C a of
        (Ok (ListenPush e), a1) \<Rightarrow> (case listen_push e a1 of (r, a2) \<Rightarrow> (bind_res r (\<lambda>pc. Ok (pc \<noteq> ListenEnd)), a2))
      | (r, a1) \<Rightarrow> (bind_res r (\<lambda>pc. Ok (pc \<noteq> ListenEnd)), a1))"
  by (auto simp: listen_step_def listen_read_def listen_push_def then_do_def Let_def
      split: option.splits prod.splits res.splits listen_pc.splits)

lemma send_step_parts:
  "send_step C arrivals a =
     (case send_take C a of
        (Ok SendWait, a1) \<Rightarrow>
          (case send_wait (a1\<lparr>acn_status_chan := chan_arrive arrivals (acn_status_chan a1)\<rparr>) of
             (pc, a2) \<Rightarrow> (Ok (pc \<noteq> SendEnd), a2))
      | (r, a1) \<Rightarrow>
          (bind_res r (\<lambda>pc. Ok (pc \<noteq> SendEnd)),
           if (\<exists>v sq. chan_recv None (send_queue a) = (Ok (Some v), sq)) \<and> aea_pipe a \<noteq> None
           then a1\<lparr>acn_status_chan := chan_arrive arrivals (acn_status_chan a1)\<rparr> else a1))"
proof -
  obtain x sq where x: "chan_recv None (send_queue a) = (x, sq)" by (cases "chan_recv None (send_queue a)")
  show ?thesis
  proof (cases "\<exists>v p. x = Ok (Some v) \<and> aea_pipe a = Some p")
    case True
    then obtain v p where v: "x = Ok (Some v)" "aea_pipe a = Some p" by blast
    show ?thesis
    proof (cases "env_Marshal C v")
      case (Inr eb)
      obtain r p1 where "SendEnvelopeMessage C SocketPipe p eb None = (r, p1)"
        by (cases "SendEnvelopeMessage C SocketPipe p eb None")
      with x v Inr show ?thesis
        by (cases r) (simp_all add: send_step_def send_take_def send_wait_def SendEnvelope_def WaitForStatus_def Let_def
            SendEnvelopeMessageAndWaitForStatus_def split: option.split list.split)
    qed (use x v in \<open>simp add: send_step_def send_take_def SendEnvelope_def Let_def\<close>)
  next
    case False
    with x show ?thesis
      by (cases x) (auto simp: send_step_def send_take_def Let_def split: option.splits)
  qed
qed

section \<open>The system\<close>

record agent_sys =
  api :: AeaApi
  listen_at :: listen_pc
  send_at :: send_pc
  puts :: "Envelope list"
  taken :: "Envelope list"
  heard :: "bytes list"
  gots :: "Envelope list"

definition agent_start :: "AeaApi \<Rightarrow> agent_sys" where
  "agent_start a =
     \<lparr>api = a, listen_at = ListenReady, send_at = SendReady, puts = [], taken = [], heard = [], gots = []\<rparr>"

text \<open>What the next read gives, and what the next receive takes.\<close>

definition next_data :: "AeaApi \<Rightarrow> bytes list" where
  "next_data a = (case aea_pipe a of None \<Rightarrow> [] | Some p \<Rightarrow> (case pipe_Read SocketPipe p of (Ok d, p1) \<Rightarrow> [d] | _ \<Rightarrow> []))"

definition next_put :: "AeaApi \<Rightarrow> Envelope list" where
  "next_put a =
     (case send_queue a of
        None \<Rightarrow> []
      | Some q \<Rightarrow> (case chan_buf q of Some e # _ \<Rightarrow> [e] | _ \<Rightarrow> []))"

text \<open>A piece runs when it does not have to wait. The status may be waited for in vain whenever the sending loop
  waits for it. Until the node has closed the connection the agent may write more, close its end, or break the connection
  for the node's writes, now or after so many more bytes; it cannot mend it.\<close>

definition weakened :: "(nat \<times> err) option \<Rightarrow> (nat \<times> err) option \<Rightarrow> bool" where
  "weakened w w' \<longleftrightarrow>
     (case w' of None \<Rightarrow> w = None | Some (k', _) \<Rightarrow> (case w of None \<Rightarrow> True | Some (k, _) \<Rightarrow> k' \<le> k))"

inductive agent_sys_step :: "codec \<Rightarrow> agent_sys \<Rightarrow> agent_sys \<Rightarrow> bool" for C :: codec where
  sys_put: "Put (Some e) (api S) = (Ok (), a) \<Longrightarrow> agent_sys_step C S (S\<lparr>api := a, puts := puts S @ [e]\<rparr>)"
| sys_get: "Get (api S) = (Ok (Some e), a) \<Longrightarrow> agent_sys_step C S (S\<lparr>api := a, gots := gots S @ [e]\<rparr>)"
| sys_read: "\<lbrakk>listen_at S = ListenReady; listen_read C (api S) = (Ok pc, a)\<rbrakk> \<Longrightarrow>
    agent_sys_step C S (S\<lparr>api := a, listen_at := pc, heard := heard S @ next_data (api S)\<rparr>)"
| sys_push: "\<lbrakk>listen_at S = ListenPush e; listen_push e (api S) = (Ok pc, a)\<rbrakk> \<Longrightarrow>
    agent_sys_step C S (S\<lparr>api := a, listen_at := pc\<rparr>)"
| sys_take: "\<lbrakk>send_at S = SendReady; send_take C (api S) = (Ok pc, a)\<rbrakk> \<Longrightarrow>
    agent_sys_step C S (S\<lparr>api := a, send_at := pc, taken := taken S @ next_put (api S)\<rparr>)"
| sys_wait: "\<lbrakk>send_at S = SendWait; send_wait (api S) = (pc, a)\<rbrakk> \<Longrightarrow> agent_sys_step C S (S\<lparr>api := a, send_at := pc\<rparr>)"
| sys_timeout: "send_at S = SendWait \<Longrightarrow>
    agent_sys_step C S (S\<lparr>send_at := if aea_closing (api S) then SendEnd else SendReady\<rparr>)"
| sys_socket: "\<lbrakk>\<not> aea_closing (api S); aea_pipe (api S) = Some p; sock_conn p = Some c; weakened (wcap c) w\<rbrakk> \<Longrightarrow>
    agent_sys_step C S (S\<lparr>api := (api S)\<lparr>aea_pipe :=
      Some (p\<lparr>sock_conn := Some (c\<lparr>rx := segs, rx_end := e, wcap := w\<rparr>)\<rparr>)\<rparr>\<rparr>)"

inductive agent_runs :: "codec \<Rightarrow> AeaApi \<Rightarrow> agent_sys \<Rightarrow> bool" for C :: codec and a :: AeaApi where
  runs_start: "agent_runs C a (agent_start a)"
| runs_step: "\<lbrakk>agent_runs C a S; agent_sys_step C S S'\<rbrakk> \<Longrightarrow> agent_runs C a S'"

section \<open>What the agent is owed\<close>

text \<open>The answer to a message, the message for an envelope, and the envelopes of a message that the node takes over: as lists,
  empty where nothing is to be written or taken.\<close>

definition sendable :: "err + bytes \<Rightarrow> bytes list" where
  "sendable m = (case m of Inr b \<Rightarrow> if length b \<le> MaxInt32 then [b] else [] | Inl _ \<Rightarrow> [])"

definition status_answer :: "codec \<Rightarrow> StatusCodeEnum \<Rightarrow> string list \<Rightarrow> bytes list" where
  "status_answer C code msgs = sendable (acn_Marshal C (Some (Status (Some \<lparr>Code = code, Msgs = msgs\<rparr>))))"

definition answer :: "codec \<Rightarrow> bytes \<Rightarrow> bytes list" where
  "answer C d =
     (case DecodeAcnMessage C d of
        Inl e \<Rightarrow> status_answer C (case acn_codes e of [] \<Rightarrow> ERROR_GENERIC | c # _ \<Rightarrow> c) [Error e]
      | Inr (t, Some pl, st) \<Rightarrow>
          (case env_Unmarshal C (ape_Envelope pl) of
             Inl _ \<Rightarrow> status_answer C ERROR_DECODE [''error on decoding envelope'']
           | Inr e \<Rightarrow> status_answer C SUCCESS [])
      | _ \<Rightarrow> [])"

definition own :: "codec \<Rightarrow> AgentRecord \<Rightarrow> bytes \<Rightarrow> Envelope list" where
  "own C r d =
     (case DecodeAcnMessage C d of
        Inr (t, Some pl, st) \<Rightarrow>
          (case env_Unmarshal C (ape_Envelope pl) of
             Inl _ \<Rightarrow> []
           | Inr e \<Rightarrow> if Sender e = Address r \<and> status_answer C SUCCESS [] \<noteq> [] then [e] else [])
      | _ \<Rightarrow> [])"

definition envelope_for :: "codec \<Rightarrow> Envelope \<Rightarrow> bytes list" where
  "envelope_for C e = sendable (MakeAcnMessageFromEnvelope C e)"

section \<open>The socket\<close>

text \<open>The socket is broken when it takes no more bytes: the agent has broken it, or the node has closed it.\<close>

definition conn_dead :: "conn \<Rightarrow> bool" where
  "conn_dead c = (case wcap c of None \<Rightarrow> False | Some (k, _) \<Rightarrow> k = 0)"

definition socket_broken :: "AeaApi \<Rightarrow> bool" where
  "socket_broken a =
     (case aea_pipe a of None \<Rightarrow> True | Some p \<Rightarrow> (case sock_conn p of None \<Rightarrow> True | Some c \<Rightarrow> conn_dead c))"

lemma weakened_dead: "weakened w w' \<Longrightarrow> conn_dead (c\<lparr>wcap := w\<rparr>) \<Longrightarrow> conn_dead (d\<lparr>wcap := w'\<rparr>)"
  by (auto simp: weakened_def conn_dead_def split: option.splits)

lemma sock_Read_keeps:
  assumes "pipe_Read SocketPipe p = (x, p1)" and "sock_conn p = Some c"
  shows "\<exists>segs. p1 = p\<lparr>sock_conn := Some (c\<lparr>rx := segs\<rparr>)\<rparr>"
proof -
  have r: "\<exists>segs. snd (conn_read n d) = d\<lparr>rx := segs\<rparr>" for n and d :: conn
    by (auto simp: conn_read_def intro: exI [of _ "rx d"] split: list.splits option.splits)
  show ?thesis
    using assms r [of 4 c] r [of _ "c\<lparr>rx := _\<rparr>"]
    by (auto simp: SocketPipe_def sock_Read_def split: prod.splits res.splits) (metis snd_conv)+
qed

text \<open>Messages written on the socket: all of their frames, or, where there is one and the socket breaks, a part of its
  frame. A broken socket gets nothing.\<close>

definition wrote :: "bytes list \<Rightarrow> conn \<Rightarrow> conn \<Rightarrow> bool \<Rightarrow> bool" where
  "wrote ms c c' full \<longleftrightarrow>
     (if full then \<exists>w. c' = c\<lparr>tx := tx c @ concat (map frame ms), wcap := w\<rparr> \<and> (conn_dead c \<longrightarrow> ms = [] \<and> w = wcap c)
      else \<exists>m part. ms = [m] \<and> strict_prefix part (frame m) \<and> (\<exists>e. c' = c\<lparr>tx := tx c @ part, wcap := Some (0, e)\<rparr>)
             \<and> (conn_dead c \<longrightarrow> part = []))"

lemma wrote_nothing: "wrote [] c c True"
  by (auto simp: wrote_def intro!: exI [of _ "wcap c"])

lemma wrote_frame:
  assumes "conn_write (frame d) c = (y, c')"
  shows "wrote [d] c c' (y = Ok ()) \<and> y \<noteq> Panic \<and> y \<noteq> Block"
proof (cases "\<exists>k e. wcap c = Some (k, e) \<and> k < length (frame d)")
  case True
  then obtain k e where k: "wcap c = Some (k, e)" "k < length (frame d)" by blast
  have "strict_prefix (take k (frame d)) (frame d)"
    using k(2) by (simp add: strict_prefix_def take_is_prefix)
  with assms k show ?thesis by (auto simp: conn_write_def wrote_def conn_dead_def)
next
  case False
  have long: "0 < length (frame d)" by (simp add: frame_def PutUint32_def)
  have "\<exists>w. c' = c\<lparr>tx := tx c @ frame d, wcap := w\<rparr> \<and> y = Ok () \<and> \<not> conn_dead c"
  proof (cases "wcap c")
    case None
    with assms show ?thesis by (intro exI [of _ None]) (auto simp: conn_write_def conn_dead_def)
  next
    case (Some ke)
    with assms False long show ?thesis by (cases ke) (auto simp: conn_write_def conn_dead_def)
  qed
  then show ?thesis by (auto simp: wrote_def)
qed

lemma sock_wrote:
  assumes "sock_conn p = Some c" and "pipe_Write SocketPipe p d = (y, p')"
  shows "\<exists>c' full. p' = p\<lparr>sock_conn := Some c'\<rparr> \<and> wrote (sendable (Inr d)) c c' full
    \<and> (y = Ok () \<longleftrightarrow> full \<and> sendable (Inr d) \<noteq> []) \<and> y \<noteq> Panic \<and> y \<noteq> Block"
proof (cases "length d \<le> MaxInt32")
  case True
  obtain z c' where z: "conn_write (frame d) c = (z, c')" by fastforce
  then have "y = z" "p' = p\<lparr>sock_conn := Some c'\<rparr>"
    using assms True by (auto simp: SocketPipe_def sock_Write_def frame_def)
  with wrote_frame [OF z] True show ?thesis by (intro exI [of _ c'] exI [of _ "z = Ok ()"]) (simp add: sendable_def)
next
  case False
  with assms have "y \<noteq> Ok ()" "y \<noteq> Panic" "y \<noteq> Block" "p' = p\<lparr>sock_conn := Some c\<rparr>"
    by (auto simp: SocketPipe_def sock_Write_def)
  with False show ?thesis by (intro exI [of _ c] exI [of _ True]) (simp add: sendable_def wrote_nothing)
qed

lemma sock_wrote_sum:
  assumes "sock_conn p = Some c" and "(case m of Inl e \<Rightarrow> (Err e, p) | Inr b \<Rightarrow> pipe_Write SocketPipe p b) = (y, p')"
  shows "\<exists>c' full. p' = p\<lparr>sock_conn := Some c'\<rparr> \<and> wrote (sendable m) c c' full
    \<and> (y = Ok () \<longleftrightarrow> full \<and> sendable m \<noteq> []) \<and> y \<noteq> Panic \<and> y \<noteq> Block"
proof (cases m)
  case (Inl e)
  with assms show ?thesis by (intro exI [of _ c] exI [of _ True]) (auto simp: sendable_def wrote_nothing)
qed (use assms sock_wrote in auto)

lemma write_error:
  assumes "sock_conn p = Some c" and "SendAcnError C SocketPipe p msg codes = (y, p')"
  shows "\<exists>c' full. p' = p\<lparr>sock_conn := Some c'\<rparr>
    \<and> wrote (status_answer C (case codes of [] \<Rightarrow> ERROR_GENERIC | k # _ \<Rightarrow> k) [msg]) c c' full \<and> y \<noteq> Panic \<and> y \<noteq> Block"
  using assms sock_wrote_sum [OF assms(1)] unfolding SendAcnError_def status_answer_def Let_def by metis

lemma write_success:
  assumes "sock_conn p = Some c" and "SendAcnSuccess C SocketPipe p = (y, p')"
  shows "\<exists>c' full. p' = p\<lparr>sock_conn := Some c'\<rparr> \<and> wrote (status_answer C SUCCESS []) c c' full
    \<and> (y = Ok () \<longleftrightarrow> full \<and> status_answer C SUCCESS [] \<noteq> []) \<and> y \<noteq> Panic \<and> y \<noteq> Block"
  using assms sock_wrote_sum [OF assms(1)] unfolding SendAcnSuccess_def status_answer_def by metis

lemma ignoring_Err_eq: "x \<noteq> Panic \<Longrightarrow> x \<noteq> Block \<Longrightarrow> ignoring (x, p) (\<lambda>q. (Err e, q)) = (Err e, p)"
  by (cases x) simp_all

text \<open>One message on the socket: the answer is written, and an envelope comes out exactly where its answer was written
  and the node takes it over or refuses its sender.\<close>

definition accepted :: "AgentRecord \<Rightarrow> Envelope option res \<Rightarrow> Envelope list" where
  "accepted r x = (case x of Ok (Some e) \<Rightarrow> if Sender e = Address r then [e] else [] | _ \<Rightarrow> [])"

lemma handle_wrote:
  assumes "pipe_Read SocketPipe p = (Ok d, p1)" and "sock_conn p1 = Some c"
    and "HandleAcnMessageFromPipe C SocketPipe add cid p q = (x, p2, q')" and "x \<noteq> Panic" and "x \<noteq> Block"
  shows "\<exists>c' full. p2 = p1\<lparr>sock_conn := Some c'\<rparr> \<and> wrote (answer C d) c c' full
    \<and> accepted r x = (if full then own C r d else [])"
proof (cases "DecodeAcnMessage C d")
  case (Inl e)
  obtain y p' where y: "SendAcnError C SocketPipe p1 (Error e) (acn_codes e) = (y, p')" by fastforce
  obtain c' full where c': "p' = p1\<lparr>sock_conn := Some c'\<rparr>" "wrote (answer C d) c c' full" "y \<noteq> Panic" "y \<noteq> Block"
    using write_error [OF assms(2) y] Inl by (auto simp: answer_def)
  with assms(1,3) Inl y show ?thesis
    by (intro exI [of _ c'] exI [of _ full])
      (auto simp: HandleAcnMessageFromPipe_def keep_queue_def ignoring_Err_eq own_def accepted_def)
next
  case (Inr m)
  then consider (envelope) pl where "m = (''aea_envelope'', Some pl, None)" | (status) st where "m = (''status'', None, st)"
    by (auto simp: DecodeAcnMessage_def split: sum.splits option.splits Performative.splits)
  then show ?thesis
  proof cases
    case envelope
    show ?thesis
    proof (cases "env_Unmarshal C (ape_Envelope pl)")
      case (Inl e)
      obtain y p' where y: "SendAcnError C SocketPipe p1 ''error on decoding envelope'' [ERROR_DECODE] = (y, p')" by fastforce
      obtain c' full where c': "p' = p1\<lparr>sock_conn := Some c'\<rparr>" "wrote (answer C d) c c' full" "y \<noteq> Panic" "y \<noteq> Block"
        using write_error [OF assms(2) y] Inr Inl envelope by (auto simp: answer_def)
      with assms(1,3) Inr Inl envelope y show ?thesis
        by (intro exI [of _ c'] exI [of _ full])
          (auto simp: HandleAcnMessageFromPipe_def keep_queue_def ignoring_Err_eq own_def accepted_def)
    next
      case e: (Inr e)
      obtain y p' where y: "SendAcnSuccess C SocketPipe p1 = (y, p')" by fastforce
      obtain c' full where c': "p' = p1\<lparr>sock_conn := Some c'\<rparr>" "wrote (answer C d) c c' full"
          "y = Ok () \<longleftrightarrow> full \<and> status_answer C SUCCESS [] \<noteq> []"
        using write_success [OF assms(2) y] Inr e envelope by (auto simp: answer_def)
      with assms(1,3) Inr e envelope y show ?thesis
        by (intro exI [of _ c'] exI [of _ full], cases y)
          (auto simp: HandleAcnMessageFromPipe_def keep_queue_def own_def accepted_def)
    qed
  next
    case status
    then have "answer C d = []" "own C r d = []" using Inr by (simp_all add: answer_def own_def)
    moreover have "p2 = p1" "accepted r x = []"
      using assms(1,3-5) Inr status
      by (auto simp: HandleAcnMessageFromPipe_def accepted_def split: option.splits prod.splits res.splits)
    ultimately show ?thesis
      using assms(2) by (intro exI [of _ c] exI [of _ True]) (simp add: wrote_nothing)
  qed
qed

lemma unanswered: "answer C d = [] \<Longrightarrow> own C r d = []"
  by (auto simp: answer_def own_def split: sum.splits option.splits prod.splits)

section \<open>The invariant\<close>

lemma shuffles_append:
  assumes "ws \<in> shuffles xs ys"
  shows "ws @ zs \<in> shuffles (xs @ zs) ys" and "ws @ zs \<in> shuffles xs (ys @ zs)"
proof -
  have left: "us @ zs \<in> shuffles (xs @ zs) ys" if "us \<in> shuffles xs ys" for us xs ys :: "'a list"
    using that
  proof (induction us arbitrary: xs ys)
    case (Cons u us)
    from Cons.prems consider (fst) xs' where "xs = u # xs'" "us \<in> shuffles xs' ys"
      | (snd) ys' where "ys = u # ys'" "us \<in> shuffles xs ys'"
      by (cases xs; cases ys) (auto simp: Cons_in_shuffles_iff)
    then show ?case
      by cases (auto intro: Cons_in_shuffles_leftI Cons_in_shuffles_rightI Cons.IH)
  qed simp
  from left [OF assms] show "ws @ zs \<in> shuffles (xs @ zs) ys" .
  from left [of ws ys xs] assms show "ws @ zs \<in> shuffles xs (ys @ zs)" by (simp add: shuffles_commutes)
qed

text \<open>The part of a frame that a broken socket has taken belongs to a message that is lost.\<close>

definition torn :: "codec \<Rightarrow> bytes list \<Rightarrow> Envelope list \<Rightarrow> bytes \<Rightarrow> bool" where
  "torn C lost unsent part \<longleftrightarrow>
     part = [] \<or> (\<exists>m \<in> set (concat (map (answer C) lost) @ concat (map (envelope_for C) unsent)). strict_prefix part (frame m))"

lemma torn_more: "torn C lost unsent part \<Longrightarrow> torn C (lost @ ds) (unsent @ es) part"
  by (auto simp: torn_def)

text \<open>What is written; what is heard; what is put. The messages in \<open>dones\<close> are those whose answers were written in full.\<close>

definition written :: "codec \<Rightarrow> bytes \<Rightarrow> bytes list \<Rightarrow> bytes list \<Rightarrow> Envelope list \<Rightarrow> conn \<Rightarrow> bool" where
  "written C t dones hs ts c \<longleftrightarrow>
     (\<exists>lost sent unsent ws part. hs = dones @ lost \<and> ts = sent @ unsent
       \<and> tx c = t @ concat (map frame ws) @ part \<and> torn C lost unsent part
       \<and> (\<not> conn_dead c \<longrightarrow> lost = [] \<and> unsent = [] \<and> part = [])
       \<and> ws \<in> shuffles (concat (map (answer C) dones)) (concat (map (envelope_for C) sent)))"

lemma written_dead:
  assumes "written C t dones hs ts c" and "conn_dead c'" and "tx c' = tx c"
  shows "written C t dones (hs @ ds) (ts @ es) c'"
proof -
  obtain lost sent unsent ws part where w: "hs = dones @ lost" "ts = sent @ unsent"
      "tx c = t @ concat (map frame ws) @ part" "torn C lost unsent part"
      "ws \<in> shuffles (concat (map (answer C) dones)) (concat (map (envelope_for C) sent))"
    using assms(1) unfolding written_def by blast
  with assms(2,3) torn_more [OF w(4)] show ?thesis unfolding written_def
    by (intro exI [of _ "lost @ ds"] exI [of _ sent] exI [of _ "unsent @ es"] exI [of _ ws] exI [of _ part]) simp
qed

text \<open>The frames of new messages, all written: they end the interleaving. One of them torn: the rest of the story.\<close>

lemma written_full:
  assumes "written C t dones hs ts c" and "\<not> conn_dead c"
    and "c' = c\<lparr>tx := tx c @ concat (map frame (concat (map (answer C) ds) @ concat (map (envelope_for C) es))), wcap := w\<rparr>"
    and "ds = [] \<or> es = []"
  shows "written C t (dones @ ds) (hs @ ds) (ts @ es) c'"
proof -
  obtain ws where w: "hs = dones" "tx c = t @ concat (map frame ws)"
      "ws \<in> shuffles (concat (map (answer C) dones)) (concat (map (envelope_for C) ts))"
    using assms(1,2) by (auto simp: written_def)
  let ?ws = "ws @ concat (map (answer C) ds) @ concat (map (envelope_for C) es)"
  have "?ws \<in> shuffles (concat (map (answer C) (dones @ ds))) (concat (map (envelope_for C) (ts @ es)))"
    using shuffles_append(1) [OF w(3), of "concat (map (answer C) ds)"]
      shuffles_append(2) [OF w(3), of "concat (map (envelope_for C) es)"] assms(4) by auto
  with w(1,2) assms(3) show ?thesis unfolding written_def
    by (intro exI [of _ "[]"] exI [of _ "ts @ es"] exI [of _ ?ws]) (simp add: torn_def)
qed

lemma written_torn:
  assumes "written C t dones hs ts c" and "\<not> conn_dead c" and "c' = c\<lparr>tx := tx c @ part, wcap := Some (0, e)\<rparr>"
    and "strict_prefix part (frame m)"
    and "m \<in> set (concat (map (answer C) ds) @ concat (map (envelope_for C) es))"
  shows "written C t dones (hs @ ds) (ts @ es) c'"
proof -
  obtain ws where w: "hs = dones" "tx c = t @ concat (map frame ws)"
      "ws \<in> shuffles (concat (map (answer C) dones)) (concat (map (envelope_for C) ts))"
    using assms(1,2) by (auto simp: written_def)
  have "torn C ds es part" using assms(4,5) unfolding torn_def by blast
  with w assms(3) show ?thesis unfolding written_def
    by (intro exI [of _ ds] exI [of _ ts] exI [of _ es] exI [of _ ws] exI [of _ part]) (simp add: conn_dead_def)
qed

lemma written_wrote:
  assumes "written C t dones hs ts c" and "ds = [] \<or> es = []"
    and "wrote (concat (map (answer C) ds) @ concat (map (envelope_for C) es)) c c' full"
  shows "written C t (if full \<and> \<not> conn_dead c then dones @ ds else dones) (hs @ ds) (ts @ es) c'"
proof (cases full)
  case True
  then obtain w where w: "c' = c\<lparr>tx := tx c @ concat (map frame (concat (map (answer C) ds) @ concat (map (envelope_for C) es))),
      wcap := w\<rparr>" "conn_dead c \<longrightarrow> concat (map (answer C) ds) @ concat (map (envelope_for C) es) = [] \<and> w = wcap c"
    using assms(3) unfolding wrote_def by auto
  show ?thesis
  proof (cases "conn_dead c")
    case dead: True
    with w have "tx c' = tx c" "conn_dead c'" by (auto simp: conn_dead_def)
    with True dead written_dead [OF assms(1)] show ?thesis by simp
  next
    case False
    with True written_full [OF assms(1) False w(1) assms(2)] show ?thesis by simp
  qed
next
  case False
  then obtain m part e where m: "concat (map (answer C) ds) @ concat (map (envelope_for C) es) = [m]" "strict_prefix part (frame m)"
      "c' = c\<lparr>tx := tx c @ part, wcap := Some (0, e)\<rparr>" "conn_dead c \<longrightarrow> part = []"
    using assms(3) unfolding wrote_def by auto
  show ?thesis
  proof (cases "conn_dead c")
    case True
    with m have "tx c' = tx c" "conn_dead c'" by (auto simp: conn_dead_def)
    with False written_dead [OF assms(1)] show ?thesis by simp
  next
    case alive: False
    show ?thesis using False written_torn [OF assms(1) alive m(3,2), of ds es] m(1) by simp
  qed
qed

definition written_ok :: "codec \<Rightarrow> bytes \<Rightarrow> bytes list \<Rightarrow> agent_sys \<Rightarrow> bool" where
  "written_ok C t dones S \<longleftrightarrow>
     (\<exists>p c. aea_pipe (api S) = Some p \<and> sock_conn p = Some c \<and> written C t dones (heard S) (taken S) c
       \<and> (aea_closing (api S) \<longrightarrow> conn_dead c))"

definition pushing :: "agent_sys \<Rightarrow> Envelope list" where
  "pushing S = (case listen_at S of ListenPush e \<Rightarrow> [e] | _ \<Rightarrow> [])"

definition heard_ok :: "codec \<Rightarrow> AgentRecord \<Rightarrow> bytes list \<Rightarrow> agent_sys \<Rightarrow> bool" where
  "heard_ok C r dones S \<longleftrightarrow>
     (\<exists>q es. out_queue (api S) = Some q \<and> chan_buf q = map Some es
       \<and> gots S @ es @ pushing S = concat (map (own C r) dones))"

definition put_ok :: "agent_sys \<Rightarrow> bool" where
  "put_ok S \<longleftrightarrow>
     (\<exists>q es ys. send_queue (api S) = Some q \<and> chan_buf q = map Some es @ ys \<and> chan_closed q = aea_closing (api S)
       \<and> puts S = taken S @ es \<and> (ys = [] \<or> ys = [None] \<and> aea_closing (api S)))"

definition agent_sys_inv :: "codec \<Rightarrow> AgentRecord \<Rightarrow> bytes \<Rightarrow> bytes list \<Rightarrow> agent_sys \<Rightarrow> bool" where
  "agent_sys_inv C r t dones S \<longleftrightarrow>
     agent_record (api S) = Some r \<and> \<not> standalone (api S) \<and> (aea_closing (api S) \<longrightarrow> listen_at S = ListenEnd)
     \<and> written_ok C t dones S \<and> heard_ok C r dones S \<and> put_ok S"

lemma inv_put:
  assumes "agent_sys_inv C r t dones S" and "Put (Some e) (api S) = (Ok (), a)"
  shows "agent_sys_inv C r t dones (S\<lparr>api := a, puts := puts S @ [e]\<rparr>)"
proof -
  obtain q es ys where q: "send_queue (api S) = Some q" "chan_buf q = map Some es @ ys" "chan_closed q = aea_closing (api S)"
      "puts S = taken S @ es" "ys = [] \<or> ys = [None] \<and> aea_closing (api S)" and st: "\<not> standalone (api S)"
    using assms(1) by (auto simp: agent_sys_inv_def put_ok_def)
  have a: "a = (api S)\<lparr>send_queue := Some (q\<lparr>chan_buf := chan_buf q @ [Some e]\<rparr>)\<rparr>" "\<not> chan_closed q"
    using assms(2) q(1) st by (auto simp: Put_def chan_send_def split: if_splits)
  have "put_ok (S\<lparr>api := a, puts := puts S @ [e]\<rparr>)"
    using q a(2) unfolding put_ok_def a(1) by (intro exI [of _ "q\<lparr>chan_buf := chan_buf q @ [Some e]\<rparr>"] exI [of _ "es @ [e]"]) auto
  with assms(1) show ?thesis unfolding a(1) by (simp add: agent_sys_inv_def written_ok_def heard_ok_def pushing_def)
qed

lemma inv_get:
  assumes "agent_sys_inv C r t dones S" and "Get (api S) = (Ok (Some e), a)"
  shows "agent_sys_inv C r t dones (S\<lparr>api := a, gots := gots S @ [e]\<rparr>)"
proof -
  obtain q es where q: "out_queue (api S) = Some q" "chan_buf q = map Some es"
      "gots S @ es @ pushing S = concat (map (own C r) dones)" and st: "\<not> standalone (api S)"
    using assms(1) by (auto simp: agent_sys_inv_def heard_ok_def)
  obtain vs where a: "a = (api S)\<lparr>out_queue := Some (q\<lparr>chan_buf := map Some vs\<rparr>)\<rparr>" "es = e # vs"
    using assms(2) q(1,2) st by (auto simp: Get_def chan_recv_def split: list.splits if_splits)
  have "heard_ok C r dones (S\<lparr>api := a, gots := gots S @ [e]\<rparr>)"
    using q(3) unfolding heard_ok_def a by (intro exI [of _ "q\<lparr>chan_buf := map Some vs\<rparr>"] exI [of _ vs]) (simp add: pushing_def)
  with assms(1) show ?thesis unfolding a(1) by (simp add: agent_sys_inv_def written_ok_def put_ok_def)
qed

lemma inv_push:
  assumes "agent_sys_inv C r t dones S" and "listen_at S = ListenPush e" and "listen_push e (api S) = (Ok pc, a)"
  shows "agent_sys_inv C r t dones (S\<lparr>api := a, listen_at := pc\<rparr>)"
proof -
  obtain q es where q: "out_queue (api S) = Some q" "chan_buf q = map Some es"
      "gots S @ es @ [e] = concat (map (own C r) dones)"
    using assms(1,2) by (auto simp: agent_sys_inv_def heard_ok_def pushing_def)
  have open': "\<not> aea_closing (api S)" using assms(1,2) by (auto simp: agent_sys_inv_def)
  have a: "a = (api S)\<lparr>out_queue := Some (q\<lparr>chan_buf := chan_buf q @ [Some e]\<rparr>)\<rparr>" "pc = ListenReady"
    using assms(3) q(1) open' by (auto simp: listen_push_def chan_send_def split: if_splits)
  have "heard_ok C r dones (S\<lparr>api := a, listen_at := pc\<rparr>)"
    using q(2,3) unfolding heard_ok_def a
    by (intro exI [of _ "q\<lparr>chan_buf := chan_buf q @ [Some e]\<rparr>"] exI [of _ "es @ [e]"]) (simp add: pushing_def)
  with assms(1) open' show ?thesis unfolding a(1) by (simp add: agent_sys_inv_def written_ok_def put_ok_def)
qed

text \<open>Reading. \<open>Stop\<close> closes the socket and both queues, and leaves a nil behind what was put.\<close>

lemma Stop_effect:
  assumes "Stop a = (Ok (), b)" and "aea_pipe a = Some p" and "sock_conn p = Some c"
    and "send_queue a = Some sq" and "out_queue a = Some oq"
  shows "b = a\<lparr>send_queue := Some (sq\<lparr>chan_buf := chan_buf sq @ [None], chan_closed := True\<rparr>), aea_closing := True,
    aea_pipe := Some (p\<lparr>sock_conn := Some (conn_close c)\<rparr>), out_queue := Some (oq\<lparr>chan_closed := True\<rparr>)\<rparr>"
  using assms by (auto simp: Stop_def chan_send_def aea_stop_def SocketPipe_def sock_Close_def chan_close_def split: if_splits)

lemma stopped_ok:
  assumes "agent_sys_inv C r t dones (S\<lparr>api := a\<rparr>)" and "listen_at S = ListenReady" and "Stop a = (Ok (), b)"
  shows "agent_sys_inv C r t dones (S\<lparr>api := b, listen_at := ListenEnd\<rparr>)"
proof -
  let ?T = "S\<lparr>api := b, listen_at := ListenEnd\<rparr>"
  have open': "\<not> aea_closing a" using assms(1,2) by (auto simp: agent_sys_inv_def)
  obtain p c where p: "aea_pipe a = Some p" "sock_conn p = Some c" "written C t dones (heard S) (taken S) c"
    using assms(1) by (auto simp: agent_sys_inv_def written_ok_def)
  obtain sq es where sq: "send_queue a = Some sq" "chan_buf sq = map Some es" "puts S = taken S @ es"
    using assms(1) open' by (auto simp: agent_sys_inv_def put_ok_def)
  obtain oq es' where oq: "out_queue a = Some oq" "chan_buf oq = map Some es'"
      "gots S @ es' = concat (map (own C r) dones)"
    using assms(1,2) by (auto simp: agent_sys_inv_def heard_ok_def pushing_def)
  note b = Stop_effect [OF assms(3) p(1,2) sq(1) oq(1)]
  have "conn_dead (conn_close c)" "tx (conn_close c) = tx c" by (simp_all add: conn_dead_def conn_close_def)
  with written_dead [OF p(3), of "conn_close c" "[]" "[]"] have "written_ok C t dones ?T" unfolding written_ok_def b by simp
  moreover have "heard_ok C r dones ?T" using oq(2,3) unfolding heard_ok_def b by (simp add: pushing_def)
  moreover have "put_ok ?T" using sq(2,3) unfolding put_ok_def b by auto
  ultimately show ?thesis using assms(1) by (simp add: agent_sys_inv_def b)
qed

text \<open>One read of the listening loop, whatever comes: data with its answer, or an error.\<close>

lemma written_rx [simp]: "written C t dones hs ts (c\<lparr>rx := segs\<rparr>) = written C t dones hs ts c"
  by (simp add: written_def conn_dead_def)

lemma read_effect:
  assumes "aea_pipe a = Some p" and "sock_conn p = Some c"
    and "HandleAcnMessageFromPipe C SocketPipe add cid p q = (x, p2, ch)" and "x \<noteq> Panic" and "x \<noteq> Block"
  shows "\<exists>segs c' full. p2 = p\<lparr>sock_conn := Some c'\<rparr> \<and> wrote (concat (map (answer C) (next_data a))) (c\<lparr>rx := segs\<rparr>) c' full
    \<and> accepted r x = (if full then concat (map (own C r) (next_data a)) else [])"
proof -
  obtain y p1 where y: "pipe_Read SocketPipe p = (y, p1)" by fastforce
  obtain segs where p1: "p1 = p\<lparr>sock_conn := Some (c\<lparr>rx := segs\<rparr>)\<rparr>" using sock_Read_keeps [OF y assms(2)] by blast
  show ?thesis
  proof (cases "\<exists>d. y = Ok d")
    case True
    then obtain d where d: "y = Ok d" by blast
    have n: "next_data a = [d]" using assms(1) y d by (simp add: next_data_def)
    have "sock_conn p1 = Some (c\<lparr>rx := segs\<rparr>)" by (simp add: p1)
    then obtain c' full where "p2 = p1\<lparr>sock_conn := Some c'\<rparr>" "wrote (answer C d) (c\<lparr>rx := segs\<rparr>) c' full"
        "accepted r x = (if full then own C r d else [])"
      using handle_wrote [OF y [unfolded d] _ assms(3-5), of "c\<lparr>rx := segs\<rparr>" r] by blast
    then show ?thesis by (intro exI [of _ segs] exI [of _ c'] exI [of _ full]) (simp add: n p1)
  next
    case False
    then have n: "next_data a = []" using assms(1) y by (cases y) (simp_all add: next_data_def)
    have "p2 = p1 \<and> (\<exists>e. x = Err e)" using assms(3-5) y False by (cases y) (auto simp: HandleAcnMessageFromPipe_def)
    then show ?thesis
      using n p1 by (intro exI [of _ segs] exI [of _ "c\<lparr>rx := segs\<rparr>"] exI [of _ True]) (auto simp: wrote_nothing accepted_def)
  qed
qed

lemma wrote_dead_own:
  assumes "wrote (concat (map (answer C) ds)) c c' True" and "conn_dead c"
  shows "concat (map (own C r) ds) = []"
  using assms by (auto simp: wrote_def intro: unanswered)

lemma inv_read_part:
  assumes "agent_sys_inv C r t dones S" and "listen_at S = ListenReady" and "aea_pipe (api S) = Some p"
    and "HandleAcnMessageFromPipe C SocketPipe aea_AddAcnStatusMessage (agent_addr (api S)) p
      (acn_status_chan (api S)) = (x, p2, ch)" and "x \<noteq> Panic" and "x \<noteq> Block"
  shows "\<exists>dones'. agent_sys_inv C r t dones' (S\<lparr>api := (api S)\<lparr>aea_pipe := Some p2, acn_status_chan := ch\<rparr>,
    listen_at := (case x of Ok (Some e) \<Rightarrow> (if Sender e = Address r then ListenPush e else ListenReady) | _ \<Rightarrow> ListenReady),
    heard := heard S @ next_data (api S)\<rparr>)"
proof -
  let ?ds = "next_data (api S)"
  have open': "\<not> aea_closing (api S)" using assms(1,2) by (auto simp: agent_sys_inv_def)
  obtain c where c: "sock_conn p = Some c" "written C t dones (heard S) (taken S) c"
    using assms(1,3) by (auto simp: agent_sys_inv_def written_ok_def)
  obtain segs c' full where w: "p2 = p\<lparr>sock_conn := Some c'\<rparr>" "wrote (concat (map (answer C) ?ds)) (c\<lparr>rx := segs\<rparr>) c' full"
      "accepted r x = (if full then concat (map (own C r) ?ds) else [])"
    using read_effect [OF assms(3) c(1) assms(4-6), of r] by blast
  define dones' where "dones' = (if full \<and> \<not> conn_dead (c\<lparr>rx := segs\<rparr>) then dones @ ?ds else dones)"
  have "written C t dones' (heard S @ ?ds) (taken S) c'"
    using written_wrote [of C t dones "heard S" "taken S" "c\<lparr>rx := segs\<rparr>" ?ds "[]" c' full] c(2) w(2)
    by (simp add: dones'_def)
  moreover have "concat (map (own C r) dones') = concat (map (own C r) dones) @ accepted r x"
    using w(2,3) wrote_dead_own [of C ?ds "c\<lparr>rx := segs\<rparr>" c' r] by (cases full) (simp_all add: dones'_def)
  ultimately show ?thesis
    using assms(1,2) open' w(1)
    by (intro exI [of _ dones'])
      (auto simp: agent_sys_inv_def written_ok_def heard_ok_def put_ok_def pushing_def accepted_def
        split: res.splits option.splits)
qed

lemma inv_read:
  assumes "agent_sys_inv C r t dones S" and "listen_at S = ListenReady" and "listen_read C (api S) = (Ok pc, a)"
  shows "\<exists>dones'. agent_sys_inv C r t dones' (S\<lparr>api := a, listen_at := pc, heard := heard S @ next_data (api S)\<rparr>)"
proof -
  have open': "\<not> aea_closing (api S)" using assms(1,2) by (auto simp: agent_sys_inv_def)
  obtain p where p: "aea_pipe (api S) = Some p" using assms(1) by (auto simp: agent_sys_inv_def written_ok_def)
  obtain x p2 ch where h: "HandleAcnMessageFromPipe C SocketPipe aea_AddAcnStatusMessage (agent_addr (api S)) p
      (acn_status_chan (api S)) = (x, p2, ch)" by (metis prod_cases3)
  have x: "x \<noteq> Panic" "x \<noteq> Block" using assms(3) p h by (auto simp: listen_read_def Let_def)
  let ?new = "next_data (api S)" and ?b = "(api S)\<lparr>aea_pipe := Some p2, acn_status_chan := ch\<rparr>"
  let ?P = "case x of Ok (Some e) \<Rightarrow> (if Sender e = Address r then ListenPush e else ListenReady) | _ \<Rightarrow> ListenReady"
  let ?B = "S\<lparr>api := ?b, listen_at := ?P, heard := heard S @ ?new\<rparr>"
  obtain dones' where B: "agent_sys_inv C r t dones' ?B" using inv_read_part [OF assms(1,2) p h x] by blast
  have rec: "agent_record (api S) = Some r" using assms(1) by (simp add: agent_sys_inv_def)
  show ?thesis
  proof (cases "\<exists>e. x = Err e \<and> is_pipe_error e")
    case True
    then have st: "Stop ?b = (Ok (), a)" "pc = ListenEnd"
      using assms(3) p h open' by (auto simp: listen_read_def then_do_Ok)
    let ?H = "S\<lparr>heard := heard S @ ?new\<rparr>"
    have "?H\<lparr>api := ?b\<rparr> = ?B" using True assms(2) by (cases S) auto
    with B have "agent_sys_inv C r t dones' (?H\<lparr>api := ?b\<rparr>)" by argo
    from stopped_ok [OF this _ st(1)] assms(2) st(2) show ?thesis by (intro exI [of _ dones']) (cases S, simp)
  next
    case False
    then have "a = ?b" "pc = ?P"
      using assms(3) p h x rec by (auto simp: listen_read_def Let_def split: res.splits option.splits if_splits)
    with B show ?thesis by blast
  qed
qed

text \<open>Sending.\<close>

lemma write_envelope:
  assumes "sock_conn p = Some c" and "env_Marshal C e = Inr eb" and "SendEnvelopeMessage C SocketPipe p eb None = (x, p')"
  shows "\<exists>c' full. p' = p\<lparr>sock_conn := Some c'\<rparr> \<and> wrote (envelope_for C e) c c' full"
proof -
  have m: "MakeAcnMessageFromEnvelope C e = EncodeAcnEnvelope C eb None"
    using assms(2) by (simp add: MakeAcnMessageFromEnvelope_def)
  show ?thesis using assms(3) sock_wrote_sum [OF assms(1), of "EncodeAcnEnvelope C eb None" x p']
    unfolding SendEnvelopeMessage_def envelope_for_def m by blast
qed

text \<open>Taking an envelope from the queue: it is written, as far as the socket takes it.\<close>

lemma take_effect:
  assumes "send_take C a = (Ok pc, b)" and "aea_pipe a = Some p" and "sock_conn p = Some c" and "send_queue a = Some q"
  shows "\<exists>c' full. b = a\<lparr>send_queue := Some (q\<lparr>chan_buf := tl (chan_buf q)\<rparr>), aea_pipe := Some (p\<lparr>sock_conn := Some c'\<rparr>)\<rparr>
    \<and> wrote (concat (map (envelope_for C) (next_put a))) c c' full"
proof (cases "\<exists>e eb. next_put a = [e] \<and> env_Marshal C e = Inr eb")
  case True
  then obtain e eb vs where e: "chan_buf q = Some e # vs" "next_put a = [e]" "env_Marshal C e = Inr eb"
    using assms(4) by (auto simp: next_put_def split: list.splits option.splits)
  obtain x p' where x: "SendEnvelopeMessage C SocketPipe p eb None = (x, p')" by fastforce
  then have "b = a\<lparr>send_queue := Some (q\<lparr>chan_buf := vs\<rparr>), aea_pipe := Some p'\<rparr>"
    using assms(1,2,4) e by (auto simp: send_take_def chan_recv_def Let_def split: res.splits)
  with write_envelope [OF assms(3) e(3) x] e show ?thesis by auto
next
  case False
  have none: "concat (map (envelope_for C) (next_put a)) = []" using False assms(4)
    by (auto simp: next_put_def envelope_for_def MakeAcnMessageFromEnvelope_def sendable_def
        split: list.splits option.splits sum.splits)
  have b: "b = a\<lparr>send_queue := Some (q\<lparr>chan_buf := tl (chan_buf q)\<rparr>)\<rparr>" using False assms(1,2,4)
    by (auto simp: next_put_def send_take_def chan_recv_def Let_def split: list.splits option.splits sum.splits if_splits)
  show ?thesis unfolding none b using assms(2,3) by (intro exI [of _ c] exI [of _ True]) (simp add: wrote_nothing)
qed

lemma inv_take:
  assumes "agent_sys_inv C r t dones S" and "send_take C (api S) = (Ok pc, b)"
  shows "agent_sys_inv C r t dones (S\<lparr>api := b, send_at := pc, taken := taken S @ next_put (api S)\<rparr>)"
proof -
  let ?a = "api S" and ?T = "S\<lparr>api := b, send_at := pc, taken := taken S @ next_put (api S)\<rparr>"
  obtain p c where p: "aea_pipe ?a = Some p" "sock_conn p = Some c" "written C t dones (heard S) (taken S) c"
      "aea_closing ?a \<longrightarrow> conn_dead c"
    using assms(1) by (auto simp: agent_sys_inv_def written_ok_def)
  obtain q es ys where q: "send_queue ?a = Some q" "chan_buf q = map Some es @ ys" "chan_closed q = aea_closing ?a"
      "puts S = taken S @ es" "ys = [] \<or> ys = [None] \<and> aea_closing ?a"
    using assms(1) by (auto simp: agent_sys_inv_def put_ok_def)
  obtain c' full where b: "b = ?a\<lparr>send_queue := Some (q\<lparr>chan_buf := tl (chan_buf q)\<rparr>), aea_pipe := Some (p\<lparr>sock_conn := Some c'\<rparr>)\<rparr>"
      and w: "wrote (concat (map (envelope_for C) (next_put ?a))) c c' full"
    using take_effect [OF assms(2) p(1,2) q(1)] by blast
  have "conn_dead c'" if "conn_dead c"
    using w that by (cases full) (auto simp: wrote_def conn_dead_def)
  moreover have "written C t dones (heard S) (taken S @ next_put ?a) c'"
    using written_wrote [OF p(3), of "[]" "next_put ?a" c' full] w by (simp split: if_splits)
  ultimately have "written_ok C t dones ?T" using p(4) by (simp add: written_ok_def b)
  moreover have "put_ok ?T"
  proof (cases es)
    case Nil
    with q show ?thesis unfolding put_ok_def by (intro exI [of _ "q\<lparr>chan_buf := []\<rparr>"]) (auto simp: b next_put_def)
  next
    case (Cons e es')
    with q show ?thesis unfolding put_ok_def
      by (intro exI [of _ "q\<lparr>chan_buf := map Some es' @ ys\<rparr>"] exI [of _ es'] exI [of _ ys]) (simp add: b next_put_def)
  qed
  ultimately show ?thesis using assms(1) by (simp add: agent_sys_inv_def heard_ok_def pushing_def b)
qed

lemma inv_step:
  assumes "agent_sys_step C S S'" and "agent_sys_inv C r t dones S"
  shows "\<exists>dones'. agent_sys_inv C r t dones' S'"
  using assms
proof cases
  case (sys_wait pc a)
  then obtain ch where "a = (api S)\<lparr>acn_status_chan := ch\<rparr>" by (auto simp: send_wait_def split: prod.splits)
  with sys_wait(1) assms(2) show ?thesis
    by (intro exI [of _ dones]) (simp add: agent_sys_inv_def written_ok_def heard_ok_def put_ok_def pushing_def)
next
  case (sys_socket p c w e segs)
  have c: "written C t dones (heard S) (taken S) c"
    using assms(2) sys_socket(3,4) by (auto simp: agent_sys_inv_def written_ok_def)
  have "written C t dones (heard S) (taken S) (c\<lparr>rx := segs, rx_end := e, wcap := w\<rparr>)"
  proof (cases "conn_dead (c\<lparr>rx := segs, rx_end := e, wcap := w\<rparr>)")
    case True
    from written_dead [OF c this, of "[]" "[]"] show ?thesis by simp
  next
    case False
    then have "\<not> conn_dead c" using weakened_dead [OF sys_socket(5), of c] by auto
    with c False show ?thesis unfolding written_def by auto
  qed
  with sys_socket(1-3) assms(2) show ?thesis
    by (intro exI [of _ dones]) (simp add: agent_sys_inv_def written_ok_def heard_ok_def put_ok_def pushing_def)
next
  case sys_timeout
  with assms(2) show ?thesis
    by (intro exI [of _ dones]) (simp add: agent_sys_inv_def written_ok_def heard_ok_def put_ok_def pushing_def)
qed (auto intro: inv_put inv_get inv_read inv_push inv_take)

lemma inv_start:
  assumes "Connect a0 = (Ok (), a)" and "\<not> standalone a0" and "agent_record a0 = Some r"
    and "aea_pipe a = Some p" and "sock_conn p = Some c"
  shows "agent_sys_inv C r (tx c) [] (agent_start a)"
proof -
  have "agent_record a = Some r" "\<not> standalone a" "\<not> aea_closing a" "out_queue a = Some (make_chan OutQueueSize)"
      "send_queue a = Some (make_chan SendQueueSize)"
    using assms(1-3) by (auto simp: Connect_def split: option.splits prod.splits res.splits)
  with assms(4-5) show ?thesis
    by (simp add: agent_start_def agent_sys_inv_def written_ok_def written_def torn_def heard_ok_def put_ok_def pushing_def
        make_chan_def)
qed

lemma agent_runs_inv:
  assumes "agent_runs C a S" and "agent_sys_inv C r t [] (agent_start a)"
  shows "\<exists>dones. agent_sys_inv C r t dones S"
  using assms by (induction rule: agent_runs.induct) (auto dest: inv_step)

section \<open>All interleavings\<close>

text \<open>C5: However the two loops, the callbacks that put envelopes, the reader of the queue and the agent interleave, from the
  connection on and past its end, with an agent that may break the connection at any byte: of the messages heard, those
  in \<open>dones\<close> were answered, and of the envelopes taken from the queue, those in \<open>sent\<close> were written. The agent has been
  written an interleaving of the answers to \<open>dones\<close>, in order, and of \<open>sent\<close>, in order, as whole frames, and after
  them at most a part of one frame, of a message that is lost. The node has got, or has queued, exactly the envelopes
  that the agent sent in \<open>dones\<close> under its own address, in order: what was not acknowledged was not accepted. What was put is what
  the sending loop has taken, in order, followed by what waits. As long as the socket takes bytes nothing is lost.\<close>

theorem agent_interleavings:
  assumes "Connect a0 = (Ok (), a)" and "\<not> standalone a0" and "agent_record a0 = Some r"
    and "aea_pipe a = Some p" and "sock_conn p = Some c" and "agent_runs C a S"
  shows "prefix (taken S) (puts S)
    \<and> (\<exists>dones lost sent unsent es ws part.
        heard S = dones @ lost \<and> taken S = sent @ unsent
        \<and> agent_queue (api S) = map Some es \<and> gots S @ es @ pushing S = concat (map (own C r) dones)
        \<and> agent_tx (api S) = tx c @ concat (map frame ws) @ part
        \<and> ws \<in> shuffles (concat (map (answer C) dones)) (concat (map (envelope_for C) sent))
        \<and> torn C lost unsent part
        \<and> (\<not> socket_broken (api S) \<longrightarrow> lost = [] \<and> unsent = [] \<and> part = []))"
proof -
  obtain dones where i: "agent_sys_inv C r (tx c) dones S" using agent_runs_inv [OF assms(6) inv_start [OF assms(1-5)]] by blast
  then have "prefix (taken S) (puts S)" by (auto simp: agent_sys_inv_def put_ok_def)
  moreover from i obtain q es where "agent_queue (api S) = map Some es" "gots S @ es @ pushing S = concat (map (own C r) dones)"
    by (auto simp: agent_sys_inv_def heard_ok_def agent_queue_def)
  moreover from i obtain d where d: "written C (tx c) dones (heard S) (taken S) d" "agent_tx (api S) = tx d"
      "socket_broken (api S) = conn_dead d"
    by (auto simp: agent_sys_inv_def written_ok_def agent_tx_def socket_broken_def)
  ultimately show ?thesis unfolding written_def d(2,3) by (intro conjI) (assumption, blast)
qed

text \<open>A run: an envelope is put, a message of the agent is read and answered, the envelope is written, the agent's
  envelope is queued and got.\<close>

definition ex_sys_api :: AeaApi where
  "ex_sys_api = AeaApi_zero\<lparr>agent_record := Some ex_agent_record, acn_status_chan := Some (make_chan 1000),
     aea_pipe := Some \<lparr>sock_port = 0, sock_conn = None, sock_dial = Inr ex_agent_conn\<rparr>\<rparr>"

definition ex_sys_state :: "bytes list \<Rightarrow> bytes \<Rightarrow> Envelope option list \<Rightarrow> Envelope option list \<Rightarrow> AeaApi" where
  "ex_sys_state segs out sq oq = ex_sys_api\<lparr>aea_pipe := Some \<lparr>sock_port = 0,
      sock_conn = Some (ex_agent_conn\<lparr>rx := segs, tx := out\<rparr>), sock_dial = Inr ex_agent_conn\<rparr>, aea_connected := True,
      out_queue := Some \<lparr>chan_cap = 100, chan_buf = oq, chan_closed = False\<rparr>,
      send_queue := Some \<lparr>chan_cap = 100, chan_buf = sq, chan_closed = False\<rparr>\<rparr>"

lemma ex_sys_Connect: "Connect ex_sys_api = (Ok (), ex_sys_state [frame [1], frame [2]] [] [] [])"
  by (simp add: Connect_def ex_sys_api_def ex_sys_state_def SocketPipe_def sock_Connect_def AeaApi_zero_def make_chan_def
      OutQueueSize_def SendQueueSize_def ex_agent_conn_def)

lemma ex_sys_read:
  "listen_read ex_agent_codec (ex_sys_state [frame [1], frame [2]] [] sq oq)
     = (Ok (ListenPush (ex_env ''b'' ''a'')), ex_sys_state [frame [2]] (frame [3]) sq oq)"
  "next_data (ex_sys_state [frame [1], frame [2]] [] sq oq) = [[1]]"
proof -
  let ?c = "ex_agent_conn\<lparr>rx := [frame [1], frame [2]], tx := []\<rparr>"
  let ?p = "\<lparr>sock_port = 0, sock_conn = Some ?c, sock_dial = Inr ex_agent_conn\<rparr> :: TCPSocketChannel"
  have w: "wcap ?c = None" by (simp add: ex_agent_conn_def)
  have sender: "Sender (ex_env ''b'' ''a'') = Address ex_agent_record" by (simp add: ex_env_def ex_agent_record_def)
  note h = handle_envelope [OF ex_agent_codec_ok ex_agent_messages(2,1), of ?p ?c "[frame [2]]" aea_AddAcnStatusMessage
      "agent_addr AeaApi_zero" "Some (make_chan 1000)"]
  show "listen_read ex_agent_codec (ex_sys_state [frame [1], frame [2]] [] sq oq)
     = (Ok (ListenPush (ex_env ''b'' ''a'')), ex_sys_state [frame [2]] (frame [3]) sq oq)"
    using h w sender by (simp add: listen_read_def ex_sys_state_def ex_sys_api_def Let_def)
  show "next_data (ex_sys_state [frame [1], frame [2]] [] sq oq) = [[1]]"
    using sock_Read_whole [of ?p ?c "[1]" "[frame [2]]"] by (simp add: next_data_def ex_sys_state_def MaxInt32_def)
qed

lemma ex_sys_messages:
  "answer ex_agent_codec [1] = [[3]]" "own ex_agent_codec ex_agent_record [1] = [ex_env ''b'' ''a'']"
  "envelope_for ex_agent_codec (ex_env ''b'' ''a'') = [[1]]"
  by (simp_all add: answer_def own_def envelope_for_def status_answer_def sendable_def MakeAcnMessageFromEnvelope_def
      EncodeAcnEnvelope_def DecodeAcnMessage_def ex_agent_codec_def table_codec_def MaxInt32_def ex_env_def ex_agent_record_def)

lemma ex_sys_take:
  "send_take ex_agent_codec (ex_sys_state segs out [Some (ex_env ''b'' ''a'')] oq)
     = (Ok SendWait, ex_sys_state segs (out @ frame [1]) [] oq)"
  by (simp add: send_take_def chan_recv_def ex_sys_state_def Let_def ex_agent_codec_def table_codec_def
      SendEnvelopeMessage_def EncodeAcnEnvelope_def sock_Write_open ex_agent_conn_def MaxInt32_def)

lemma agent_interleavings_witness:
  "\<exists>a S. Connect ex_sys_api = (Ok (), a) \<and> agent_runs ex_agent_codec a S
    \<and> gots S = [ex_env ''b'' ''a''] \<and> heard S = [[1]] \<and> puts S = [ex_env ''b'' ''a''] \<and> taken S = puts S
    \<and> agent_queue (api S) = [] \<and> agent_tx (api S) \<in> {frame [3] @ frame [1], frame [1] @ frame [3]}"
proof -
  let ?C = ex_agent_codec and ?e = "ex_env ''b'' ''a''" and ?segs = "[frame [1], frame [2]]"
  let ?a = "ex_sys_state ?segs [] [] []"
  let ?S1 = "(agent_start ?a)\<lparr>api := ex_sys_state ?segs [] [Some ?e] [], puts := [?e]\<rparr>"
  let ?S2 = "?S1\<lparr>api := ex_sys_state [frame [2]] (frame [3]) [Some ?e] [], listen_at := ListenPush ?e, heard := [[1]]\<rparr>"
  let ?S3 = "?S2\<lparr>api := ex_sys_state [frame [2]] (frame [3] @ frame [1]) [] [], send_at := SendWait, taken := [?e]\<rparr>"
  let ?S4 = "?S3\<lparr>api := ex_sys_state [frame [2]] (frame [3] @ frame [1]) [] [Some ?e], listen_at := ListenReady\<rparr>"
  let ?S5 = "?S4\<lparr>api := ex_sys_state [frame [2]] (frame [3] @ frame [1]) [] [], gots := [?e]\<rparr>"
  have "agent_sys_step ?C (agent_start ?a) ?S1"
    using sys_put [of ?e "agent_start ?a" "ex_sys_state ?segs [] [Some ?e] []" ?C]
    by (simp add: agent_start_def Put_def chan_send_def ex_sys_state_def ex_sys_api_def)
  moreover have "agent_sys_step ?C ?S1 ?S2"
    using sys_read [of ?S1 ?C "ListenPush ?e" "ex_sys_state [frame [2]] (frame [3]) [Some ?e] []"] ex_sys_read
    by (simp add: agent_start_def)
  moreover have "next_put (ex_sys_state [frame [2]] (frame [3]) [Some ?e] []) = [?e]"
    by (simp add: next_put_def ex_sys_state_def)
  then have "agent_sys_step ?C ?S2 ?S3"
    using sys_take [of ?S2 ?C SendWait "ex_sys_state [frame [2]] (frame [3] @ frame [1]) [] []"] ex_sys_take
    by (simp add: agent_start_def)
  moreover have "agent_sys_step ?C ?S3 ?S4"
    using sys_push [of ?S3 ?e ListenReady "ex_sys_state [frame [2]] (frame [3] @ frame [1]) [] [Some ?e]" ?C]
    by (simp add: agent_start_def listen_push_def chan_send_def ex_sys_state_def ex_sys_api_def AeaApi_zero_def)
  moreover have "agent_sys_step ?C ?S4 ?S5"
    using sys_get [of ?S4 ?e "ex_sys_state [frame [2]] (frame [3] @ frame [1]) [] []" ?C]
    by (simp add: agent_start_def Get_def chan_recv_def ex_sys_state_def ex_sys_api_def)
  ultimately have run: "agent_runs ?C ?a ?S5" by (meson runs_start runs_step)
  have start: "\<not> standalone ex_sys_api" "agent_record ex_sys_api = Some ex_agent_record" "wcap ex_agent_conn = None"
      "tx ex_agent_conn = []" "aea_pipe ?a = Some \<lparr>sock_port = 0, sock_conn = Some ex_agent_conn, sock_dial = Inr ex_agent_conn\<rparr>"
    by (simp_all add: ex_sys_api_def ex_sys_state_def ex_agent_conn_def)
  define S where "S = ?S5"
  have S: "heard S = [[1]]" "taken S = [?e]" "puts S = [?e]" "gots S = [?e]" "pushing S = []" "\<not> socket_broken (api S)"
    by (simp_all add: S_def agent_start_def pushing_def ex_sys_state_def socket_broken_def conn_dead_def ex_agent_conn_def)
  have runS: "agent_runs ?C ?a S" using run by (simp only: S_def)
  obtain es ws where w: "agent_queue (api S) = map Some es" "gots S @ es @ pushing S = concat (map (own ?C ex_agent_record) (heard S))"
      "agent_tx (api S) = tx ex_agent_conn @ concat (map frame ws)"
      "ws \<in> shuffles (concat (map (answer ?C) (heard S))) (concat (map (envelope_for ?C) (taken S)))"
    using agent_interleavings [OF ex_sys_Connect start(1,2,5) _ runS, of ex_agent_conn] S(6) by auto
  have "es = []" using w(2) ex_sys_messages(2) S by simp
  then have "agent_queue (api S) = []" using w(1) by simp
  moreover have "agent_tx (api S) \<in> {frame [3] @ frame [1], frame [1] @ frame [3]}"
    using w(3,4) ex_sys_messages start(4) S by auto
  ultimately show ?thesis
    using runS S ex_sys_Connect by (intro exI [of _ ?a] exI [of _ S]) simp
qed

end
