(* ===== verification/Go_Asn1.thy ===== *)
theory Go_Asn1
  imports Go_Std
begin

text \<open>
  More of the Go standard library, for the signature helpers: \<open>math/big\<close> integers as bytes,
  \<open>encoding/base64\<close> (the standard alphabet with padding) and the part of \<open>encoding/asn1\<close> that
  marshals and parses \<open>struct { R, S *big.Int }\<close> in DER.
\<close>

section \<open>Big integers as bytes\<close>

definition SetBytes :: "bytes \<Rightarrow> nat" where
  "SetBytes bs = foldl (\<lambda>a b. 256 * a + unat b) 0 bs"

text \<open>\<open>big.Int.Bytes()\<close> of the absolute value: big-endian, without leading zero bytes.\<close>

fun IntBytes :: "nat \<Rightarrow> bytes" where
  "IntBytes n = (if n = 0 then [] else IntBytes (n div 256) @ [of_nat (n mod 256)])"

declare IntBytes.simps [simp del]

lemma IntBytes_0 [simp]: "IntBytes 0 = []"
  by (simp add: IntBytes.simps)

lemma SetBytes_Nil [simp]: "SetBytes [] = 0"
  by (simp add: SetBytes_def)

lemma SetBytes_snoc [simp]: "SetBytes (bs @ [b]) = 256 * SetBytes bs + unat b"
  by (simp add: SetBytes_def)

lemma SetBytes_IntBytes [simp]: "SetBytes (IntBytes n) = n"
proof (induction n rule: IntBytes.induct)
  case (1 n)
  show ?case
  proof (cases "n = 0")
    case False
    then have "SetBytes (IntBytes n) = 256 * (n div 256) + unat (of_nat (n mod 256) :: byte)"
      using 1 by (subst IntBytes.simps) simp
    then show ?thesis by (simp add: unat_of_nat)
  qed simp
qed

lemma SetBytes_bound: "SetBytes bs < 256 ^ length bs"
proof (induction bs rule: rev_induct)
  case (snoc b bs)
  have "unat b < 256" using unsigned_less [of b, where 'a = nat] by simp
  with snoc show ?case by simp
qed simp

lemma IntBytes_step: "0 < 256 * n + unat b \<Longrightarrow> IntBytes (256 * n + unat (b :: byte)) = IntBytes n @ [b]"
  using unsigned_less [of b, where 'a = nat]
  by (subst IntBytes.simps) simp

lemma IntBytes_SetBytes: "IntBytes (SetBytes bs) = dropWhile (\<lambda>b. b = 0) bs"
proof (induction bs rule: rev_induct)
  case (snoc b bs)
  show ?case
  proof (cases "256 * SetBytes bs + unat b = 0")
    case True
    then have "b = 0" "SetBytes bs = 0" by (simp_all add: unat_eq_0)
    with snoc have "dropWhile (\<lambda>b. b = 0) bs = []" by simp
    then have "\<forall>x \<in> set (bs @ [b]). x = 0" using \<open>b = 0\<close> by (simp add: dropWhile_eq_Nil_conv)
    then have "dropWhile (\<lambda>b. b = 0) (bs @ [b]) = []" by (simp add: dropWhile_eq_Nil_conv)
    with True show ?thesis by simp
  next
    case False
    then have i: "IntBytes (SetBytes (bs @ [b])) = dropWhile (\<lambda>b. b = 0) bs @ [b]"
      using IntBytes_step snoc by simp
    show ?thesis
    proof (cases "\<exists>x \<in> set bs. x \<noteq> 0")
      case True
      then show ?thesis using i by (auto simp: dropWhile_append1)
    next
      case all0: False
      then have d: "dropWhile (\<lambda>b. b = 0) bs = []" by (simp add: dropWhile_eq_Nil_conv)
      with snoc have "SetBytes bs = 0" by (metis SetBytes_IntBytes SetBytes_Nil)
      with False have "b \<noteq> 0" by auto
      with i d all0 show ?thesis by (simp add: dropWhile_append)
    qed
  qed
qed simp

lemma IntBytes_hd:
  assumes "IntBytes n = b # bs"
  shows "b \<noteq> 0"
proof
  assume "b = 0"
  have "dropWhile (\<lambda>b. b = 0) (IntBytes n) = IntBytes n"
    using IntBytes_SetBytes [of "IntBytes n"] by simp
  with assms \<open>b = 0\<close> have "dropWhile (\<lambda>b. b = 0) bs = 0 # bs" by simp
  then show False using length_dropWhile_le [of "\<lambda>b. b = 0" bs] by simp
qed

lemma IntBytes_eq_Nil [simp]: "IntBytes n = [] \<longleftrightarrow> n = 0"
  by (metis IntBytes_0 SetBytes_IntBytes SetBytes_Nil)

lemma length_IntBytes_le: "n < 256 ^ k \<Longrightarrow> length (IntBytes n) \<le> k"
proof (induction k arbitrary: n)
  case (Suc k)
  then have "n div 256 < 256 ^ k" by (simp add: less_mult_imp_div_less mult.commute)
  with Suc.IH show ?case by (subst IntBytes.simps) auto
qed simp

section \<open>DER integers and sequences\<close>

text \<open>\<open>asn1.Marshal\<close> of a non-negative integer: a zero byte in front when the first bit is set.\<close>

definition der_int_bytes :: "nat \<Rightarrow> bytes" where
  "der_int_bytes n =
     (let b = IntBytes n in
      case b of [] \<Rightarrow> [0] | h # _ \<Rightarrow> if unat h \<ge> 128 then 0 # b else b)"

definition der_length :: "nat \<Rightarrow> bytes" where
  "der_length n =
     (if n < 128 then [of_nat n]
      else let b = IntBytes n in of_nat (128 + length b) # b)"

definition der_element :: "byte \<Rightarrow> bytes \<Rightarrow> bytes" where
  "der_element tag content = tag # der_length (length content) @ content"

definition asn1_Marshal_RS :: "nat \<Rightarrow> nat \<Rightarrow> bytes" where
  "asn1_Marshal_RS r s =
     der_element 0x30 (der_element 2 (der_int_bytes r) @ der_element 2 (der_int_bytes s))"

definition asn1_error :: "string \<Rightarrow> err" where
  "asn1_error m = ErrMsg (''asn1: '' @ m)"

text \<open>The long form of a length: at most \<open>2 ^ 23\<close> before the last byte, no leading zero, and not
  where the short form would do.\<close>

fun parse_long_length :: "nat \<Rightarrow> nat \<Rightarrow> bytes \<Rightarrow> err + (nat \<times> bytes)" where
  "parse_long_length 0 len rest =
     (if len < 128 then Inl (asn1_error ''non-minimal length'') else Inr (len, rest))"
| "parse_long_length (Suc k) len [] = Inl (asn1_error ''truncated tag or length'')"
| "parse_long_length (Suc k) len (b # rest) =
     (if len \<ge> 2 ^ 23 then Inl (asn1_error ''length too large'')
      else if 256 * len + unat b = 0 then Inl (asn1_error ''superfluous leading zeros in length'')
      else parse_long_length k (256 * len + unat b) rest)"

fun parse_tag_length :: "bytes \<Rightarrow> err + (byte \<times> nat \<times> bytes)" where
  "parse_tag_length [] = Inl (asn1_error ''sequence truncated'')"
| "parse_tag_length [t] = Inl (asn1_error ''truncated tag or length'')"
| "parse_tag_length (t # l # rest) =
     (if unat t mod 32 = 31 then Inl (asn1_error ''tags don't match'')
      else if unat l < 128 then Inr (t, unat l, rest)
      else if unat l = 128 then Inl (asn1_error ''indefinite length found (not DER)'')
      else case parse_long_length (unat l - 128) 0 rest of
        Inl e \<Rightarrow> Inl e
      | Inr (n, rest') \<Rightarrow> Inr (t, n, rest'))"

definition parse_element :: "byte \<Rightarrow> bytes \<Rightarrow> err + (bytes \<times> bytes)" where
  "parse_element tag bs =
     (case parse_tag_length bs of
        Inl e \<Rightarrow> Inl e
      | Inr (t, n, rest) \<Rightarrow>
          if t \<noteq> tag then Inl (asn1_error ''tags don't match'')
          else if n > length rest then Inl (asn1_error ''data truncated'')
          else Inr (take n rest, drop n rest))"

text \<open>\<open>parseBigInt\<close>: two's complement, minimally encoded.\<close>

definition parse_big_int :: "bytes \<Rightarrow> err + int" where
  "parse_big_int bs =
     (case bs of
        [] \<Rightarrow> Inl (asn1_error ''empty integer'')
      | a # rest \<Rightarrow>
          (case rest of
             [] \<Rightarrow> Inr (if unat a \<ge> 128 then int (SetBytes bs) - 256 ^ length bs else int (SetBytes bs))
           | b # _ \<Rightarrow>
               if a = 0 \<and> unat b < 128 \<or> a = 255 \<and> unat b \<ge> 128
               then Inl (asn1_error ''integer not minimally-encoded'')
               else Inr (if unat a \<ge> 128 then int (SetBytes bs) - 256 ^ length bs
                         else int (SetBytes bs))))"

text \<open>\<open>asn1.Unmarshal\<close> into the two-field struct: bytes after the second integer, inside or outside
  the sequence, are left unread.\<close>

definition asn1_Unmarshal_RS :: "bytes \<Rightarrow> err + (int \<times> int)" where
  "asn1_Unmarshal_RS bs =
     (case parse_element 0x30 bs of
        Inl e \<Rightarrow> Inl e
      | Inr (inner, _) \<Rightarrow>
          (case parse_element 2 inner of
             Inl e \<Rightarrow> Inl e
           | Inr (rb, inner') \<Rightarrow>
               (case parse_big_int rb of
                  Inl e \<Rightarrow> Inl e
                | Inr r \<Rightarrow>
                    (case parse_element 2 inner' of
                       Inl e \<Rightarrow> Inl e
                     | Inr (sb, _) \<Rightarrow>
                         (case parse_big_int sb of Inl e \<Rightarrow> Inl e | Inr s \<Rightarrow> Inr (r, s))))))"

lemma parse_element_short:
  assumes "length content < 128" and "unat tag mod 32 \<noteq> 31"
  shows "parse_element tag (der_element tag content @ rest) = Inr (content, rest)"
proof -
  have "unat (of_nat (length content) :: byte) = length content"
    using assms(1) by (simp add: unat_of_nat)
  then show ?thesis
    using assms by (simp add: parse_element_def der_element_def der_length_def)
qed

lemma SetBytes_0_Cons [simp]: "SetBytes (0 # bs) = SetBytes bs"
  by (simp add: SetBytes_def)

lemma parse_der_int: "parse_big_int (der_int_bytes n) = Inr (int n)"
proof (cases "IntBytes n")
  case Nil
  then show ?thesis by (simp add: der_int_bytes_def parse_big_int_def SetBytes_def)
next
  case (Cons h bs)
  then have h: "h \<noteq> 0" and n: "SetBytes (h # bs) = n"
    using IntBytes_hd SetBytes_IntBytes by metis+
  show ?thesis
  proof (cases "unat h \<ge> 128")
    case True
    with Cons n show ?thesis by (simp add: der_int_bytes_def parse_big_int_def)
  next
    case False
    have "(255 :: byte) \<noteq> h" using False by auto
    with False Cons h n show ?thesis
      by (auto simp: der_int_bytes_def parse_big_int_def split: list.splits)
  qed
qed

lemma length_der_int: "n < 256 ^ k \<Longrightarrow> length (der_int_bytes n) \<le> Suc k"
  using length_IntBytes_le [of n k] by (auto simp: der_int_bytes_def Let_def split: list.splits)

lemma length_der_element_short: "length c < 128 \<Longrightarrow> length (der_element t c) = 2 + length c"
  by (simp add: der_element_def der_length_def)

theorem asn1_roundtrip:
  assumes "r < 256 ^ 32" and "s < 256 ^ 32"
  shows "asn1_Unmarshal_RS (asn1_Marshal_RS r s) = Inr (int r, int s)"
proof -
  let ?R = "der_int_bytes r" and ?S = "der_int_bytes s"
  have l: "length ?R \<le> 33" "length ?S \<le> 33"
    using length_der_int [OF assms(1)] length_der_int [OF assms(2)] by simp_all
  then have "length (der_element 2 ?R @ der_element 2 ?S) < 128"
    by (simp add: length_der_element_short)
  then have 1: "parse_element 0x30 (asn1_Marshal_RS r s)
      = Inr (der_element 2 ?R @ der_element 2 ?S, [])"
    unfolding asn1_Marshal_RS_def using parse_element_short [where rest = "[]"] by simp
  have 2: "parse_element 2 (der_element 2 ?R @ der_element 2 ?S) = Inr (?R, der_element 2 ?S)"
    using l(1) by (intro parse_element_short) auto
  have 3: "parse_element 2 (der_element 2 ?S) = Inr (?S, [])"
    using parse_element_short [of ?S 2 "[]"] l(2) by simp
  show ?thesis by (simp add: asn1_Unmarshal_RS_def 1 2 3 parse_der_int)
qed

section \<open>Base64\<close>

definition b64char :: "nat \<Rightarrow> char" where
  "b64char n =
     (if n < 26 then char_of (65 + n)
      else if n < 52 then char_of (71 + n)
      else if n < 62 then char_of (n - 4)
      else if n = 62 then CHR ''+''
      else CHR ''/'')"

definition b64value :: "char \<Rightarrow> nat option" where
  "b64value c =
     (let n = of_char c :: nat in
      if 65 \<le> n \<and> n \<le> 90 then Some (n - 65)
      else if 97 \<le> n \<and> n \<le> 122 then Some (n - 71)
      else if 48 \<le> n \<and> n \<le> 57 then Some (n + 4)
      else if n = 43 then Some 62
      else if n = 47 then Some 63
      else None)"

text \<open>The six-bit groups of three bytes, and back.\<close>

definition sextet1 :: "byte \<Rightarrow> nat" where
  "sextet1 a = unat a div 4"

definition sextet2 :: "byte \<Rightarrow> byte \<Rightarrow> nat" where
  "sextet2 a b = 16 * (unat a mod 4) + unat b div 16"

definition sextet3 :: "byte \<Rightarrow> byte \<Rightarrow> nat" where
  "sextet3 b c = 4 * (unat b mod 16) + unat c div 64"

definition sextet4 :: "byte \<Rightarrow> nat" where
  "sextet4 c = unat c mod 64"

definition octet1 :: "nat \<Rightarrow> nat \<Rightarrow> byte" where
  "octet1 p q = of_nat (4 * p + q div 16)"

definition octet2 :: "nat \<Rightarrow> nat \<Rightarrow> byte" where
  "octet2 q r = of_nat (16 * (q mod 16) + r div 4)"

definition octet3 :: "nat \<Rightarrow> nat \<Rightarrow> byte" where
  "octet3 r s = of_nat (64 * (r mod 4) + s)"

fun b64_Encode :: "bytes \<Rightarrow> string" where
  "b64_Encode [] = []"
| "b64_Encode [a] = [b64char (sextet1 a), b64char (sextet2 a 0), CHR ''='', CHR ''='']"
| "b64_Encode [a, b] =
     [b64char (sextet1 a), b64char (sextet2 a b), b64char (sextet3 b 0), CHR ''='']"
| "b64_Encode (a # b # c # rest) =
     b64char (sextet1 a) # b64char (sextet2 a b) # b64char (sextet3 b c) # b64char (sextet4 c)
       # b64_Encode rest"

definition CorruptInputError :: err where
  "CorruptInputError = ErrMsg ''illegal base64 data''"

text \<open>Groups of four characters; padding ends the input. Line breaks are skipped everywhere.\<close>

fun b64_groups :: "string \<Rightarrow> err + bytes" where
  "b64_groups [] = Inr []"
| "b64_groups (p # q # r # s # rest) =
     (case (b64value p, b64value q, b64value r, b64value s) of
        (Some a, Some b, Some c, Some d) \<Rightarrow>
          (case b64_groups rest of
             Inl e \<Rightarrow> Inl e
           | Inr bs \<Rightarrow> Inr (octet1 a b # octet2 b c # octet3 c d # bs))
      | (Some a, Some b, Some c, None) \<Rightarrow>
          (if s = CHR ''='' \<and> rest = []
           then Inr [octet1 a b, octet2 b c]
           else Inl CorruptInputError)
      | (Some a, Some b, None, None) \<Rightarrow>
          (if r = CHR ''='' \<and> s = CHR ''='' \<and> rest = []
           then Inr [octet1 a b]
           else Inl CorruptInputError)
      | _ \<Rightarrow> Inl CorruptInputError)"
| "b64_groups _ = Inl CorruptInputError"

definition b64_Decode :: "string \<Rightarrow> err + bytes" where
  "b64_Decode s = b64_groups (filter (\<lambda>c. c \<noteq> CHR 0x0A \<and> c \<noteq> CHR 0x0D) s)"

lemma b64value_b64char [simp]: "n < 64 \<Longrightarrow> b64value (b64char n) = Some n"
  by (auto simp: b64value_def b64char_def Let_def)

lemma b64value_break [simp]:
  "b64value (CHR 0x0A) = None" "b64value (CHR 0x0D) = None" "b64value (CHR ''='') = None"
  by (simp_all add: b64value_def)

lemma b64char_no_break: "n < 64 \<Longrightarrow> b64char n \<noteq> CHR 0x0A \<and> b64char n \<noteq> CHR 0x0D"
  by (metis b64value_b64char b64value_break(1,2) option.distinct(1))

lemma byte_lt [simp]: "unat (b :: byte) < 256"
  using unsigned_less [of b, where 'a = nat] by simp

lemma sextet_lt [simp]:
  "sextet1 a < 64" "sextet2 a b < 64" "sextet3 b c < 64" "sextet4 c < 64"
  using byte_lt [of a] byte_lt [of b] byte_lt [of c]
  by (simp_all add: sextet1_def sextet2_def sextet3_def sextet4_def del: byte_lt)

lemma digit_pair: "y < k \<Longrightarrow> (k * x + y) div k = x \<and> (k * x + y) mod k = (y :: nat)"
  by simp

lemma octet_sextet [simp]:
  "octet1 (sextet1 a) (sextet2 a b) = a"
  "octet2 (sextet2 a b) (sextet3 b c) = b"
  "octet3 (sextet3 b c) (sextet4 c) = c"
proof -
  have b: "unat b div 16 < 16" and c: "unat c div 64 < 4"
    using byte_lt [of b] byte_lt [of c] by (simp_all del: byte_lt)
  have "4 * sextet1 a + sextet2 a b div 16 = unat a"
    unfolding sextet1_def sextet2_def using digit_pair [OF b] by simp
  then show "octet1 (sextet1 a) (sextet2 a b) = a" by (simp add: octet1_def)
  have "16 * (sextet2 a b mod 16) + sextet3 b c div 4 = unat b"
    unfolding sextet2_def sextet3_def using digit_pair [OF b] digit_pair [OF c] by simp
  then show "octet2 (sextet2 a b) (sextet3 b c) = b" by (simp add: octet2_def)
  have "64 * (sextet3 b c mod 4) + sextet4 c = unat c"
    unfolding sextet3_def sextet4_def using digit_pair [OF c] by simp
  then show "octet3 (sextet3 b c) (sextet4 c) = c" by (simp add: octet3_def)
qed

lemma b64_groups_Encode: "b64_groups (b64_Encode bs) = Inr bs"
  by (induction bs rule: b64_Encode.induct) simp_all

lemma b64_Encode_no_break:
  "filter (\<lambda>c. c \<noteq> CHR 0x0A \<and> c \<noteq> CHR 0x0D) (b64_Encode bs) = b64_Encode bs"
  by (induction bs rule: b64_Encode.induct) (simp_all add: b64char_no_break)

theorem b64_roundtrip: "b64_Decode (b64_Encode bs) = Inr bs"
  by (simp add: b64_Decode_def b64_Encode_no_break b64_groups_Encode)

end
