(* ===== verification/Ledger.thy ===== *)
theory Ledger
  imports Go_Asn1
begin

text \<open>
  The ledger helpers of \<open>utils/utils.go\<close>: public keys, addresses and signatures of the supported
  ledgers, and the tables that dispatch on the ledger's name.

  Hash functions, elliptic-curve operations, bech32 and the go-ethereum helpers are libraries
  outside the repository: a \<open>crypto\<close> value is a parameter of every definition that uses them. A
  public key is the pair of its coordinates, a private key its scalar, a signature its pair
  \<open>(r, s)\<close>. Slicing past the end of a string and indexing past the end of a slice panic, as in Go.
\<close>

unbundle bit_operations_syntax

type_synonym pubkey = "nat \<times> nat"
type_synonym privkey = nat
type_synonym ecdsa_sig = "nat \<times> nat"

record crypto =
  sha256 :: "bytes \<Rightarrow> bytes"
  ripemd160 :: "bytes \<Rightarrow> bytes"
  keccak256 :: "bytes \<Rightarrow> bytes"
  ConvertBits :: "bytes \<Rightarrow> nat \<Rightarrow> nat \<Rightarrow> bool \<Rightarrow> err + bytes"
  bech32_Encode :: "string \<Rightarrow> bytes \<Rightarrow> err + string"
  ParsePubKey :: "bytes \<Rightarrow> err + pubkey"
  SerializeCompressed :: "pubkey \<Rightarrow> bytes"
  PrivKeyFromBytes :: "bytes \<Rightarrow> privkey \<times> pubkey"
  ParseDERSignature :: "bytes \<Rightarrow> err + ecdsa_sig"
  ecdsa_Verify :: "ecdsa_sig \<Rightarrow> bytes \<Rightarrow> pubkey \<Rightarrow> bool"
  UnmarshalSecp256k1PublicKey :: "bytes \<Rightarrow> err + pubkey"
  pubkey_Raw :: "pubkey \<Rightarrow> err + bytes"
  p2p_Verify :: "pubkey \<Rightarrow> bytes \<Rightarrow> bytes \<Rightarrow> err + bool"
  p2p_Sign :: "privkey \<Rightarrow> bytes \<Rightarrow> err + bytes"
  KeyPairFromStdKey :: "privkey \<Rightarrow> err + (privkey \<times> pubkey)"
  IDFromPublicKey :: "pubkey \<Rightarrow> err + peerID"
  hexutil_Decode :: "string \<Rightarrow> err + bytes"
  SigToPub :: "bytes \<Rightarrow> bytes \<Rightarrow> err + pubkey"
  PubkeyToAddressHex :: "pubkey \<Rightarrow> string"
  cid_Sum :: "bytes \<Rightarrow> err + bytes"
  peer_Decode :: "string \<Rightarrow> err + peerID"
  peer_String :: "peerID \<Rightarrow> string"

section \<open>Keys\<close>

definition hex_decode :: "string \<Rightarrow> err + bytes" where
  "hex_decode s = (case DecodeString s of (b, Some e) \<Rightarrow> Inl e | (b, None) \<Rightarrow> Inr b)"

text \<open>The error of \<open>hex.DecodeString\<close> is dropped: the key is made from the bytes before it.\<close>

definition PubKeyFromFetchAIPublicKey :: "crypto \<Rightarrow> string \<Rightarrow> err + pubkey" where
  "PubKeyFromFetchAIPublicKey K publicKey = UnmarshalSecp256k1PublicKey K (fst (DecodeString publicKey))"

definition FetchAIPublicKeyFromPubKey :: "crypto \<Rightarrow> pubkey \<Rightarrow> err + string" where
  "FetchAIPublicKeyFromPubKey K publicKey =
     (case pubkey_Raw K publicKey of Inl e \<Rightarrow> Inl e | Inr raw \<Rightarrow> Inr (EncodeToString raw))"

definition BTCPubKeyFromFetchAIPublicKey :: "crypto \<Rightarrow> string \<Rightarrow> err + pubkey" where
  "BTCPubKeyFromFetchAIPublicKey K publicKey =
     (case hex_decode publicKey of Inl e \<Rightarrow> Inl e | Inr b \<Rightarrow> ParsePubKey K b)"

definition BTCPubKeyFromUncompressedHex :: "crypto \<Rightarrow> string \<Rightarrow> err + pubkey" where
  "BTCPubKeyFromUncompressedHex K publicKey =
     (case hex_decode publicKey of Inl e \<Rightarrow> Inl e | Inr b \<Rightarrow> ParsePubKey K (4 # b))"

text \<open>\<open>publicKey[2:]\<close> panics on a string of fewer than two bytes.\<close>

definition slice_from :: "nat \<Rightarrow> 'a list \<Rightarrow> 'a list res" where
  "slice_from n xs = (if n \<le> length xs then Ok (drop n xs) else Panic)"

definition BTCPubKeyFromEthereumPublicKey :: "crypto \<Rightarrow> string \<Rightarrow> pubkey res" where
  "BTCPubKeyFromEthereumPublicKey K publicKey =
     bind_res (slice_from 2 publicKey) (\<lambda>s. of_sum (BTCPubKeyFromUncompressedHex K s))"

definition KeyPairFromFetchAIKey :: "crypto \<Rightarrow> string \<Rightarrow> err + (privkey \<times> pubkey)" where
  "KeyPairFromFetchAIKey K key =
     (case hex_decode key of
        Inl e \<Rightarrow> Inl e
      | Inr pkBytes \<Rightarrow>
          (case PrivKeyFromBytes K pkBytes of
             (btcPrivateKey, _) \<Rightarrow> KeyPairFromStdKey K btcPrivateKey))"

definition FetchAIPublicKeyFromFetchAIPrivateKey :: "crypto \<Rightarrow> string \<Rightarrow> err + string" where
  "FetchAIPublicKeyFromFetchAIPrivateKey K privateKey =
     (case hex_decode privateKey of
        Inl e \<Rightarrow> Inl e
      | Inr pkBytes \<Rightarrow>
          (case PrivKeyFromBytes K pkBytes of
             (_, btcPublicKey) \<Rightarrow> Inr (EncodeToString (SerializeCompressed K btcPublicKey))))"

definition IDFromFetchAIPublicKey :: "crypto \<Rightarrow> string \<Rightarrow> err + peerID" where
  "IDFromFetchAIPublicKey K publicKey =
     (case hex_decode publicKey of
        Inl e \<Rightarrow> Inl e
      | Inr b \<Rightarrow> (case ParsePubKey K b of Inl e \<Rightarrow> Inl e | Inr pubKey \<Rightarrow> IDFromPublicKey K pubKey))"

definition IDFromFetchAIPublicKeyUncompressed :: "crypto \<Rightarrow> string \<Rightarrow> err + peerID" where
  "IDFromFetchAIPublicKeyUncompressed K publicKey =
     (case BTCPubKeyFromUncompressedHex K publicKey of
        Inl e \<Rightarrow> Inl e
      | Inr pubKey \<Rightarrow> IDFromPublicKey K pubKey)"

definition ComputeCID :: "crypto \<Rightarrow> string \<Rightarrow> err + bytes" where
  "ComputeCID K addr = cid_Sum K (to_bytes addr)"

section \<open>Signatures\<close>

definition secp256k1SignatureComponentSize :: nat where
  "secp256k1SignatureComponentSize = 32"

definition padToLeft :: "bytes \<Rightarrow> nat \<Rightarrow> bytes" where
  "padToLeft b n = (if length b \<ge> n then b else replicate (n - length b) 0 @ b)"

text \<open>\<open>copy(dst[off:], src)\<close>: as many bytes as fit.\<close>

definition copy_at :: "nat \<Rightarrow> bytes \<Rightarrow> bytes \<Rightarrow> bytes" where
  "copy_at off dst src =
     take off dst @ take (length dst - off) src @ drop (off + length src) dst"

definition ConvertStrEncodedSignatureToDER :: "bytes \<Rightarrow> err + bytes" where
  "ConvertStrEncodedSignatureToDER signature =
     (if length signature \<noteq> 2 * secp256k1SignatureComponentSize
      then Inl (ErrMsg (''invalid secp256k1 signature length: got '' @ itoa (length signature)
        @ '', want 64 (32-byte R || 32-byte S)''))
      else let rb = take secp256k1SignatureComponentSize signature;
               sb = drop secp256k1SignatureComponentSize signature
           in Inr (asn1_Marshal_RS (SetBytes rb) (SetBytes sb)))"

definition ConvertDEREncodedSignatureToStr :: "bytes \<Rightarrow> err + bytes" where
  "ConvertDEREncodedSignatureToStr signature =
     (case asn1_Unmarshal_RS signature of
        Inl e \<Rightarrow> Inl e
      | Inr (r, s) \<Rightarrow>
          (let out = replicate (2 * secp256k1SignatureComponentSize) 0;
               out1 = copy_at 0 out
                 (padToLeft (IntBytes (nat \<bar>r\<bar>)) secp256k1SignatureComponentSize)
           in Inr (copy_at secp256k1SignatureComponentSize out1
                (padToLeft (IntBytes (nat \<bar>s\<bar>)) secp256k1SignatureComponentSize))))"

definition ParseFetchAISignature :: "crypto \<Rightarrow> string \<Rightarrow> err + ecdsa_sig" where
  "ParseFetchAISignature K signature =
     (case b64_Decode signature of
        Inl e \<Rightarrow> Inl e
      | Inr sigBytes \<Rightarrow>
          (case ConvertStrEncodedSignatureToDER sigBytes of
             Inl e \<Rightarrow> Inl e
           | Inr sigDER \<Rightarrow> ParseDERSignature K sigDER))"

definition VerifyFetchAISignatureBTC :: "crypto \<Rightarrow> bytes \<Rightarrow> string \<Rightarrow> string \<Rightarrow> err + bool" where
  "VerifyFetchAISignatureBTC K message signature pubkey =
     (case BTCPubKeyFromFetchAIPublicKey K pubkey of
        Inl e \<Rightarrow> Inl e
      | Inr verifyKey \<Rightarrow>
          (case ParseFetchAISignature K signature of
             Inl e \<Rightarrow> Inl e
           | Inr signatureBTC \<Rightarrow> Inr (ecdsa_Verify K signatureBTC (sha256 K message) verifyKey)))"

definition VerifyFetchAISignatureLibp2p :: "crypto \<Rightarrow> bytes \<Rightarrow> string \<Rightarrow> string \<Rightarrow> err + bool" where
  "VerifyFetchAISignatureLibp2p K message signature pubkey =
     (case PubKeyFromFetchAIPublicKey K pubkey of
        Inl e \<Rightarrow> Inl e
      | Inr verifyKey \<Rightarrow>
          (case b64_Decode signature of
             Inl e \<Rightarrow> Inl e
           | Inr sigBytes \<Rightarrow>
               (case ConvertStrEncodedSignatureToDER sigBytes of
                  Inl e \<Rightarrow> Inl e
                | Inr sigDER \<Rightarrow> p2p_Verify K verifyKey message sigDER)))"

definition SignFetchAI :: "crypto \<Rightarrow> bytes \<Rightarrow> string \<Rightarrow> err + string" where
  "SignFetchAI K message privKey =
     (case KeyPairFromFetchAIKey K privKey of
        Inl e \<Rightarrow> Inl e
      | Inr (signingKey, _) \<Rightarrow>
          (case p2p_Sign K signingKey message of
             Inl e \<Rightarrow> Inl e
           | Inr signature \<Rightarrow>
               (case ConvertDEREncodedSignatureToStr signature of
                  Inl e \<Rightarrow> Inl e
                | Inr strSignature \<Rightarrow> Inr (b64_Encode strSignature))))"

definition signHashETH :: "crypto \<Rightarrow> bytes \<Rightarrow> bytes" where
  "signHashETH K data =
     keccak256 K (to_bytes (CHR 0x19 # ''Ethereum Signed Message:'' @ [CHR 0x0A] @ itoa (length data)) @ data)"

text \<open>\<open>sigBytes[64]\<close> panics on a signature of fewer than 65 bytes.\<close>

definition RecoverAddressFromEthereumSignature :: "crypto \<Rightarrow> bytes \<Rightarrow> string \<Rightarrow> string res" where
  "RecoverAddressFromEthereumSignature K message signature =
     (case hexutil_Decode K signature of
        Inl e \<Rightarrow> Err e
      | Inr sigBytes \<Rightarrow>
          if length sigBytes \<le> 64 then Panic
          else if sigBytes ! 64 \<noteq> 27 \<and> sigBytes ! 64 \<noteq> 28
          then Err (ErrMsg ''invalid Ethereum signature (V is not 27 or 28)'')
          else (case SigToPub K (signHashETH K message) (sigBytes[64 := sigBytes ! 64 - 27]) of
                  Inl e \<Rightarrow> Err e
                | Inr recoveredPubKey \<Rightarrow> Ok (PubkeyToAddressHex K recoveredPubKey)))"

section \<open>Addresses\<close>

definition cosmosAddressFromPublicKeyWithPrefix :: "crypto \<Rightarrow> string \<Rightarrow> string \<Rightarrow> err + string" where
  "cosmosAddressFromPublicKeyWithPrefix K pre publicKey =
     (case hex_decode publicKey of
        Inl e \<Rightarrow> Inl e
      | Inr hexBytes \<Rightarrow>
          (case ConvertBits K (ripemd160 K (sha256 K hexBytes)) 8 5 True of
             Inl e \<Rightarrow> Inl e
           | Inr fiveBitsChar \<Rightarrow> bech32_Encode K pre fiveBitsChar))"

definition FetchAIAddressFromPublicKey :: "crypto \<Rightarrow> string \<Rightarrow> err + string" where
  "FetchAIAddressFromPublicKey K publicKey = cosmosAddressFromPublicKeyWithPrefix K ''fetch'' publicKey"

definition CosmosAddressFromPublicKey :: "crypto \<Rightarrow> string \<Rightarrow> err + string" where
  "CosmosAddressFromPublicKey K publicKey = cosmosAddressFromPublicKeyWithPrefix K ''cosmos'' publicKey"

text \<open>The loop of \<open>encodeChecksumEIP55\<close> from index \<open>i\<close>: a letter becomes upper case when the nibble of
  the hash at its index is above 7. The hash is indexed at \<open>i / 2\<close>.\<close>

fun eip55_loop :: "bytes \<Rightarrow> nat \<Rightarrow> bytes \<Rightarrow> bytes res" where
  "eip55_loop hash i [] = Ok []"
| "eip55_loop hash i (c # cs) =
     (if i div 2 \<ge> length hash then Panic
      else let hashByte = (if i mod 2 = 0 then drop_bit 4 (hash ! (i div 2))
                           else hash ! (i div 2) AND 0xf);
               c' = (if c > 57 \<and> hashByte > 7 then c - 32 else c)
           in bind_res (eip55_loop hash (Suc i) cs) (\<lambda>r. Ok (c' # r)))"

definition encodeChecksumEIP55 :: "crypto \<Rightarrow> bytes \<Rightarrow> string res" where
  "encodeChecksumEIP55 K addr =
     (let unchecksummed = EncodeToString addr;
          hash = keccak256 K (to_bytes unchecksummed)
      in bind_res (eip55_loop hash 0 (to_bytes unchecksummed)) (\<lambda>r. Ok (''0x'' @ of_bytes r)))"

definition EthereumAddressFromPublicKey :: "crypto \<Rightarrow> string \<Rightarrow> string res" where
  "EthereumAddressFromPublicKey K publicKey =
     bind_res (slice_from 2 publicKey) (\<lambda>s.
       case hex_decode s of
         Inl e \<Rightarrow> Err e
       | Inr hexBytes \<Rightarrow>
           bind_res (slice_from 12 (keccak256 K hexBytes)) (\<lambda>a. encodeChecksumEIP55 K a))"

definition VerifyEthereumSignatureETH :: "crypto \<Rightarrow> bytes \<Rightarrow> string \<Rightarrow> string \<Rightarrow> bool res" where
  "VerifyEthereumSignatureETH K message signature pubkey =
     bind_res (EthereumAddressFromPublicKey K pubkey) (\<lambda>expectedAddress.
       bind_res (RecoverAddressFromEthereumSignature K message signature) (\<lambda>recoveredAddress.
         if recoveredAddress \<noteq> expectedAddress
         then Err (ErrMsg ''recovered and expected addresses don't match'')
         else Ok True))"

section \<open>Dispatch on the ledger\<close>

definition addressFromPublicKeyTable :: "crypto \<Rightarrow> string \<rightharpoonup> (string \<Rightarrow> string res)" where
  "addressFromPublicKeyTable K =
     [''fetchai'' \<mapsto> (\<lambda>k. of_sum (FetchAIAddressFromPublicKey K k)),
      ''cosmos'' \<mapsto> (\<lambda>k. of_sum (CosmosAddressFromPublicKey K k)),
      ''ethereum'' \<mapsto> EthereumAddressFromPublicKey K]"

definition verifyLedgerSignatureTable :: "crypto \<Rightarrow> string \<rightharpoonup> (bytes \<Rightarrow> string \<Rightarrow> string \<Rightarrow> bool res)" where
  "verifyLedgerSignatureTable K =
     [''fetchai'' \<mapsto> (\<lambda>m s k. of_sum (VerifyFetchAISignatureBTC K m s k)),
      ''cosmos'' \<mapsto> (\<lambda>m s k. of_sum (VerifyFetchAISignatureBTC K m s k)),
      ''ethereum'' \<mapsto> VerifyEthereumSignatureETH K]"

definition VerifyLedgerSignature :: "crypto \<Rightarrow> string \<Rightarrow> bytes \<Rightarrow> string \<Rightarrow> string \<Rightarrow> bool res" where
  "VerifyLedgerSignature K ledgerID message signature pubKey =
     (case verifyLedgerSignatureTable K ledgerID of
        Some verifySignature \<Rightarrow> verifySignature message signature pubKey
      | None \<Rightarrow> Err (ErrMsg ''unsupported ledger''))"

definition AgentAddressFromPublicKey :: "crypto \<Rightarrow> string \<Rightarrow> string \<Rightarrow> string res" where
  "AgentAddressFromPublicKey K ledgerID publicKey =
     (case addressFromPublicKeyTable K ledgerID of
        Some addressFromPublicKey \<Rightarrow> addressFromPublicKey publicKey
      | None \<Rightarrow> Err (ErrMsg (''Unsupported ledger '' @ ledgerID)))"

section \<open>Signature encodings\<close>

lemma takeWhile_zeros: "takeWhile (\<lambda>b. b = 0) bs = replicate (length (takeWhile (\<lambda>b. b = 0) bs)) (0 :: byte)"
  by (rule replicate_length_same [symmetric]) (blast dest: set_takeWhileD)

lemma zeros_dropWhile: "replicate (length bs - length (dropWhile (\<lambda>b. b = 0) bs)) 0 @ dropWhile (\<lambda>b. b = 0) bs
    = (bs :: bytes)"
proof -
  have "length bs = length (takeWhile (\<lambda>b. b = 0) bs) + length (dropWhile (\<lambda>b. b = 0) bs)"
    by (metis length_append takeWhile_dropWhile_id)
  then have "length bs - length (dropWhile (\<lambda>b. b = 0) bs) = length (takeWhile (\<lambda>b. b = 0) bs)"
    by simp
  then show ?thesis by (simp only: takeWhile_zeros [symmetric] takeWhile_dropWhile_id)
qed

lemma padToLeft_IntBytes: "padToLeft (IntBytes (SetBytes bs)) (length bs) = bs"
proof -
  have "padToLeft d n = replicate (n - length d) 0 @ d" for d n
    by (simp add: padToLeft_def)
  then show ?thesis by (simp only: IntBytes_SetBytes zeros_dropWhile)
qed

lemma length_padToLeft: "length b \<le> n \<Longrightarrow> length (padToLeft b n) = n"
  by (simp add: padToLeft_def)

lemma SetBytes_replicate: "SetBytes (replicate n 0 @ b) = SetBytes b"
  by (induction n) simp_all

lemma SetBytes_padToLeft: "SetBytes (padToLeft (IntBytes n) k) = n"
  by (simp add: padToLeft_def SetBytes_replicate)

lemma copy_halves:
  assumes "length a = n" and "length b = n" and "length z = 2 * n"
  shows "copy_at n (copy_at 0 z a) b = a @ b"
  using assms by (simp add: copy_at_def)

lemma pow_256_32: "(256 :: nat) ^ 32 = 2 ^ 256"
proof -
  have "(256 :: nat) = 2 ^ 8" by simp
  then show ?thesis by (simp only: power_mult [symmetric]) simp
qed

lemma DERToStr_Marshal:
  assumes "r < 256 ^ 32" and "s < 256 ^ 32"
  shows "ConvertDEREncodedSignatureToStr (asn1_Marshal_RS r s)
    = Inr (padToLeft (IntBytes r) 32 @ padToLeft (IntBytes s) 32)"
proof -
  have l: "length (padToLeft (IntBytes r) 32) = 32" "length (padToLeft (IntBytes s) 32) = 32"
    using assms by (simp_all add: length_padToLeft length_IntBytes_le)
  have "copy_at 32 (copy_at 0 (replicate 64 0) (padToLeft (IntBytes r) 32)) (padToLeft (IntBytes s) 32)
      = padToLeft (IntBytes r) 32 @ padToLeft (IntBytes s) 32"
    using l by (intro copy_halves) simp_all
  then show ?thesis
    by (simp add: ConvertDEREncodedSignatureToStr_def asn1_roundtrip [OF assms]
        secp256k1SignatureComponentSize_def)
qed

lemma StrToDER_halves:
  assumes "length a = 32" and "length b = 32"
  shows "ConvertStrEncodedSignatureToDER (a @ b) = Inr (asn1_Marshal_RS (SetBytes a) (SetBytes b))"
  using assms
  by (simp add: ConvertStrEncodedSignatureToDER_def secp256k1SignatureComponentSize_def Let_def)

lemma signature_str_der_str:
  assumes "length sig = 64"
  shows "\<exists>der. ConvertStrEncodedSignatureToDER sig = Inr der \<and> ConvertDEREncodedSignatureToStr der = Inr sig"
proof -
  let ?a = "take 32 sig" and ?b = "drop 32 sig"
  have l: "length ?a = 32" "length ?b = 32" using assms by simp_all
  have bound: "SetBytes ?a < 256 ^ 32" "SetBytes ?b < 256 ^ 32"
    using SetBytes_bound [of ?a] SetBytes_bound [of ?b] l by simp_all
  have "ConvertStrEncodedSignatureToDER sig = Inr (asn1_Marshal_RS (SetBytes ?a) (SetBytes ?b))"
    using StrToDER_halves [OF l] by simp
  moreover have "ConvertDEREncodedSignatureToStr (asn1_Marshal_RS (SetBytes ?a) (SetBytes ?b)) = Inr sig"
    using DERToStr_Marshal [OF bound] padToLeft_IntBytes [of ?a] padToLeft_IntBytes [of ?b] l
    by simp
  ultimately show ?thesis by blast
qed

lemma signature_der_str_der:
  assumes "r < 256 ^ 32" and "s < 256 ^ 32"
  shows "\<exists>str. ConvertDEREncodedSignatureToStr (asn1_Marshal_RS r s) = Inr str \<and> length str = 64
    \<and> ConvertStrEncodedSignatureToDER str = Inr (asn1_Marshal_RS r s)"
proof -
  have l: "length (padToLeft (IntBytes r) 32) = 32" "length (padToLeft (IntBytes s) 32) = 32"
    using assms by (simp_all add: length_padToLeft length_IntBytes_le)
  show ?thesis
    using DERToStr_Marshal [OF assms] StrToDER_halves [OF l] l by (simp add: SetBytes_padToLeft)
qed

section \<open>The address checksum\<close>

text \<open>The nibble of the hash that decides the case of the \<open>i\<close>-th letter, and the rule of EIP-55.\<close>

definition hash_nibble :: "bytes \<Rightarrow> nat \<Rightarrow> nat" where
  "hash_nibble hash i =
     (if even i then unat (hash ! (i div 2)) div 16 else unat (hash ! (i div 2)) mod 16)"

definition eip55_char :: "bytes \<Rightarrow> nat \<Rightarrow> byte \<Rightarrow> byte" where
  "eip55_char hash i c = (if c > 57 \<and> hash_nibble hash i > 7 then c - 32 else c)"

lemma nibble_high: "(drop_bit 4 (b :: byte) > 7) = (unat b div 16 > 7)"
proof -
  have "unat (drop_bit 4 b) = unat b div 16"
    by (simp add: drop_bit_eq_div unat_div_distrib)
  then show ?thesis by (simp add: word_less_nat_alt)
qed

lemma nibble_low: "((b :: byte) AND 0xf > 7) = (unat b mod 16 > 7)"
proof -
  have "unat (b AND 0xf) = unat b mod 16"
  proof -
    have "(0xf :: byte) = mask 4" by (simp add: mask_eq_exp_minus_1)
    then have "b AND 0xf = take_bit 4 b" by (simp add: take_bit_eq_mask)
    then show ?thesis by (simp add: take_bit_eq_mod unat_mod_distrib)
  qed
  then show ?thesis by (simp add: word_less_nat_alt)
qed

lemma eip55_loop_spec:
  "i + length cs \<le> 2 * length hash \<Longrightarrow>
    eip55_loop hash i cs = Ok (map (\<lambda>(j, c). eip55_char hash j c) (enumerate i cs))"
proof (induction cs arbitrary: i)
  case (Cons c cs)
  have "i div 2 < length hash" using Cons.prems by auto
  with Cons show ?case
    by (simp add: eip55_char_def hash_nibble_def nibble_high nibble_low even_iff_mod_2_eq_zero)
qed simp

lemma hexdigit_upper:
  assumes "n < 16" and "of_char (hexdigit n) > (57 :: byte)"
  shows "fromHexChar (char_of (unat (of_char (hexdigit n) - 32 :: byte))) = Some n"
proof -
  have "n \<in> set [10, 11, 12, 13, 14, 15]"
    using assms unfolding below_16 by (auto simp: hexdigit_def)
  then show ?thesis by (auto simp: hexdigit_def fromHexChar_def Let_def)
qed

lemma fromHexChar_eip55:
  "n < 16 \<Longrightarrow> fromHexChar (char_of (unat (eip55_char hash i (of_char (hexdigit n))))) = Some n"
  by (auto simp: eip55_char_def hexdigit_upper unat_of_char)

lemma DecodeString_cong:
  "map fromHexChar s = map fromHexChar t \<Longrightarrow> DecodeString s = DecodeString t"
proof (induction s arbitrary: t rule: DecodeString.induct)
  case (2 p)
  then obtain q where "t = [q]" by (cases t) auto
  with 2 show ?case by simp
next
  case (3 p q s)
  then obtain p' q' s' where "t = p' # q' # s'" by (cases t; cases "tl t") auto
  with 3 show ?case by (auto split: option.splits prod.splits)
qed simp

lemma eip55_map_hex:
  "map (\<lambda>c. fromHexChar (char_of (unat c)))
      (map (\<lambda>(j, c). eip55_char hash j c) (enumerate i (to_bytes (EncodeToString bs))))
    = map fromHexChar (EncodeToString bs)"
  by (induction bs arbitrary: i) (simp_all add: to_bytes_def fromHexChar_eip55)

lemma of_char_of_unat: "of_char (char_of (unat b)) = (b :: byte)"
proof -
  have "(of_char (char_of (unat b)) :: nat) = unat b" by (simp add: of_char_of)
  then have "(of_nat (of_char (char_of (unat b)) :: nat) :: byte) = b" by simp
  then show ?thesis by (simp only: of_nat_of_char)
qed

lemma to_bytes_of_bytes [simp]: "to_bytes (of_bytes b) = b"
  by (simp add: to_bytes_def of_bytes_def comp_def of_char_of_unat)

lemma encodeChecksumEIP55_spec:
  assumes "length (keccak256 K (to_bytes (EncodeToString a))) \<ge> length a"
  shows "\<exists>s. encodeChecksumEIP55 K a = Ok (''0x'' @ s) \<and> DecodeString s = (a, None) \<and> length s = 2 * length a
    \<and> to_bytes s = map (\<lambda>(j, c). eip55_char (keccak256 K (to_bytes (EncodeToString a))) j c)
        (enumerate 0 (to_bytes (EncodeToString a)))"
proof -
  let ?h = "keccak256 K (to_bytes (EncodeToString a))"
  let ?r = "map (\<lambda>(j, c). eip55_char ?h j c) (enumerate 0 (to_bytes (EncodeToString a)))"
  have "eip55_loop ?h 0 (to_bytes (EncodeToString a)) = Ok ?r"
    using assms by (intro eip55_loop_spec) simp
  then have "encodeChecksumEIP55 K a = Ok (''0x'' @ of_bytes ?r)"
    by (simp add: encodeChecksumEIP55_def Let_def)
  moreover have "DecodeString (of_bytes ?r) = DecodeString (EncodeToString a)"
    using eip55_map_hex [of ?h 0 a] by (intro DecodeString_cong) (simp add: of_bytes_def comp_def)
  ultimately show ?thesis by (auto simp: DecodeString_EncodeToString)
qed

section \<open>Tables and verdicts\<close>

lemma ledger_tables:
  "addressFromPublicKeyTable K l = None \<longleftrightarrow> l \<notin> {''fetchai'', ''cosmos'', ''ethereum''}"
  "verifyLedgerSignatureTable K l = None \<longleftrightarrow> l \<notin> {''fetchai'', ''cosmos'', ''ethereum''}"
  by (auto simp: addressFromPublicKeyTable_def verifyLedgerSignatureTable_def)

lemma VerifyEthereum_not_False: "VerifyEthereumSignatureETH K m s k \<noteq> Ok False"
  by (simp add: VerifyEthereumSignatureETH_def)

text \<open>No helper waits for anything: each returns or panics.\<close>

lemma bind_res_Block: "bind_res r f = Block \<longleftrightarrow> r = Block \<or> (\<exists>a. r = Ok a \<and> f a = Block)"
  by (cases r) auto

lemma eip55_loop_not_Block: "eip55_loop h i cs \<noteq> Block"
  by (induction h i cs rule: eip55_loop.induct) (simp_all add: bind_res_Block Let_def)

lemma EthereumAddress_not_Block: "EthereumAddressFromPublicKey K k \<noteq> Block"
  by (simp add: EthereumAddressFromPublicKey_def encodeChecksumEIP55_def slice_from_def bind_res_Block
      eip55_loop_not_Block Let_def split: sum.splits)

lemma RecoverAddress_not_Block: "RecoverAddressFromEthereumSignature K m s \<noteq> Block"
  by (simp add: RecoverAddressFromEthereumSignature_def split: sum.splits)

lemma VerifyLedgerSignature_not_Block: "VerifyLedgerSignature K l m s k \<noteq> Block"
  by (simp add: VerifyLedgerSignature_def verifyLedgerSignatureTable_def VerifyEthereumSignatureETH_def
      bind_res_Block EthereumAddress_not_Block RecoverAddress_not_Block)

lemma AgentAddress_not_Block: "AgentAddressFromPublicKey K l k \<noteq> Block"
  by (simp add: AgentAddressFromPublicKey_def addressFromPublicKeyTable_def EthereumAddress_not_Block)

section \<open>Example libraries\<close>

text \<open>Concrete libraries for the witnesses: the hashes are the identity, every well-formed signature
  verifies, the peer of key \<open>n\<close> has the identity \<open>p\<dots>p\<close> of length \<open>n\<close>.\<close>

definition ex_crypto :: crypto where
  "ex_crypto =
     \<lparr>sha256 = (\<lambda>b. b), ripemd160 = (\<lambda>b. b), keccak256 = (\<lambda>b. b), ConvertBits = (\<lambda>b f t p. Inr b),
      bech32_Encode = (\<lambda>p b. Inr (p @ of_bytes b)), ParsePubKey = (\<lambda>b. Inr (0, SetBytes b)),
      SerializeCompressed = (\<lambda>k. [of_nat (snd k)]), PrivKeyFromBytes = (\<lambda>b. (SetBytes b, 0, SetBytes b)),
      ParseDERSignature = (\<lambda>b. Inr (1, 1)), ecdsa_Verify = (\<lambda>sg h k. True),
      UnmarshalSecp256k1PublicKey = (\<lambda>b. Inr (0, SetBytes b)), pubkey_Raw = (\<lambda>k. Inr [of_nat (snd k)]),
      p2p_Verify = (\<lambda>k m sg. Inr True), p2p_Sign = (\<lambda>k m. Inr (asn1_Marshal_RS 1 1)),
      KeyPairFromStdKey = (\<lambda>k. Inr (k, 0, k)), IDFromPublicKey = (\<lambda>k. Inr (replicate (snd k) CHR ''p'')),
      hexutil_Decode = (\<lambda>s. Inl (ErrMsg s)), SigToPub = (\<lambda>h sg. Inr (0, 0)),
      PubkeyToAddressHex = (\<lambda>k. []), cid_Sum = (\<lambda>b. Inr b), peer_Decode = Inr, peer_String = (\<lambda>p. p)\<rparr>"

section \<open>Properties of signatures and addresses\<close>

text \<open>C22: Converting a 64-byte signature to DER and back gives the same 64 bytes, leading zeros of both halves
  included.\<close>

theorem signature_str_roundtrip:
  assumes "length sig = 64"
  shows "\<exists>der. ConvertStrEncodedSignatureToDER sig = Inr der \<and> ConvertDEREncodedSignatureToStr der = Inr sig"
  using signature_str_der_str [OF assms] .

lemma signature_str_roundtrip_witness:
  "\<exists>der. ConvertStrEncodedSignatureToDER (replicate 63 0 @ [7]) = Inr der
    \<and> ConvertDEREncodedSignatureToStr der = Inr (replicate 63 0 @ [7])"
  using signature_str_roundtrip [of "replicate 63 0 @ [7]"] by simp

text \<open>C32: What \<open>SignFetchAI\<close> produces from the library's signature \<open>(r, s)\<close> is read back by the verifier as that
  same signature, for all \<open>r\<close> and \<open>s\<close> of 256 bits.\<close>

theorem SignFetchAI_parses_back:
  assumes "KeyPairFromFetchAIKey K key = Inr (sk, pk)" and "p2p_Sign K sk message = Inr (asn1_Marshal_RS r s)"
    and "r < 256 ^ 32" and "s < 256 ^ 32"
  shows "\<exists>str. SignFetchAI K message key = Inr str
    \<and> ParseFetchAISignature K str = ParseDERSignature K (asn1_Marshal_RS r s)"
proof -
  obtain str where "ConvertDEREncodedSignatureToStr (asn1_Marshal_RS r s) = Inr str"
      "ConvertStrEncodedSignatureToDER str = Inr (asn1_Marshal_RS r s)"
    using signature_der_str_der [OF assms(3,4)] by blast
  with assms(1,2) show ?thesis
    by (simp add: SignFetchAI_def ParseFetchAISignature_def b64_roundtrip)
qed

lemma SignFetchAI_parses_back_witness:
  "\<exists>str. SignFetchAI ex_crypto [1, 2] [] = Inr str
    \<and> ParseFetchAISignature ex_crypto str = ParseDERSignature ex_crypto (asn1_Marshal_RS 1 1)"
  using SignFetchAI_parses_back [of ex_crypto "[]" 0 "(0, 0)" "[1, 2]" 1 1]
  by (simp add: KeyPairFromFetchAIKey_def hex_decode_def ex_crypto_def)

text \<open>C31: The checksummed address is the hexadecimal text of the address in which exactly the letters at the
  indices of high hash nibbles are in upper case, so decoding it gives the address again.\<close>

theorem encodeChecksumEIP55_correct:
  assumes "length (keccak256 K (to_bytes (EncodeToString a))) \<ge> length a"
  shows "\<exists>s. encodeChecksumEIP55 K a = Ok (''0x'' @ s) \<and> DecodeString s = (a, None) \<and> length s = 2 * length a
    \<and> to_bytes s = map (\<lambda>(j, c). eip55_char (keccak256 K (to_bytes (EncodeToString a))) j c)
        (enumerate 0 (to_bytes (EncodeToString a)))"
  using encodeChecksumEIP55_spec [OF assms] .

lemma encodeChecksumEIP55_correct_witness:
  "\<exists>s. encodeChecksumEIP55 ex_crypto [171, 1] = Ok (''0x'' @ s) \<and> DecodeString s = ([171, 1], None) \<and> length s = 4"
  using encodeChecksumEIP55_correct [of "[171, 1]" ex_crypto] by (force simp: ex_crypto_def)

end
