(* ===== verification/DhtNode.thy ===== *)
theory DhtNode
  imports Acn Ledger
begin

text \<open>
  \<open>dht/dhtnode\<close>: the names of the protocol's streams, what peers and clients share for their bootstrap
  peers (from \<open>utils/utils.go\<close>) and the check of a proof of representation. An agent record claims that the
  owner of \<open>PublicKey\<close>, whose address on the ledger is \<open>Address\<close>, is represented in the network by
  the peer of \<open>PeerPublicKey\<close>; the signature over that peer's key proves it.

  The facts: the check succeeds exactly on the records whose five conditions hold, its status is
  \<open>SUCCESS\<close> exactly when it returns no error, and each way of failing has its own code, decided
  in the order of the code. A record that is nil is a nil dereference.
\<close>

section \<open>Streams and scripts\<close>

definition AeaNotifStream :: string where
  "AeaNotifStream = ''/aea-notif/0.1.0''"

definition AeaAddressStream :: string where
  "AeaAddressStream = ''/aea-address/0.1.0''"

definition AeaEnvelopeStream :: string where
  "AeaEnvelopeStream = ''/aea/0.1.0''"

definition AeaRegisterRelayStream :: string where
  "AeaRegisterRelayStream = ''/aea-register/0.1.0''"

text \<open>The answers of the network are scripts in the states of the nodes, consumed in order; a script
  that has run out gives the default answer.\<close>

definition script_pop :: "'a \<Rightarrow> 'a list \<Rightarrow> 'a \<times> 'a list" where
  "script_pop d xs = (case xs of [] \<Rightarrow> (d, []) | y # ys \<Rightarrow> (y, ys))"

section \<open>Bootstrap peers\<close>

text \<open>\<open>BootstrapConnect\<close> with the errors of the failed \<open>Connect\<close> calls in the order in which they
  arrive, and whether a peer shows up in the routing table in time.\<close>

definition BootstrapConnect :: "crypto \<Rightarrow> peerID list \<Rightarrow> err list \<Rightarrow> (peerID \<Rightarrow> bool) \<Rightarrow> err option" where
  "BootstrapConnect K peers errs found =
     (if length peers < 1 then Some (ErrMsg ''not enough bootstrap peers'')
      else if length errs = length peers then Some (ErrMsg (''failed to bootstrap: '' @ Error (last errs)))
      else case find (\<lambda>p. \<not> found p) peers of
        Some p \<Rightarrow>
          Some (ErrMsg (''timeout: entry peer haven't been added to DHT routing table '' @ peer_String K p))
      | None \<Rightarrow> None)"

text \<open>The address library: \<open>multiaddr.NewMultiaddr\<close> (\<open>StringCast\<close> is the same with a panic for the error) and
  \<open>peer.AddrInfoFromP2pAddr\<close>.\<close>

record maddr_lib =
  NewMultiaddr :: "string \<Rightarrow> err + string"
  AddrInfoFromP2pAddr :: "string \<Rightarrow> err + peerID"

fun GetPeersAddrInfo :: "maddr_lib \<Rightarrow> string list \<Rightarrow> peerID list res" where
  "GetPeersAddrInfo L [] = Ok []"
| "GetPeersAddrInfo L (addr # peers) =
     (case NewMultiaddr L addr of
        Inl e \<Rightarrow> Panic
      | Inr maddr \<Rightarrow>
          (case AddrInfoFromP2pAddr L maddr of
             Inl e \<Rightarrow> Err e
           | Inr p \<Rightarrow> bind_res (GetPeersAddrInfo L peers) (\<lambda>pinfos. Ok (p # pinfos))))"

section \<open>Proofs of representation\<close>

definition DefaultLedger :: string where
  "DefaultLedger = ''fetchai''"

definition CurrentVersion :: string where
  "CurrentVersion = ''0.1.0''"

definition supportedLedgers :: "string list" where
  "supportedLedgers = [''fetchai'', ''cosmos'', ''ethereum'']"

definition IsValidProofOfRepresentation ::
  "crypto \<Rightarrow> AgentRecord option \<Rightarrow> string \<Rightarrow> string \<Rightarrow> (StatusBody \<times> err option) res" where
  "IsValidProofOfRepresentation K record agentAddress representativePeerPubKey =
     (case record of
        None \<Rightarrow> Panic
      | Some r \<Rightarrow>
          if Address r \<noteq> agentAddress
          then (let e = ErrMsg (''Wrong agent address, expected '' @ agentAddress) in
                Ok (\<lparr>Code = ERROR_WRONG_AGENT_ADDRESS, Msgs = [Error e]\<rparr>, Some e))
          else if LedgerId r \<notin> set supportedLedgers
          then (let e = ErrMsg (''Unsupported ledger '' @ LedgerId r @ '', expected ''
                          @ Join supportedLedgers '','') in
                Ok (\<lparr>Code = ERROR_UNSUPPORTED_LEDGER, Msgs = [Error e]\<rparr>, Some e))
          else if PeerPublicKey r \<noteq> representativePeerPubKey
          then (let e = ErrMsg (''Wrong peer public key, expected '' @ representativePeerPubKey) in
                Ok (\<lparr>Code = ERROR_WRONG_PUBLIC_KEY, Msgs = [Error e]\<rparr>, Some e))
          else case AgentAddressFromPublicKey K (LedgerId r) (PublicKey r) of
            Panic \<Rightarrow> Panic
          | Block \<Rightarrow> Block
          | Err e \<Rightarrow> Ok (\<lparr>Code = ERROR_WRONG_AGENT_ADDRESS, Msgs = []\<rparr>, Some e)
          | Ok addrFromPubKey \<Rightarrow>
              if addrFromPubKey \<noteq> Address r
              then Ok (\<lparr>Code = ERROR_WRONG_AGENT_ADDRESS, Msgs = []\<rparr>,
                       Some (ErrMsg ''agent address and public key don't match''))
              else case VerifyLedgerSignature K (LedgerId r) (to_bytes (PeerPublicKey r))
                     (Signature r) (PublicKey r) of
                Panic \<Rightarrow> Panic
              | Block \<Rightarrow> Block
              | Err e \<Rightarrow> Ok (\<lparr>Code = ERROR_INVALID_PROOF, Msgs = []\<rparr>, Some e)
              | Ok ok \<Rightarrow>
                  if \<not> ok
                  then Ok (\<lparr>Code = ERROR_INVALID_PROOF, Msgs = []\<rparr>,
                           Some (ErrMsg ''signature is not valid''))
                  else Ok (\<lparr>Code = SUCCESS, Msgs = []\<rparr>, None))"

text \<open>What a valid proof is: the specification of the check.\<close>

definition valid_proof :: "crypto \<Rightarrow> AgentRecord \<Rightarrow> string \<Rightarrow> string \<Rightarrow> bool" where
  "valid_proof K r agentAddress peerKey \<longleftrightarrow>
     Address r = agentAddress \<and> LedgerId r \<in> set supportedLedgers \<and>
     PeerPublicKey r = peerKey \<and>
     AgentAddressFromPublicKey K (LedgerId r) (PublicKey r) = Ok (Address r) \<and>
     VerifyLedgerSignature K (LedgerId r) (to_bytes (PeerPublicKey r)) (Signature r) (PublicKey r) = Ok True"

text \<open>A ledger whose address derivation and signature check do not panic on the record's strings.\<close>

definition ledger_total :: "crypto \<Rightarrow> AgentRecord \<Rightarrow> bool" where
  "ledger_total K r \<longleftrightarrow>
     AgentAddressFromPublicKey K (LedgerId r) (PublicKey r) \<noteq> Panic \<and>
     VerifyLedgerSignature K (LedgerId r) (to_bytes (PeerPublicKey r)) (Signature r) (PublicKey r) \<noteq> Panic"

lemma set_supportedLedgers: "set supportedLedgers = {''fetchai'', ''cosmos'', ''ethereum''}"
  by (simp add: supportedLedgers_def)

lemma PoR_success_iff:
  "(\<exists>st. IsValidProofOfRepresentation K (Some r) a k = Ok (st, None)) \<longleftrightarrow> valid_proof K r a k"
  by (auto simp: IsValidProofOfRepresentation_def valid_proof_def Let_def
      split: res.splits)

lemma PoR_valid:
  "valid_proof K r a k \<Longrightarrow>
    IsValidProofOfRepresentation K (Some r) a k = Ok (\<lparr>Code = SUCCESS, Msgs = []\<rparr>, None)"
  by (auto simp: IsValidProofOfRepresentation_def valid_proof_def)

lemma PoR_status_error:
  assumes "IsValidProofOfRepresentation K r a k = Ok (st, e)"
  shows "e = None \<longleftrightarrow> Code st = SUCCESS"
  using assms
  by (auto simp: IsValidProofOfRepresentation_def Let_def split: option.splits if_splits res.splits)

lemma PoR_not_Block: "IsValidProofOfRepresentation K r a k \<noteq> Block"
  by (auto simp: IsValidProofOfRepresentation_def Let_def VerifyLedgerSignature_not_Block
      AgentAddress_not_Block split: option.splits res.splits)

lemma PoR_not_Err: "IsValidProofOfRepresentation K r a k \<noteq> Err e"
  by (auto simp: IsValidProofOfRepresentation_def Let_def split: option.splits res.splits)

lemma PoR_total:
  assumes "ledger_total K r"
  shows "\<exists>st e. IsValidProofOfRepresentation K (Some r) a k = Ok (st, e)"
  using assms VerifyLedgerSignature_not_Block [of K "LedgerId r"] AgentAddress_not_Block [of K "LedgerId r"]
  by (auto simp: IsValidProofOfRepresentation_def Let_def ledger_total_def split: res.splits)

text \<open>The codes of the refusals, in the order of the checks.\<close>

lemma PoR_code:
  assumes "IsValidProofOfRepresentation K (Some r) a k = Ok (st, e)"
  shows "Code st =
    (if Address r \<noteq> a then ERROR_WRONG_AGENT_ADDRESS
     else if LedgerId r \<notin> set supportedLedgers then ERROR_UNSUPPORTED_LEDGER
     else if PeerPublicKey r \<noteq> k then ERROR_WRONG_PUBLIC_KEY
     else if AgentAddressFromPublicKey K (LedgerId r) (PublicKey r) \<noteq> Ok (Address r)
       then ERROR_WRONG_AGENT_ADDRESS
     else if VerifyLedgerSignature K (LedgerId r) (to_bytes (PeerPublicKey r)) (Signature r) (PublicKey r)
        \<noteq> Ok True then ERROR_INVALID_PROOF
     else SUCCESS)"
  using assms
  by (auto simp: IsValidProofOfRepresentation_def Let_def
      split: if_splits res.splits)

text \<open>Ledgers other than Ethereum never panic: only the Ethereum helpers slice and index unchecked.\<close>

lemma ledger_total_cosmos:
  "LedgerId r \<in> {''fetchai'', ''cosmos''} \<Longrightarrow> ledger_total K r"
  by (auto simp: ledger_total_def AgentAddressFromPublicKey_def VerifyLedgerSignature_def
      addressFromPublicKeyTable_def verifyLedgerSignatureTable_def)

section \<open>An example ledger\<close>

text \<open>Keys and records over the example libraries \<open>ex_crypto\<close>, for the witnesses.\<close>

definition ex_key :: "byte \<Rightarrow> string" where
  "ex_key b = EncodeToString [b]"

definition ex_record :: "byte \<Rightarrow> byte \<Rightarrow> AgentRecord" where
  "ex_record b peer =
     \<lparr>ServiceId = ''acn'', LedgerId = ''cosmos'', Address = ''cosmos'' @ of_bytes [b], PublicKey = ex_key b,
      PeerPublicKey = ex_key peer, Signature = b64_Encode (replicate 64 0), NotBefore = [], NotAfter = []\<rparr>"

lemma hex_decode_ex_key [simp]: "hex_decode (ex_key b) = Inr [b]"
  by (simp only: hex_decode_def ex_key_def DecodeString_EncodeToString) simp

lemma ex_address: "AgentAddressFromPublicKey ex_crypto ''cosmos'' (ex_key b) = Ok (''cosmos'' @ of_bytes [b])"
  by (simp add: AgentAddressFromPublicKey_def addressFromPublicKeyTable_def CosmosAddressFromPublicKey_def
      cosmosAddressFromPublicKeyWithPrefix_def ex_crypto_def)

lemma ex_signature:
  "VerifyLedgerSignature ex_crypto ''cosmos'' m (b64_Encode (replicate 64 0)) (ex_key b) = Ok True"
proof -
  have "length (replicate 64 (0 :: byte)) = 2 * secp256k1SignatureComponentSize"
    by (simp add: secp256k1SignatureComponentSize_def)
  then show ?thesis
    by (simp add: VerifyLedgerSignature_def verifyLedgerSignatureTable_def VerifyFetchAISignatureBTC_def
        BTCPubKeyFromFetchAIPublicKey_def ParseFetchAISignature_def b64_roundtrip
        ConvertStrEncodedSignatureToDER_def Let_def ex_crypto_def)
qed

lemma ex_valid: "valid_proof ex_crypto (ex_record b peer) (Address (ex_record b peer)) (ex_key peer)"
  by (simp add: valid_proof_def ex_record_def ex_address ex_signature set_supportedLedgers)

lemma ex_record_simps [simp]:
  "Address (ex_record 65 p) = ''cosmosA''" "Address (ex_record 66 p) = ''cosmosB''"
  "PeerPublicKey (ex_record b p) = ex_key p" "LedgerId (ex_record b p) = ''cosmos''"
  by (simp_all add: ex_record_def of_bytes_def char_of_def bit_0)

lemma ex_peer: "IDFromFetchAIPublicKey ex_crypto (ex_key b) = Inr (replicate (unat b) CHR ''p'')"
  by (simp add: IDFromFetchAIPublicKey_def ex_crypto_def SetBytes_def)

lemma ex_crypto_simps [simp]:
  "peer_String ex_crypto p = p" "peer_Decode ex_crypto q = Inr q" "IDFromPublicKey ex_crypto k = Inr (replicate (snd k) CHR ''p'')"
  "cid_Sum ex_crypto b = Inr b"
  by (simp_all add: ex_crypto_def)

lemma ex_pubkey: "FetchAIPublicKeyFromPubKey ex_crypto (0, n) = Inr (ex_key (of_nat n))"
  by (simp add: FetchAIPublicKeyFromPubKey_def ex_crypto_def ex_key_def)

section \<open>Properties of the check\<close>

text \<open>C1: The check of a proof of representation returns no error exactly for the records whose address, ledger
  and peer key are the expected ones, whose address is derived from their public key, and whose
  signature over the peer key verifies: it is sound and complete. The comparison of the peer key is the only
  condition on it: when the caller passes the empty string as the representative's key (what a failed key
  conversion leaves), a record with an empty \<open>PeerPublicKey\<close> passes it, which the repository's audit
  (item C2) lists as a defect and its test expects to be refused.\<close>

theorem PoR_sound_complete:
  "(\<exists>st. IsValidProofOfRepresentation K (Some r) a k = Ok (st, None)) \<longleftrightarrow>
    Address r = a \<and> LedgerId r \<in> {''fetchai'', ''cosmos'', ''ethereum''} \<and> PeerPublicKey r = k
    \<and> AgentAddressFromPublicKey K (LedgerId r) (PublicKey r) = Ok (Address r)
    \<and> VerifyLedgerSignature K (LedgerId r) (to_bytes (PeerPublicKey r)) (Signature r) (PublicKey r) = Ok True"
  using PoR_success_iff [of K r a k] by (simp only: valid_proof_def set_supportedLedgers)

text \<open>C34: The status code tells which condition failed first, in the order of the code, and it is \<open>SUCCESS\<close>
  exactly when there is no error. For an empty representative key a record with an empty \<open>PeerPublicKey\<close>
  is not given \<open>ERROR_WRONG_PUBLIC_KEY\<close>, contrary to what the audit's test of item C2 expects.\<close>

theorem PoR_status_code:
  assumes "IsValidProofOfRepresentation K (Some r) a k = Ok (st, e)"
  shows "Code st =
    (if Address r \<noteq> a then ERROR_WRONG_AGENT_ADDRESS
     else if LedgerId r \<notin> {''fetchai'', ''cosmos'', ''ethereum''} then ERROR_UNSUPPORTED_LEDGER
     else if PeerPublicKey r \<noteq> k then ERROR_WRONG_PUBLIC_KEY
     else if AgentAddressFromPublicKey K (LedgerId r) (PublicKey r) \<noteq> Ok (Address r)
       then ERROR_WRONG_AGENT_ADDRESS
     else if VerifyLedgerSignature K (LedgerId r) (to_bytes (PeerPublicKey r)) (Signature r) (PublicKey r)
        \<noteq> Ok True then ERROR_INVALID_PROOF
     else SUCCESS)
    \<and> (e = None \<longleftrightarrow> Code st = SUCCESS)"
  using PoR_code [OF assms] PoR_status_error [OF assms] by (simp only: set_supportedLedgers simp_thms)

lemma PoR_status_code_witness:
  "\<exists>st e. IsValidProofOfRepresentation ex_crypto (Some (ex_record 65 7)) ''cosmosA'' (ex_key 8) = Ok (st, e)
    \<and> Code st = ERROR_WRONG_PUBLIC_KEY"
proof -
  have k: "ex_key 7 \<noteq> ex_key 8" using hex_decode_ex_key [of 7] hex_decode_ex_key [of 8] by force
  obtain st e where "IsValidProofOfRepresentation ex_crypto (Some (ex_record 65 7)) ''cosmosA'' (ex_key 8) = Ok (st, e)"
    using PoR_total [OF ledger_total_cosmos] by force
  with PoR_status_code [OF this] k show ?thesis by auto
qed

text \<open>C40: A record of the Ethereum ledger whose public key has fewer than two characters makes the check
  panic (a slice out of range), where every other malformed record gets a status.\<close>

theorem PoR_short_ethereum_key_panics:
  assumes "LedgerId r = ''ethereum''" and "length (PublicKey r) < 2"
  shows "IsValidProofOfRepresentation K (Some r) (Address r) (PeerPublicKey r) = Panic"
  using assms
  by (simp add: IsValidProofOfRepresentation_def supportedLedgers_def AgentAddressFromPublicKey_def
      addressFromPublicKeyTable_def EthereumAddressFromPublicKey_def slice_from_def)

lemma PoR_short_ethereum_key_panics_witness:
  "IsValidProofOfRepresentation ex_crypto (Some ((ex_record 65 7)\<lparr>LedgerId := ''ethereum'', PublicKey := ''0''\<rparr>))
    (Address (ex_record 65 7)) (PeerPublicKey (ex_record 65 7)) = Panic"
  using PoR_short_ethereum_key_panics [of "(ex_record 65 7)\<lparr>LedgerId := ''ethereum'', PublicKey := ''0''\<rparr>" ex_crypto]
  by simp

end
