(* ===== verification/Mailbox.thy ===== *)
theory Mailbox
  imports DhtNode
begin

text \<open>
  \<open>dht/dhtpeer/mailbox.go\<close>: the HTTP mailbox of a peer. Agents register with a proof of
  representation, get a session, send through the peer and poll the envelopes that arrived for
  them.

  A handler is a function of the request and the server's maps; what it calls on the peer
  (\<open>CheckPOR\<close>, \<open>RegisterAgentAddress\<close>, \<open>RouteEnvelope\<close>) is an argument over the peer's state. A handler
  that holds the lock for its whole body is one step of the server, and registration is \<open>apiRegister\<close> itself with the
  peer's check of the proof; \<open>apiUnregister\<close> takes the lock twice, so the
  step relation of the server has it in two steps, between which other handlers may run.

  The facts: the invariant of the maps over all interleavings, first-in-first-out delivery within
  the limit as an instance of \<open>bounded_queue\<close>, and what the invariant cannot say: sessions outlive
  registrations, and a registration can be deleted by an \<open>unregister\<close> that began before it.
\<close>

section \<open>Requests and state\<close>

record http_request =
  http_Method :: string
  http_Session :: "string list option"
  http_Body :: "err + bytes"

text \<open>Status and body as the client sees them: 200 and nothing when the handler writes nothing.\<close>

type_synonym http_response = "nat \<times> bytes"

record MailboxServer =
  mb_addr :: string
  sessions :: "string \<rightharpoonup> address"
  agentRecords :: "address \<rightharpoonup> AgentRecord"
  envelopes :: "address \<rightharpoonup> Envelope list"
  envelopesLimit :: nat
  mb_signature :: bytes

definition http_fail :: "string \<Rightarrow> http_response" where
  "http_fail msg = (400, to_bytes msg)"

text \<open>\<open>start\<close>: the maps are empty, the limit is 1000.\<close>

definition mailbox_start :: "string \<Rightarrow> bytes \<Rightarrow> MailboxServer" where
  "mailbox_start addr sig =
     \<lparr>mb_addr = addr, sessions = Map.empty, agentRecords = Map.empty, envelopes = Map.empty,
      envelopesLimit = 1000, mb_signature = sig\<rparr>"

section \<open>Handlers\<close>

text \<open>The critical section of \<open>apiRegister\<close>.\<close>

definition register_commit :: "AgentRecord \<Rightarrow> string \<Rightarrow> MailboxServer \<Rightarrow> MailboxServer" where
  "register_commit record uuid mb =
     mb\<lparr>agentRecords := (agentRecords mb)(Address record \<mapsto> record),
        sessions := (sessions mb)(uuid \<mapsto> Address record),
        envelopes := (envelopes mb)(Address record \<mapsto> [])\<rparr>"

definition apiRegister ::
  "codec \<Rightarrow> (AgentRecord \<Rightarrow> (StatusBody \<times> err option) res) \<Rightarrow> bool \<Rightarrow>
   (address \<Rightarrow> 'w \<Rightarrow> unit res \<times> 'w) \<Rightarrow> string \<Rightarrow> http_request \<Rightarrow> MailboxServer \<Rightarrow> 'w \<Rightarrow>
   http_response res \<times> MailboxServer \<times> 'w" where
  "apiRegister C checkPOR announcementEnabled registerAgentAddress uuid req mb w =
     (if http_Method req \<noteq> ''POST'' then (Ok (http_fail ''invalid method''), mb, w)
      else case http_Body req of
        Inl e \<Rightarrow> (Ok (http_fail (Error e)), mb, w)
      | Inr body \<Rightarrow>
          if length body = 0 then (Ok (http_fail ''Empty body''), mb, w)
          else case rec_Unmarshal C body of
            Inl e \<Rightarrow> (Ok (http_fail ''Error on agent record deserialize''), mb, w)
          | Inr record \<Rightarrow>
              (case checkPOR record of
                 Panic \<Rightarrow> (Panic, mb, w)
               | Block \<Rightarrow> (Block, mb, w)
               | Err e \<Rightarrow> (Ok (http_fail ''Invalid PoR''), mb, w)
               | Ok (status, err) \<Rightarrow>
                   if err \<noteq> None \<or> Code status \<noteq> SUCCESS
                   then (Ok (http_fail ''Invalid PoR''), mb, w)
                   else if announcementEnabled
                   then (case registerAgentAddress (Address record) w of
                           (Ok _, w1) \<Rightarrow> (Ok (200, to_bytes uuid), register_commit record uuid mb, w1)
                         | (Err e, w1) \<Rightarrow>
                             (Ok (http_fail ''failed to register address over dht''), mb, w1)
                         | (Panic, w1) \<Rightarrow> (Panic, mb, w1)
                         | (Block, w1) \<Rightarrow> (Block, mb, w1))
                   else (Ok (200, to_bytes uuid), register_commit record uuid mb, w)))"

text \<open>\<open>req.Header["Session-Id"]\<close> and the session it names, if any; a header without a value would be
  indexed out of range.\<close>

definition session_addr :: "http_request \<Rightarrow> MailboxServer \<Rightarrow> (string \<times> address) option res" where
  "session_addr req mb =
     (case http_Session req of
        None \<Rightarrow> Ok None
      | Some [] \<Rightarrow> Panic
      | Some (sessionId # _) \<Rightarrow>
          Ok (map_option (\<lambda>addr. (sessionId, addr)) (sessions mb sessionId)))"

definition unregister_commit :: "string \<Rightarrow> address \<Rightarrow> MailboxServer \<Rightarrow> MailboxServer" where
  "unregister_commit sessionId addr mb =
     mb\<lparr>agentRecords := (agentRecords mb)(addr := None),
        sessions := (sessions mb)(sessionId := None),
        envelopes := (envelopes mb)(addr := None)\<rparr>"

definition apiUnregister :: "http_request \<Rightarrow> MailboxServer \<Rightarrow> http_response res \<times> MailboxServer" where
  "apiUnregister req mb =
     (if http_Method req \<noteq> ''GET'' then (Ok (http_fail ''invalid method''), mb)
      else case session_addr req mb of
        Ok None \<Rightarrow> (Ok (http_fail ''invalid session_id header''), mb)
      | Ok (Some (sessionId, addr)) \<Rightarrow> (Ok (200, []), unregister_commit sessionId addr mb)
      | Err e \<Rightarrow> (Err e, mb)
      | Panic \<Rightarrow> (Panic, mb)
      | Block \<Rightarrow> (Block, mb))"

definition apiGetSignature :: "http_request \<Rightarrow> MailboxServer \<Rightarrow> http_response" where
  "apiGetSignature req mb =
     (if http_Method req \<noteq> ''GET'' then http_fail ''invalid method'' else (200, mb_signature mb))"

text \<open>\<open>apiSendEnvelope\<close> only checks that there is a session; \<open>routeEnvelope\<close> may change the whole peer,
  its mailbox included, so it works on both states.\<close>

definition apiSendEnvelope ::
  "codec \<Rightarrow> (Envelope \<Rightarrow> MailboxServer \<times> 'w \<Rightarrow> unit res \<times> MailboxServer \<times> 'w) \<Rightarrow> http_request \<Rightarrow>
   MailboxServer \<Rightarrow> 'w \<Rightarrow> http_response res \<times> MailboxServer \<times> 'w" where
  "apiSendEnvelope C routeEnvelope req mb w =
     (if http_Method req \<noteq> ''POST'' then (Ok (http_fail ''invalid method''), mb, w)
      else case session_addr req mb of
        Ok None \<Rightarrow> (Ok (http_fail ''invalid session_id header''), mb, w)
      | Ok (Some _) \<Rightarrow>
          (case http_Body req of
             Inl e \<Rightarrow> (Ok (http_fail (Error e)), mb, w)
           | Inr body \<Rightarrow>
               if length body = 0 then (Ok (http_fail ''Empty body''), mb, w)
               else case env_Unmarshal C body of
                 Inl e \<Rightarrow> (Ok (http_fail (Error e)), mb, w)
               | Inr envelope \<Rightarrow>
                   (case routeEnvelope envelope (mb, w) of
                      (Ok _, s) \<Rightarrow> (Ok (200, []), s)
                    | (Err e, s) \<Rightarrow> (Ok (http_fail (Error e)), s)
                    | (Panic, s) \<Rightarrow> (Panic, s)
                    | (Block, s) \<Rightarrow> (Block, s)))
      | Err e \<Rightarrow> (Err e, mb, w)
      | Panic \<Rightarrow> (Panic, mb, w)
      | Block \<Rightarrow> (Block, mb, w))"

text \<open>\<open>written\<close>: whether \<open>res.Write\<close> of the envelope succeeded. A head that cannot be serialised stays,
  and the client is told that nothing has arrived.\<close>

definition apiGetEnvelope ::
  "codec \<Rightarrow> bool \<Rightarrow> http_request \<Rightarrow> MailboxServer \<Rightarrow> http_response res \<times> MailboxServer" where
  "apiGetEnvelope C written req mb =
     (if http_Method req \<noteq> ''GET'' then (Ok (http_fail ''invalid method''), mb)
      else case session_addr req mb of
        Ok None \<Rightarrow> (Ok (http_fail ''invalid session_id header''), mb)
      | Ok (Some (sessionId, addr)) \<Rightarrow>
          (case envelopes mb addr of
             None \<Rightarrow> (Ok (200, []), mb)
           | Some [] \<Rightarrow> (Ok (200, []), mb)
           | Some (envelope # rest) \<Rightarrow>
               (case env_Marshal C envelope of
                  Inl e \<Rightarrow> (Ok (200, []), mb)
                | Inr buf \<Rightarrow>
                    (Ok (200, buf),
                     if written then mb\<lparr>envelopes := (envelopes mb)(addr \<mapsto> rest)\<rparr> else mb)))
      | Err e \<Rightarrow> (Err e, mb)
      | Panic \<Rightarrow> (Panic, mb)
      | Block \<Rightarrow> (Block, mb))"

definition mailbox_RouteEnvelope :: "Envelope \<Rightarrow> MailboxServer \<Rightarrow> bool \<times> MailboxServer" where
  "mailbox_RouteEnvelope envelope mb =
     (let target = To envelope in
      case envelopes mb target of
        None \<Rightarrow> (False, mb)
      | Some envelopesList \<Rightarrow>
          if envelopesLimit mb \<noteq> 0 \<and> length envelopesList \<ge> envelopesLimit mb then (False, mb)
          else (True, mb\<lparr>envelopes := (envelopes mb)(target \<mapsto> envelopesList @ [envelope])\<rparr>))"

definition IsAddrRegistered :: "address \<Rightarrow> MailboxServer \<Rightarrow> bool" where
  "IsAddrRegistered addr mb \<longleftrightarrow> envelopes mb addr \<noteq> None"

definition mailbox_GetAgentRecord :: "address \<Rightarrow> MailboxServer \<Rightarrow> AgentRecord option" where
  "mailbox_GetAgentRecord addr mb =
     (if \<not> IsAddrRegistered addr mb then None else agentRecords mb addr)"

section \<open>The server as a transition system\<close>

text \<open>A state is the maps and the \<open>apiUnregister\<close> calls that have looked up their session and not yet
  deleted.\<close>

record mailbox_system =
  mbs_server :: MailboxServer
  mbs_leaving :: "(string \<times> address) list"

text \<open>\<open>key\<close> is the key of the peer that the server belongs to, which \<open>CheckPOR\<close> compares with. A registration is a call of
  \<open>apiRegister\<close> with that check; its effect on the maps is one critical section, and its guards do not read them. Whether
  announcements are enabled and what the announcement answers is left open, and the new session is one that is
  not in use.\<close>

definition por_check :: "crypto \<Rightarrow> string \<Rightarrow> AgentRecord \<Rightarrow> (StatusBody \<times> err option) res" where
  "por_check K key record = IsValidProofOfRepresentation K (Some record) (Address record) key"

inductive mb_step :: "codec \<Rightarrow> crypto \<Rightarrow> string \<Rightarrow> mailbox_system \<Rightarrow> mailbox_system \<Rightarrow> bool"
  for C :: codec and K :: crypto and key :: string where
  mb_register: "\<lbrakk>sessions (mbs_server s) uuid = None;
      apiRegister C (por_check K key) announcing announce uuid req (mbs_server s) () = (r, mb', u)\<rbrakk> \<Longrightarrow>
     mb_step C K key s (s\<lparr>mbs_server := mb'\<rparr>)"
| mb_unregister_lookup: "\<lbrakk>http_Method req = ''GET''; session_addr req (mbs_server s) = Ok (Some (sid, addr))\<rbrakk> \<Longrightarrow>
     mb_step C K key s (s\<lparr>mbs_leaving := (sid, addr) # mbs_leaving s\<rparr>)"
| mb_unregister_delete: "(sid, addr) \<in> set (mbs_leaving s) \<Longrightarrow>
     mb_step C K key s (s\<lparr>mbs_server := unregister_commit sid addr (mbs_server s),
                        mbs_leaving := remove1 (sid, addr) (mbs_leaving s)\<rparr>)"
| mb_get: "mb_step C K key s (s\<lparr>mbs_server := snd (apiGetEnvelope C written req (mbs_server s))\<rparr>)"
| mb_route: "mb_step C K key s (s\<lparr>mbs_server := snd (mailbox_RouteEnvelope e (mbs_server s))\<rparr>)"

inductive mb_reachable :: "codec \<Rightarrow> crypto \<Rightarrow> string \<Rightarrow> mailbox_system \<Rightarrow> bool"
  for C :: codec and K :: crypto and key :: string where
  mb_init: "mb_reachable C K key \<lparr>mbs_server = mailbox_start addr sig, mbs_leaving = []\<rparr>"
| mb_next: "\<lbrakk>mb_reachable C K key s; mb_step C K key s t\<rbrakk> \<Longrightarrow> mb_reachable C K key t"

inductive_cases mb_stepE: "mb_step C K key s t"

text \<open>The invariant of the maps.\<close>

definition mb_inv :: "(AgentRecord \<Rightarrow> bool) \<Rightarrow> MailboxServer \<Rightarrow> bool" where
  "mb_inv valid mb \<longleftrightarrow>
     dom (envelopes mb) = dom (agentRecords mb) \<and>
     (\<forall>a r. agentRecords mb a = Some r \<longrightarrow> Address r = a \<and> valid r) \<and>
     (\<forall>a es. envelopes mb a = Some es \<longrightarrow>
        length es \<le> envelopesLimit mb \<and> (\<forall>e \<in> set es. To e = a)) \<and>
     envelopesLimit mb = 1000"

lemma mb_inv_start: "mb_inv valid (mailbox_start addr sig)"
  by (simp add: mb_inv_def mailbox_start_def)

lemma mb_inv_register: "\<lbrakk>mb_inv valid mb; valid r\<rbrakk> \<Longrightarrow> mb_inv valid (register_commit r uuid mb)"
  by (auto simp: mb_inv_def register_commit_def)

lemma mb_inv_unregister: "mb_inv valid mb \<Longrightarrow> mb_inv valid (unregister_commit sid addr mb)"
  by (auto simp: mb_inv_def unregister_commit_def dom_def)

lemma mb_inv_route: "mb_inv valid mb \<Longrightarrow> mb_inv valid (snd (mailbox_RouteEnvelope e mb))"
  by (auto simp: mb_inv_def mailbox_RouteEnvelope_def Let_def split: option.splits)

lemma apiGetEnvelope_effect:
  "snd (apiGetEnvelope C written req mb) = mb \<or>
   (\<exists>addr e rest. envelopes mb addr = Some (e # rest)
      \<and> snd (apiGetEnvelope C written req mb) = mb\<lparr>envelopes := (envelopes mb)(addr \<mapsto> rest)\<rparr>)"
  unfolding apiGetEnvelope_def by (simp split: res.split option.split list.split sum.split) blast

lemma mb_inv_pop:
  assumes "mb_inv valid mb" and "envelopes mb addr = Some (e # rest)"
  shows "mb_inv valid (mb\<lparr>envelopes := (envelopes mb)(addr \<mapsto> rest)\<rparr>)"
proof -
  have "addr \<in> dom (agentRecords mb)" using assms by (auto simp: mb_inv_def)
  moreover have "length (e # rest) \<le> envelopesLimit mb" "\<forall>x \<in> set (e # rest). To x = addr"
    using assms unfolding mb_inv_def by blast+
  ultimately show ?thesis using assms(1) by (auto simp: mb_inv_def)
qed

lemma mb_inv_get: "mb_inv valid mb \<Longrightarrow> mb_inv valid (snd (apiGetEnvelope C written req mb))"
  using apiGetEnvelope_effect [of C written req mb] mb_inv_pop by metis

text \<open>What a registration does to the maps: a commit of a record that passed the check, or nothing.\<close>

lemma apiRegister_commits:
  assumes "apiRegister C chk ann reg uuid req mb w = (Ok (code, body), mb', w')"
  shows "(code = 200 \<and> body = to_bytes uuid \<and> (\<exists>b r st. http_Body req = Inr b \<and> rec_Unmarshal C b = Inr r
        \<and> chk r = Ok (st, None) \<and> Code st = SUCCESS \<and> mb' = register_commit r uuid mb))
    \<or> (code = 400 \<and> mb' = mb)"
  using assms
  by (auto simp: apiRegister_def http_fail_def split: if_splits sum.splits res.splits prod.splits)

lemma apiRegister_checked:
  assumes "apiRegister C (por_check K key) ann reg uuid req mb w = (x, mb', w')"
  shows "mb' = mb \<or> (\<exists>r. mb' = register_commit r uuid mb \<and> valid_proof K r (Address r) key)"
proof (cases "mb' = mb")
  case False
  then obtain body r where body: "http_Method req = ''POST''" "http_Body req = Inr body" "body \<noteq> []" "rec_Unmarshal C body = Inr r"
    using assms by (auto simp: apiRegister_def split: if_splits sum.splits)
  with False assms obtain st where v: "por_check K key r = Ok (st, None)" "Code st = SUCCESS"
    by (auto simp: apiRegister_def split: res.splits if_splits)
  have "valid_proof K r (Address r) key" using v PoR_success_iff [of K r "Address r" key] by (auto simp: por_check_def)
  moreover have "mb' = register_commit r uuid mb"
    using assms body v False by (auto simp: apiRegister_def split: res.splits if_splits prod.splits)
  ultimately show ?thesis by blast
qed simp

definition mb_proven :: "crypto \<Rightarrow> string \<Rightarrow> MailboxServer \<Rightarrow> bool" where
  "mb_proven K key = mb_inv (\<lambda>r. valid_proof K r (Address r) key)"

lemma mb_step_inv:
  assumes "mb_step C K key s t" and "mb_proven K key (mbs_server s)"
  shows "mb_proven K key (mbs_server t)"
  using assms(1)
proof cases
  case mb_register
  then show ?thesis using apiRegister_checked assms(2) mb_inv_register unfolding mb_proven_def by fastforce
qed (use assms(2) in \<open>simp_all add: mb_proven_def mb_inv_unregister mb_inv_route mb_inv_get\<close>)

lemma mb_reachable_inv: "mb_reachable C K key s \<Longrightarrow> mb_proven K key (mbs_server s)"
  by (induction rule: mb_reachable.induct) (auto simp: mb_proven_def mb_inv_start intro: mb_step_inv [unfolded mb_proven_def])

section \<open>Delivery\<close>

text \<open>The mailbox of address \<open>a\<close> seen through session \<open>s\<close>: routing is \<open>push\<close>, polling is \<open>pop\<close>. An empty
  answer means that nothing has arrived.\<close>

definition mb_poll :: "codec \<Rightarrow> string \<Rightarrow> MailboxServer \<Rightarrow> Envelope option \<times> MailboxServer" where
  "mb_poll C s mb =
     (case apiGetEnvelope C True \<lparr>http_Method = ''GET'', http_Session = Some [s], http_Body = Inr []\<rparr> mb of
        (Ok (code, body), mb') \<Rightarrow>
          (if body = [] then None
           else case env_Unmarshal C body of Inl e \<Rightarrow> None | Inr e \<Rightarrow> Some e, mb')
      | (_, mb') \<Rightarrow> (None, mb'))"

definition mb_queue :: "address \<Rightarrow> MailboxServer \<Rightarrow> Envelope list" where
  "mb_queue a mb = (case envelopes mb a of None \<Rightarrow> [] | Some es \<Rightarrow> es)"

definition mb_fits :: "codec \<Rightarrow> address \<Rightarrow> Envelope \<Rightarrow> bool" where
  "mb_fits C a e \<longleftrightarrow> To e = a \<and> (case env_Marshal C e of Inl _ \<Rightarrow> False | Inr b \<Rightarrow> b \<noteq> [])"

definition mb_open :: "codec \<Rightarrow> string \<Rightarrow> address \<Rightarrow> MailboxServer \<Rightarrow> bool" where
  "mb_open C s a mb \<longleftrightarrow> codec_ok C \<and> sessions mb s = Some a \<and> envelopesLimit mb \<noteq> 0
     \<and> envelopes mb a \<noteq> None \<and> (\<forall>e \<in> set (mb_queue a mb). mb_fits C a e)"

interpretation mailbox: bounded_queue mailbox_RouteEnvelope "mb_poll C s" "mb_queue a" envelopesLimit
  "mb_open C s a" "mb_fits C a"
proof unfold_locales
  fix q v assume "mb_open C s a q" "mb_fits C a v"
  then show "(if length (mb_queue a q) < envelopesLimit q
      then fst (mailbox_RouteEnvelope v q)
        \<and> mb_queue a (snd (mailbox_RouteEnvelope v q)) = mb_queue a q @ [v]
      else \<not> fst (mailbox_RouteEnvelope v q)
        \<and> mb_queue a (snd (mailbox_RouteEnvelope v q)) = mb_queue a q)
      \<and> mb_open C s a (snd (mailbox_RouteEnvelope v q))
      \<and> envelopesLimit (snd (mailbox_RouteEnvelope v q)) = envelopesLimit q"
    by (auto simp: mb_open_def mb_fits_def mb_queue_def mailbox_RouteEnvelope_def Let_def)
next
  fix q assume q: "mb_open C s a q"
  then obtain es where es: "envelopes q a = Some es" by (auto simp: mb_open_def)
  show "(case mb_queue a q of
        [] \<Rightarrow> fst (mb_poll C s q) = None \<and> mb_queue a (snd (mb_poll C s q)) = []
      | v # vs \<Rightarrow> fst (mb_poll C s q) = Some v \<and> mb_queue a (snd (mb_poll C s q)) = vs)
      \<and> mb_open C s a (snd (mb_poll C s q)) \<and> envelopesLimit (snd (mb_poll C s q)) = envelopesLimit q"
  proof (cases es)
    case Nil
    with q es show ?thesis
      by (simp add: mb_poll_def apiGetEnvelope_def session_addr_def mb_open_def mb_queue_def)
  next
    case (Cons e rest)
    with q es obtain b where b: "env_Marshal C e = Inr b" "b \<noteq> []" "env_Unmarshal C b = Inr e"
      by (auto simp: mb_open_def mb_queue_def mb_fits_def codec_env split: sum.splits)
    with q es Cons show ?thesis
      by (simp add: mb_poll_def apiGetEnvelope_def session_addr_def mb_open_def mb_queue_def)
  qed
qed

section \<open>Properties of the mailbox\<close>

text \<open>C15: In every state that the handlers reach, in any interleaving: an address has a queue exactly when it has a
  record; the record is filed under its own address and carries a proof of representation that is valid for the
  key of the server's peer; the queue holds at most 1000 envelopes and only envelopes for that address.\<close>

theorem mailbox_invariant:
  assumes "mb_reachable C K key s"
  shows "dom (envelopes (mbs_server s)) = dom (agentRecords (mbs_server s))
    \<and> (\<forall>a r. agentRecords (mbs_server s) a = Some r \<longrightarrow> valid_proof K r a key)
    \<and> (\<forall>a es. envelopes (mbs_server s) a = Some es \<longrightarrow> length es \<le> 1000 \<and> (\<forall>e \<in> set es. To e = a))"
proof -
  have i: "mb_inv (\<lambda>r. valid_proof K r (Address r) key) (mbs_server s)"
    using mb_reachable_inv [OF assms] by (simp add: mb_proven_def)
  then have "\<forall>a r. agentRecords (mbs_server s) a = Some r \<longrightarrow> valid_proof K r a key" unfolding mb_inv_def by metis
  with i show ?thesis unfolding mb_inv_def by metis
qed

definition ex_mb_codec :: codec where
  "ex_mb_codec = table_codec [] [(\<lparr>To = ''cosmosA'', Sender = ''x'', ProtocolId = [], Message = [], Uri = []\<rparr>, [1])]
     [(ex_record 65 7, [9])]"

text \<open>A registration with the record of agent \<open>cosmosA\<close>.\<close>

definition ex_mb_request :: http_request where
  "ex_mb_request = \<lparr>http_Method = ''POST'', http_Session = None, http_Body = Inr [9]\<rparr>"

lemma ex_mb_registers:
  assumes "sessions (mbs_server s) uuid = None"
  shows "mb_step ex_mb_codec ex_crypto (ex_key 7) s (s\<lparr>mbs_server := register_commit (ex_record 65 7) uuid (mbs_server s)\<rparr>)"
proof -
  have "rec_Unmarshal ex_mb_codec [9] = Inr (ex_record 65 7)" by (simp add: ex_mb_codec_def table_codec_def)
  moreover have "por_check ex_crypto (ex_key 7) (ex_record 65 7) = Ok (\<lparr>Code = SUCCESS, Msgs = []\<rparr>, None)"
    using PoR_valid [OF ex_valid [of 65 7]] by (simp add: por_check_def)
  ultimately have "apiRegister ex_mb_codec (por_check ex_crypto (ex_key 7)) False (\<lambda>_ w. (Ok (), w)) uuid ex_mb_request (mbs_server s) ()
      = (Ok (200, to_bytes uuid), register_commit (ex_record 65 7) uuid (mbs_server s), ())"
    by (simp add: apiRegister_def ex_mb_request_def)
  from mb_register [where announcing = False and announce = "\<lambda>_ w. (Ok (), w)", OF assms this] show ?thesis .
qed

lemma ex_mb_leaves:
  "sessions (mbs_server s) sid = Some addr \<Longrightarrow> mb_step C K key s (s\<lparr>mbs_leaving := (sid, addr) # mbs_leaving s\<rparr>)"
  by (rule mb_unregister_lookup [where req = "\<lparr>http_Method = ''GET'', http_Session = Some [sid], http_Body = Inr []\<rparr>"])
    (simp_all add: session_addr_def)

text \<open>Two registrations of the same address.\<close>

definition ex_mb_twice :: mailbox_system where
  "ex_mb_twice = \<lparr>mbs_server = register_commit (ex_record 65 7) ''s2''
     (register_commit (ex_record 65 7) ''s1'' (mailbox_start [] [])), mbs_leaving = []\<rparr>"

lemma ex_mb_twice_reachable: "mb_reachable ex_mb_codec ex_crypto (ex_key 7) ex_mb_twice"
proof -
  let ?s0 = "\<lparr>mbs_server = mailbox_start [] [], mbs_leaving = []\<rparr>"
  let ?s1 = "?s0\<lparr>mbs_server := register_commit (ex_record 65 7) ''s1'' (mbs_server ?s0)\<rparr>"
  have 1: "mb_reachable ex_mb_codec ex_crypto (ex_key 7) ?s1"
    by (rule mb_next [OF mb_init ex_mb_registers]) (simp add: mailbox_start_def)
  have "mb_step ex_mb_codec ex_crypto (ex_key 7) ?s1 (?s1\<lparr>mbs_server := register_commit (ex_record 65 7) ''s2'' (mbs_server ?s1)\<rparr>)"
    by (rule ex_mb_registers) (simp add: mailbox_start_def register_commit_def)
  from mb_next [OF 1 this] show ?thesis by (simp add: ex_mb_twice_def)
qed

lemma mailbox_invariant_witness:
  "agentRecords (mbs_server ex_mb_twice) ''cosmosA'' = Some (ex_record 65 7) \<and> valid_proof ex_crypto (ex_record 65 7) ''cosmosA'' (ex_key 7)
    \<and> dom (envelopes (mbs_server ex_mb_twice)) = dom (agentRecords (mbs_server ex_mb_twice))"
proof -
  have "agentRecords (mbs_server ex_mb_twice) ''cosmosA'' = Some (ex_record 65 7)"
    by (simp add: ex_mb_twice_def register_commit_def)
  with mailbox_invariant [OF ex_mb_twice_reachable] show ?thesis by blast
qed

text \<open>C11: Over any sequence of envelopes routed to an address and polls of a session of that address, what was
  accepted is what was delivered, in order, followed by what is still queued; nothing is lost, doubled or
  reordered, and the queue stays within its limit.\<close>

theorem mailbox_fifo:
  assumes "mb_open C s a mb" and "\<forall>e. Push e \<in> set ops \<longrightarrow> mb_fits C a e"
    and "length (mb_queue a mb) \<le> envelopesLimit mb"
    and "bounded_queue.run mailbox_RouteEnvelope (mb_poll C s) ops mb = (accepted, delivered, mb')"
  shows "mb_queue a mb @ accepted = delivered @ mb_queue a mb' \<and> length (mb_queue a mb') \<le> envelopesLimit mb"
proof -
  have fits: "\<And>v. Push v \<in> set ops \<Longrightarrow> mb_fits C a v" using assms(2) by blast
  show ?thesis
    using mailbox.fifo [OF assms(1) fits assms(4)] mailbox.bounded [OF assms(1) fits assms(3,4)] by simp
qed

lemma mailbox_fifo_witness:
  "\<exists>accepted delivered mb'.
    bounded_queue.run mailbox_RouteEnvelope (mb_poll ex_mb_codec ''s1'')
      [Push \<lparr>To = ''cosmosA'', Sender = ''x'', ProtocolId = [], Message = [], Uri = []\<rparr>, Pop]
      (register_commit ((ex_record 65 7)\<lparr>Address := ''cosmosA''\<rparr>) ''s1'' (mailbox_start [] [])) = (accepted, delivered, mb')
    \<and> accepted = delivered @ mb_queue ''cosmosA'' mb'"
proof -
  let ?e = "\<lparr>To = ''cosmosA'', Sender = ''x'', ProtocolId = [], Message = [], Uri = []\<rparr>"
  let ?mb = "register_commit ((ex_record 65 7)\<lparr>Address := ''cosmosA''\<rparr>) ''s1'' (mailbox_start [] [])"
  have ok: "codec_ok ex_mb_codec" unfolding ex_mb_codec_def by (intro codec_ok_table) simp_all
  have q: "mb_queue ''cosmosA'' ?mb = []" by (simp add: mb_queue_def register_commit_def)
  have o: "mb_open ex_mb_codec ''s1'' ''cosmosA'' ?mb"
    using ok q by (simp add: mb_open_def register_commit_def mailbox_start_def)
  have f: "\<forall>e. Push e \<in> set [Push ?e, Pop] \<longrightarrow> mb_fits ex_mb_codec ''cosmosA'' e"
    by (simp add: mb_fits_def ex_mb_codec_def table_codec_def)
  obtain i d m where r: "bounded_queue.run mailbox_RouteEnvelope (mb_poll ex_mb_codec ''s1'') [Push ?e, Pop] ?mb = (i, d, m)"
    by (metis prod_cases3)
  from mailbox_fifo [OF o f _ r] q r show ?thesis by simp
qed

text \<open>C37: A second registration of an address does not end the first session: when one of the two sessions
  unregisters, the other is still accepted but has neither record nor queue. The state is reachable.\<close>

theorem mailbox_dangling_session:
  "\<exists>s. mb_reachable ex_mb_codec ex_crypto (ex_key 7) s \<and> sessions (mbs_server s) ''s2'' = Some (Address (ex_record 65 7))
    \<and> envelopes (mbs_server s) (Address (ex_record 65 7)) = None
    \<and> fst (apiGetEnvelope C True \<lparr>http_Method = ''GET'', http_Session = Some [''s2''], http_Body = Inr []\<rparr> (mbs_server s))
      = Ok (200, [])"
proof -
  let ?a = "Address (ex_record 65 7)"
  let ?t = "ex_mb_twice\<lparr>mbs_leaving := (''s1'', ?a) # mbs_leaving ex_mb_twice\<rparr>"
  let ?u = "?t\<lparr>mbs_server := unregister_commit ''s1'' ?a (mbs_server ?t), mbs_leaving := remove1 (''s1'', ?a) (mbs_leaving ?t)\<rparr>"
  have 1: "mb_reachable ex_mb_codec ex_crypto (ex_key 7) ?t"
    by (rule mb_next [OF ex_mb_twice_reachable ex_mb_leaves]) (simp add: ex_mb_twice_def register_commit_def)
  have "mb_step ex_mb_codec ex_crypto (ex_key 7) ?t ?u" by (rule mb_unregister_delete) simp
  from mb_next [OF 1 this] have "mb_reachable ex_mb_codec ex_crypto (ex_key 7) ?u" .
  then show ?thesis
    by (intro exI [of _ ?u] conjI)
      (simp_all add: ex_mb_twice_def register_commit_def unregister_commit_def apiGetEnvelope_def session_addr_def)
qed

text \<open>C38: \<open>apiUnregister\<close> looks up and deletes under separate locks, so a registration that falls between the two is
  deleted by it: the new session is left without a mailbox.\<close>

theorem mailbox_unregister_race:
  "\<exists>s t u. mb_reachable ex_mb_codec ex_crypto (ex_key 7) s \<and> mb_step ex_mb_codec ex_crypto (ex_key 7) s t \<and> mb_step ex_mb_codec ex_crypto (ex_key 7) t u
    \<and> mbs_leaving s = [(''s1'', Address (ex_record 65 7))]
    \<and> mbs_server t = register_commit (ex_record 65 7) ''s2'' (mbs_server s)
    \<and> envelopes (mbs_server t) (Address (ex_record 65 7)) = Some []
    \<and> envelopes (mbs_server u) (Address (ex_record 65 7)) = None
    \<and> sessions (mbs_server u) ''s2'' = Some (Address (ex_record 65 7))"
proof -
  let ?a = "Address (ex_record 65 7)"
  let ?s0 = "\<lparr>mbs_server = mailbox_start [] [], mbs_leaving = []\<rparr>"
  let ?s1 = "?s0\<lparr>mbs_server := register_commit (ex_record 65 7) ''s1'' (mbs_server ?s0)\<rparr>"
  let ?s = "?s1\<lparr>mbs_leaving := (''s1'', ?a) # mbs_leaving ?s1\<rparr>"
  let ?t = "?s\<lparr>mbs_server := register_commit (ex_record 65 7) ''s2'' (mbs_server ?s)\<rparr>"
  let ?u = "?t\<lparr>mbs_server := unregister_commit ''s1'' ?a (mbs_server ?t), mbs_leaving := remove1 (''s1'', ?a) (mbs_leaving ?t)\<rparr>"
  have 1: "mb_reachable ex_mb_codec ex_crypto (ex_key 7) ?s1"
    by (rule mb_next [OF mb_init ex_mb_registers]) (simp add: mailbox_start_def)
  have 2: "mb_reachable ex_mb_codec ex_crypto (ex_key 7) ?s"
    by (rule mb_next [OF 1 ex_mb_leaves]) (simp add: register_commit_def)
  have 3: "mb_step ex_mb_codec ex_crypto (ex_key 7) ?s ?t" by (rule ex_mb_registers) (simp add: mailbox_start_def register_commit_def)
  have 4: "mb_step ex_mb_codec ex_crypto (ex_key 7) ?t ?u" by (rule mb_unregister_delete) simp
  show ?thesis
    by (rule exI [of _ ?s], rule exI [of _ ?t], rule exI [of _ ?u])
      (use 2 3 4 in \<open>simp add: register_commit_def unregister_commit_def\<close>)
qed

end
