(* ===== verification/Handlers.thy ===== *)
theory Handlers
  imports DhtNode
begin

text \<open>
  \<open>dht/common/handlers.go\<close>: the stream handlers that peers and clients share. A node takes part as a
  \<open>DHTHandler\<close>: a handler for envelopes and a handler for address requests, over its own state.
  The stream and the node's state are threaded separately.

  The locale \<open>dht_handler\<close> states what the handlers rely on in a node. Proved in it: which answer
  each stream gets, that an envelope reaches the node only under a valid proof of representation,
  and that an address is answered with a record of that address. It is interpreted on the peer
  and on the client where those are modelled.
\<close>

record 's DHTHandler =
  handle_envelope :: "Envelope \<Rightarrow> 's \<Rightarrow> unit res \<times> 's"
  handle_address :: "string \<Rightarrow> 's \<Rightarrow> AgentRecord option res \<times> 's"

definition stream_Close :: "stream \<Rightarrow> stream" where
  "stream_Close st = st\<lparr>streamClosed := True\<rparr>"

definition stream_Reset :: "stream \<Rightarrow> stream" where
  "stream_Reset st = st\<lparr>streamReset := True\<rparr>"

text \<open>\<open>FetchAIPublicKeyFromPubKey\<close> of the remote key; on an error, which is ignored, the empty string.\<close>

definition remote_key :: "crypto \<Rightarrow> stream \<Rightarrow> string" where
  "remote_key K st =
     (case FetchAIPublicKeyFromPubKey K (remotePublicKey st) of Inl _ \<Rightarrow> [] | Inr k \<Rightarrow> k)"

text \<open>\<open>receiveEnvelopeFromPeer\<close> compares the record with its own address and dereferences it to do so:
  a message without a record is a nil dereference.\<close>

definition receiveEnvelopeFromPeer :: "codec \<Rightarrow> crypto \<Rightarrow> stream \<Rightarrow> Envelope res \<times> stream" where
  "receiveEnvelopeFromPeer C K st =
     and_then (ReadEnvelopeMessage C StreamPipe st) (\<lambda>aeaEnvelope st1.
       case env_Unmarshal C (ape_Envelope aeaEnvelope) of
         Inl e \<Rightarrow>
           ignoring (SendAcnError C StreamPipe st1 ''while deserializing acn aea envelope message'' [ERROR_DECODE])
             (\<lambda>st2. (Err e, st2))
       | Inr envel \<Rightarrow>
           (case ape_Record aeaEnvelope of
              None \<Rightarrow> (Panic, st1)
            | Some r \<Rightarrow>
                (case IsValidProofOfRepresentation K (Some r) (Address r) (remote_key K st1) of
                   Panic \<Rightarrow> (Panic, st1)
                 | Block \<Rightarrow> (Block, st1)
                 | Err e \<Rightarrow> (Err e, st1)
                 | Ok (status, err) \<Rightarrow>
                     if err \<noteq> None \<or> Code status \<noteq> SUCCESS
                     then ignoring (SendAcnError C StreamPipe st1 ''incoming envelope PoR is not valid'' [Code status])
                            (\<lambda>st2. (Err (case err of Some e \<Rightarrow> e
                               | None \<Rightarrow> ErrMsg (StatusCode_String (Code status) @ '':'' @ Join (Msgs status) '':'')), st2))
                     else (Ok envel, st1))))"

definition HandleAeaEnvelopeStream ::
  "codec \<Rightarrow> crypto \<Rightarrow> 's DHTHandler \<Rightarrow> stream \<Rightarrow> 's \<Rightarrow> unit res \<times> stream \<times> 's" where
  "HandleAeaEnvelopeStream C K H st s =
     (case receiveEnvelopeFromPeer C K st of
        (Panic, st1) \<Rightarrow> (Panic, st1, s)
      | (Block, st1) \<Rightarrow> (Block, st1, s)
      | (Err e, st1) \<Rightarrow> (Ok (), stream_Close st1, s)
      | (Ok envel, st1) \<Rightarrow>
          (case handle_envelope H envel s of
             (Panic, s1) \<Rightarrow> (Panic, st1, s1)
           | (Block, s1) \<Rightarrow> (Block, st1, s1)
           | (Err acnError, s1) \<Rightarrow>
               (case ignoring (SendAcnError C StreamPipe st1 (Error acnError)
                       (case acnError of ACNError c _ \<Rightarrow> [c] | _ \<Rightarrow> []))
                     (\<lambda>st2. (Ok (), stream_Close st2)) of (r, st2) \<Rightarrow> (r, st2, s1))
           | (Ok _, s1) \<Rightarrow>
               (case ignoring (SendAcnSuccess C StreamPipe st1) (\<lambda>st2. (Ok (), stream_Close st2)) of
                  (r, st2) \<Rightarrow> (r, st2, s1))))"

text \<open>With neither a record nor an error, the handler logs \<open>acnError.Err\<close> of a nil \<open>acnError\<close>.\<close>

definition HandleAeaAddressStream ::
  "codec \<Rightarrow> 's DHTHandler \<Rightarrow> stream \<Rightarrow> 's \<Rightarrow> unit res \<times> stream \<times> 's" where
  "HandleAeaAddressStream C H st s =
     (case ReadLookupRequest C StreamPipe st of
        (Panic, st1) \<Rightarrow> (Panic, st1, s)
      | (Block, st1) \<Rightarrow> (Block, st1, s)
      | (Err e, st1) \<Rightarrow> (Ok (), stream_Reset st1, s)
      | (Ok reqAddress, st1) \<Rightarrow>
          (case handle_address H reqAddress s of
             (Panic, s1) \<Rightarrow> (Panic, st1, s1)
           | (Block, s1) \<Rightarrow> (Block, st1, s1)
           | (Err acnError, s1) \<Rightarrow>
               (case ignoring (SendAcnError C StreamPipe st1 (Error acnError)
                       (case acnError of ACNError c _ \<Rightarrow> [c] | _ \<Rightarrow> []))
                     (\<lambda>st2. (Ok (), stream_Close st2)) of (r, st2) \<Rightarrow> (r, st2, s1))
           | (Ok None, s1) \<Rightarrow> (Panic, st1, s1)
           | (Ok (Some record), s1) \<Rightarrow>
               (case SendLookupResponse C StreamPipe st1 (Some record) of
                  (Ok _, st2) \<Rightarrow> (Ok (), st2, s1)
                | (Err e, st2) \<Rightarrow> (Ok (), stream_Reset st2, s1)
                | (Panic, st2) \<Rightarrow> (Panic, st2, s1)
                | (Block, st2) \<Rightarrow> (Block, st2, s1))))"

section \<open>Streams\<close>

lemma stream_Read_frame:
  assumes "concat (rx st) = frame d @ rest" and "length d \<le> maxMessageSizeDelegateConnection"
  shows "\<exists>pieces. pipe_Read StreamPipe st = (Ok d, st\<lparr>rx := pieces\<rparr>)"
proof -
  obtain c' where c': "ReadBytes (Some st) = (Ok d, Some c')" "c' = st\<lparr>rx := rx c'\<rparr>"
    using ReadBytes_frame [OF assms] by blast
  then have "pipe_Read StreamPipe st = (Ok d, st\<lparr>rx := rx c'\<rparr>)" by (simp add: StreamPipe_def)
  then show ?thesis by blast
qed

lemma stream_Write_open:
  assumes "wcap st = None" and "d \<noteq> []" and "length d \<le> MaxInt32"
  shows "pipe_Write StreamPipe st d = (Ok (), st\<lparr>tx := tx st @ frame d\<rparr>)"
  using assms by (simp add: StreamPipe_def WriteBytes_conn_write conn_write_def)

lemma carries_laws:
  assumes "codec_ok C" and "carries C m b"
  shows "acn_Marshal C (Some m) = Inr b" "acn_Unmarshal C b = Inr (Some m)" "b \<noteq> []"
    "length b \<le> maxMessageSizeDelegateConnection" "length b \<le> MaxInt32"
  using assms codec_acn codec_acn_not_Nil max_message_le by (force simp: carries_def)+

lemma receive_valid:
  assumes "codec_ok C" and "carries C (AeaEnvelope \<lparr>ape_Envelope = eb, ape_Record = Some r\<rparr>) b"
    and "concat (rx st) = frame b @ rest" and "env_Unmarshal C eb = Inr e"
    and "valid_proof K r (Address r) (remote_key K st)"
  shows "\<exists>pieces. receiveEnvelopeFromPeer C K st = (Ok e, st\<lparr>rx := pieces\<rparr>)"
proof -
  note b = carries_laws [OF assms(1,2)]
  obtain pieces where "pipe_Read StreamPipe st = (Ok b, st\<lparr>rx := pieces\<rparr>)"
    using stream_Read_frame [OF assms(3) b(4)] by blast
  moreover have "remote_key K (st\<lparr>rx := pieces\<rparr>) = remote_key K st" by (simp add: remote_key_def)
  ultimately have "receiveEnvelopeFromPeer C K st = (Ok e, st\<lparr>rx := pieces\<rparr>)"
    using b(2) assms(4) PoR_valid [OF assms(5)]
    by (simp add: receiveEnvelopeFromPeer_def ReadEnvelopeMessage_def DecodeAcnMessage_def)
  then show ?thesis by blast
qed

text \<open>What a received envelope proves: a record with a valid proof for what \<open>remote_key\<close> gives came
  with it.\<close>

definition proven_by :: "codec \<Rightarrow> crypto \<Rightarrow> stream \<Rightarrow> bytes \<Rightarrow> Envelope \<Rightarrow> bool" where
  "proven_by C K st b e \<longleftrightarrow>
     (\<exists>pl r. acn_Unmarshal C b = Inr (Some (AeaEnvelope pl)) \<and> env_Unmarshal C (ape_Envelope pl) = Inr e
        \<and> ape_Record pl = Some r \<and> valid_proof K r (Address r) (remote_key K st))"

lemma receive_proven:
  assumes "receiveEnvelopeFromPeer C K st = (Ok e, st')"
  shows "\<exists>b st1. pipe_Read StreamPipe st = (Ok b, st1) \<and> proven_by C K st1 b e \<and> st' = st1"
proof -
  obtain pl st1 where pl: "ReadEnvelopeMessage C StreamPipe st = (Ok pl, st1)"
    using assms by (auto simp: receiveEnvelopeFromPeer_def then_do_Ok)
  have env: "env_Unmarshal C (ape_Envelope pl) = Inr e" and st: "st' = st1"
    using assms pl by (auto simp: receiveEnvelopeFromPeer_def ignoring_def split: sum.splits option.splits res.splits prod.splits if_splits)
  obtain r where r: "ape_Record pl = Some r" "valid_proof K r (Address r) (remote_key K st1)"
    using assms pl env PoR_success_iff [of K _ _ "remote_key K st1"]
    by (auto simp: receiveEnvelopeFromPeer_def ignoring_def split: option.splits res.splits prod.splits if_splits)
  obtain b where b: "pipe_Read StreamPipe st = (Ok b, st1)" "acn_Unmarshal C b = Inr (Some (AeaEnvelope pl))"
    using ReadEnvelopeMessage_Ok [OF pl] by blast
  with env r st show ?thesis by (auto simp: proven_by_def)
qed

section \<open>What reaches the agent\<close>

text \<open>The agent's side of a node changes only by the callback: \<open>delivered cb g g'\<close> says that \<open>g'\<close> comes from \<open>g\<close> by
  calls of it.\<close>

definition delivered :: "('e \<Rightarrow> 'g \<Rightarrow> unit res \<times> 'g) option \<Rightarrow> 'g \<Rightarrow> 'g \<Rightarrow> bool" where
  "delivered cb = (\<lambda>g g'. \<exists>f e r. cb = Some f \<and> f e g = (r, g'))\<^sup>*\<^sup>*"

lemma delivered_refl [simp]: "delivered cb g g"
  by (simp add: delivered_def)

lemma delivered_call: "f e g = (r, g') \<Longrightarrow> delivered (Some f) g g'"
  unfolding delivered_def by (intro r_into_rtranclp) auto

lemma delivered_trans: "\<lbrakk>delivered cb g g'; delivered cb g' g''\<rbrakk> \<Longrightarrow> delivered cb g g''"
  by (simp add: delivered_def)

lemma delivered_keeps:
  assumes "delivered (Some f) g g'" and "\<And>e g r g'. f e g = (r, g') \<Longrightarrow> m g' = m g"
  shows "m g' = m g"
  using assms(1) unfolding delivered_def by (induction rule: rtranclp_induct) (auto dest: assms(2))

section \<open>The contract of a node\<close>

locale dht_handler =
  fixes H :: "'s DHTHandler" and inv :: "'s \<Rightarrow> bool"
  assumes envelope_inv: "\<lbrakk>inv s; handle_envelope H e s = (r, s')\<rbrakk> \<Longrightarrow> inv s'"
    and envelope_error: "\<lbrakk>inv s; handle_envelope H e s = (Err x, s')\<rbrakk> \<Longrightarrow> \<exists>c m. x = ACNError c (ErrMsg m) \<and> c \<noteq> SUCCESS"
    and address_inv: "\<lbrakk>inv s; handle_address H a s = (q, s')\<rbrakk> \<Longrightarrow> inv s'"
    and address_error: "\<lbrakk>inv s; handle_address H a s = (Err x, s')\<rbrakk> \<Longrightarrow> \<exists>c m. x = ACNError c (ErrMsg m) \<and> c \<noteq> SUCCESS"
    and address_record: "\<lbrakk>inv s; handle_address H a s = (Ok rr, s')\<rbrakk> \<Longrightarrow> \<exists>rec. rr = Some rec \<and> Address rec = a"
begin

lemma envelope_stream_inv:
  assumes "inv s" and "HandleAeaEnvelopeStream C K H st s = (r, st', s')"
  shows "inv s'"
  using assms envelope_inv
  by (auto simp: HandleAeaEnvelopeStream_def split: prod.splits res.splits)

lemma address_stream_inv:
  assumes "inv s" and "HandleAeaAddressStream C H st s = (r, st', s')"
  shows "inv s'"
  using assms address_inv
  by (auto simp: HandleAeaAddressStream_def split: prod.splits res.splits option.splits)

text \<open>The node's state changes only for an envelope that came with a valid proof.\<close>

lemma envelope_stream_proven:
  assumes "HandleAeaEnvelopeStream C K H st s = (r, st', s')" and "s' \<noteq> s"
  shows "\<exists>b e st1. pipe_Read StreamPipe st = (Ok b, st1) \<and> proven_by C K st1 b e
    \<and> s' = snd (handle_envelope H e s)"
proof -
  obtain e st1 where e: "receiveEnvelopeFromPeer C K st = (Ok e, st1)"
    using assms by (cases "receiveEnvelopeFromPeer C K st"; cases "fst (receiveEnvelopeFromPeer C K st)")
      (auto simp: HandleAeaEnvelopeStream_def)
  then have "s' = snd (handle_envelope H e s)"
    using assms(1) by (auto simp: HandleAeaEnvelopeStream_def split: prod.splits res.splits)
  with receive_proven [OF e] show ?thesis by blast
qed

text \<open>The answers on the wire: success exactly when the node took the envelope, the node's code
  otherwise.\<close>

lemma envelope_stream_answer:
  assumes "codec_ok C" and "inv s" and "wcap st = None"
    and "carries C (AeaEnvelope \<lparr>ape_Envelope = eb, ape_Record = Some r\<rparr>) b"
    and "concat (rx st) = frame b @ rest" and "env_Unmarshal C eb = Inr e"
    and "valid_proof K r (Address r) (remote_key K st)"
    and "handle_envelope H e s = (Ok (), s')"
    and "carries C (Status (Some \<lparr>Code = SUCCESS, Msgs = []\<rparr>)) ok"
  shows "\<exists>st'. HandleAeaEnvelopeStream C K H st s = (Ok (), st', s') \<and> tx st' = tx st @ frame ok
    \<and> streamClosed st'"
proof -
  obtain pieces where rcv: "receiveEnvelopeFromPeer C K st = (Ok e, st\<lparr>rx := pieces\<rparr>)"
    using receive_valid [OF assms(1,4-7)] by blast
  note ok = carries_laws [OF assms(1,9)]
  have "pipe_Write StreamPipe (st\<lparr>rx := pieces\<rparr>) ok
      = (Ok (), st\<lparr>rx := pieces, tx := tx st @ frame ok\<rparr>)"
    using stream_Write_open [of "st\<lparr>rx := pieces\<rparr>" ok] assms(3) ok by simp
  with rcv assms(8) ok(1) show ?thesis
    by (simp add: HandleAeaEnvelopeStream_def SendAcnSuccess_def stream_Close_def)
qed

lemma envelope_stream_refusal:
  assumes "codec_ok C" and "inv s" and "wcap st = None"
    and "carries C (AeaEnvelope \<lparr>ape_Envelope = eb, ape_Record = Some r\<rparr>) b"
    and "concat (rx st) = frame b @ rest" and "env_Unmarshal C eb = Inr e"
    and "valid_proof K r (Address r) (remote_key K st)"
    and "handle_envelope H e s = (Err (ACNError c (ErrMsg m)), s')"
    and "carries C (Status (Some \<lparr>Code = c, Msgs = [m]\<rparr>)) a"
  shows "\<exists>st'. HandleAeaEnvelopeStream C K H st s = (Ok (), st', s') \<and> tx st' = tx st @ frame a
    \<and> streamClosed st'"
proof -
  obtain pieces where rcv: "receiveEnvelopeFromPeer C K st = (Ok e, st\<lparr>rx := pieces\<rparr>)"
    using receive_valid [OF assms(1,4-7)] by blast
  note ans = carries_laws [OF assms(1,9)]
  have "pipe_Write StreamPipe (st\<lparr>rx := pieces\<rparr>) a
      = (Ok (), st\<lparr>rx := pieces, tx := tx st @ frame a\<rparr>)"
    using stream_Write_open [of "st\<lparr>rx := pieces\<rparr>" a] assms(3) ans by simp
  with rcv assms(8) ans(1) show ?thesis
    by (simp add: HandleAeaEnvelopeStream_def SendAcnError_def stream_Close_def)
qed

text \<open>An address request is answered with a record of that address, and never with a panic.\<close>

lemma address_stream_found:
  assumes "codec_ok C" and "wcap st = None" and "carries C (LookupRequest a) b" and "concat (rx st) = frame b @ rest"
    and "handle_address H a s = (Ok (Some rec), s')" and "carries C (LookupResponse (Some rec)) x"
  shows "\<exists>st'. HandleAeaAddressStream C H st s = (Ok (), st', s') \<and> tx st' = tx st @ frame x"
proof -
  note b = carries_laws [OF assms(1,3)] and x = carries_laws [OF assms(1,6)]
  obtain pieces where "pipe_Read StreamPipe st = (Ok b, st\<lparr>rx := pieces\<rparr>)"
    using stream_Read_frame [OF assms(4) b(4)] by blast
  then have "ReadLookupRequest C StreamPipe st = (Ok a, st\<lparr>rx := pieces\<rparr>)"
    using b(2) by (simp add: ReadLookupRequest_def)
  moreover have "pipe_Write StreamPipe (st\<lparr>rx := pieces\<rparr>) x = (Ok (), st\<lparr>rx := pieces, tx := tx st @ frame x\<rparr>)"
    using stream_Write_open [of "st\<lparr>rx := pieces\<rparr>" x] assms(2) x by simp
  ultimately have "HandleAeaAddressStream C H st s = (Ok (), st\<lparr>rx := pieces, tx := tx st @ frame x\<rparr>, s')"
    using assms(5) x(1) by (simp add: HandleAeaAddressStream_def SendLookupResponse_def)
  then show ?thesis by simp
qed

lemma address_stream_answer:
  assumes "codec_ok C" and "inv s" and "wcap st = None"
    and "carries C (LookupRequest a) b" and "concat (rx st) = frame b @ rest"
    and "handle_address H a s = (Ok r, s')"
    and "\<forall>rec. r = Some rec \<longrightarrow> (\<exists>x. carries C (LookupResponse (Some rec)) x)"
  shows "\<exists>rec x st'. Address rec = a \<and> carries C (LookupResponse (Some rec)) x
    \<and> HandleAeaAddressStream C H st s = (Ok (), st', s') \<and> tx st' = tx st @ frame x"
proof -
  obtain rec where rec: "r = Some rec" "Address rec = a"
    using address_record [OF assms(2,6)] by blast
  obtain x where x: "carries C (LookupResponse (Some rec)) x" using assms(7) rec(1) by blast
  from address_stream_found [OF assms(1,3-5) assms(6) [unfolded rec(1)] x] rec(2) x show ?thesis by blast
qed

end

end
