(* ===== verification/DhtPeer.thy ===== *)
theory DhtPeer
  imports Aea Mailbox Handlers
begin

text \<open>
  The state of \<open>DHTPeer\<close> (\<open>dht/dhtpeer/dhtpeer.go\<close>) and its smaller operations: address
  announcement, acknowledgements of delegate clients, the persistent store of agent records.
  Lookup and routing, and the handlers of incoming streams and connections, are in the theories
  that import this one.

  The network is part of the state as a script, \<open>world\<close>: the answers of libp2p, of the Kademlia
  library and of the clock, in the order in which they are asked for, and a log of the streams
  that were used. A script that has run out answers with a timeout. Connections of delegate
  clients live in a store, \<open>conns\<close>, and \<open>tcpAddresses\<close> refers to them by number, since the map and the
  goroutine of the connection share them. Gauges and counters hold integral floats, here
  integers. Latency histograms, loggers and sleeps are left out.
\<close>

section \<open>State\<close>

record world =
  w_NewStream :: "(err + stream) list"
  w_FindProviders :: "peerID list list"
  w_retries :: "nat list"
  w_Provide :: "err option list"
  w_RoutingTable :: "bool list"
  w_agentReady :: "bool list"
  w_statuses :: "StatusBody list list"
  w_used :: "(peerID \<times> string \<times> stream) list"
  w_provided :: "address list"

record PeerConfig =
  cfg_host :: string
  cfg_port :: "16 word"
  publicHost :: string
  publicPort :: "16 word"
  delegatePort :: "16 word"
  monitoringPort :: "16 word"
  enableRelay :: bool
  mailboxHostPort :: string
  peer_registrationDelay :: int
  peer_key :: "privkey option"
  peer_publicKey :: pubkey
  localMultiaddr :: "string option"
  publicMultiaddr :: "string option"
  bootstrapPeers :: "peerID list"
  myAgentAddress :: address
  myAgentRecord :: "AgentRecord option"
  myAgentReady :: bool
  persistentStoragePath :: string

record metrics =
  routeCount :: int
  routeCountAll :: nat
  routeCountSuccess :: nat
  delegateClients :: int
  delegateClientsAll :: nat
  relayClientsAll :: nat

text \<open>The store of agent records: the bytes of the file and what a write to it answers.\<close>

record record_file =
  file_bytes :: bytes
  file_error :: "err option"

record 'g DHTPeer =
  cfg :: PeerConfig
  mailboxServer :: "MailboxServer option"
  addressAnnouncedMap :: "address set"
  enableAddressAnnouncement :: bool
  dhtAddresses :: "address \<rightharpoonup> string"
  acnStatuses :: "address \<rightharpoonup> StatusBody chan"
  tcpAddresses :: "address \<rightharpoonup> nat"
  conns :: "nat \<Rightarrow> conn"
  peerRecords :: "address \<rightharpoonup> AgentRecord"
  processEnvelope :: "(Envelope \<Rightarrow> 'g \<Rightarrow> unit res \<times> 'g) option"
  agent :: 'g
  storage :: record_file
  isClosing :: bool
  syncMessages :: "string \<rightharpoonup> Envelope chan"
  slow_queue :: "Envelope chan"
  metric :: metrics
  net :: world

definition AcnStatusesQueueSize :: nat where
  "AcnStatusesQueueSize = 1000"

definition SlowQueueSize :: nat where
  "SlowQueueSize = 100"

section \<open>Asking the network\<close>

definition host_NewStream :: "'g DHTPeer \<Rightarrow> (err + stream) \<times> 'g DHTPeer" where
  "host_NewStream s =
     (case script_pop (Inl DeadlineExceeded) (w_NewStream (net s)) of
        (r, rest) \<Rightarrow> (r, s\<lparr>net := (net s)\<lparr>w_NewStream := rest\<rparr>\<rparr>))"

text \<open>The stream is done with: what was written to it is in the log.\<close>

definition log_stream :: "peerID \<Rightarrow> string \<Rightarrow> stream \<Rightarrow> 'g DHTPeer \<Rightarrow> 'g DHTPeer" where
  "log_stream p proto st s = s\<lparr>net := (net s)\<lparr>w_used := w_used (net s) @ [(p, proto, st)]\<rparr>\<rparr>"

definition FindProviders :: "'g DHTPeer \<Rightarrow> peerID list \<times> 'g DHTPeer" where
  "FindProviders s =
     (case script_pop [] (w_FindProviders (net s)) of
        (ps, rest) \<Rightarrow> (ps, s\<lparr>net := (net s)\<lparr>w_FindProviders := rest\<rparr>\<rparr>))"

definition lookup_deadline :: "'g DHTPeer \<Rightarrow> nat \<times> 'g DHTPeer" where
  "lookup_deadline s =
     (case script_pop 0 (w_retries (net s)) of
        (n, rest) \<Rightarrow> (n, s\<lparr>net := (net s)\<lparr>w_retries := rest\<rparr>\<rparr>))"

definition dht_Provide :: "address \<Rightarrow> 'g DHTPeer \<Rightarrow> err option \<times> 'g DHTPeer" where
  "dht_Provide addr s =
     (case script_pop (Some DeadlineExceeded) (w_Provide (net s)) of
        (r, rest) \<Rightarrow>
          (r, s\<lparr>net := (net s)\<lparr>w_Provide := rest,
             w_provided := (if r = None then w_provided (net s) @ [addr] else w_provided (net s))\<rparr>\<rparr>))"

definition status_arrivals :: "'g DHTPeer \<Rightarrow> StatusBody list \<times> 'g DHTPeer" where
  "status_arrivals s =
     (case script_pop [] (w_statuses (net s)) of
        (vs, rest) \<Rightarrow> (vs, s\<lparr>net := (net s)\<lparr>w_statuses := rest\<rparr>\<rparr>))"

section \<open>Metrics\<close>

definition routeCount_add :: "int \<Rightarrow> 'g DHTPeer \<Rightarrow> 'g DHTPeer" where
  "routeCount_add d s = s\<lparr>metric := (metric s)\<lparr>routeCount := routeCount (metric s) + d\<rparr>\<rparr>"

definition routeCountAll_Inc :: "'g DHTPeer \<Rightarrow> 'g DHTPeer" where
  "routeCountAll_Inc s = s\<lparr>metric := (metric s)\<lparr>routeCountAll := Suc (routeCountAll (metric s))\<rparr>\<rparr>"

definition routeCountSuccess_Inc :: "'g DHTPeer \<Rightarrow> 'g DHTPeer" where
  "routeCountSuccess_Inc s =
     s\<lparr>metric := (metric s)\<lparr>routeCountSuccess := Suc (routeCountSuccess (metric s))\<rparr>\<rparr>"

definition delegateClients_add :: "int \<Rightarrow> 'g DHTPeer \<Rightarrow> 'g DHTPeer" where
  "delegateClients_add d s =
     s\<lparr>metric := (metric s)\<lparr>delegateClients := delegateClients (metric s) + d\<rparr>\<rparr>"

definition delegateClientsAll_Inc :: "'g DHTPeer \<Rightarrow> 'g DHTPeer" where
  "delegateClientsAll_Inc s =
     s\<lparr>metric := (metric s)\<lparr>delegateClientsAll := Suc (delegateClientsAll (metric s))\<rparr>\<rparr>"

definition relayClientsAll_Inc :: "'g DHTPeer \<Rightarrow> 'g DHTPeer" where
  "relayClientsAll_Inc s =
     s\<lparr>metric := (metric s)\<lparr>relayClientsAll := Suc (relayClientsAll (metric s))\<rparr>\<rparr>"

section \<open>Announcing addresses\<close>

definition IsAddressAnnounced :: "address \<Rightarrow> 'g DHTPeer \<Rightarrow> bool" where
  "IsAddressAnnounced addr s \<longleftrightarrow> addr \<in> addressAnnouncedMap s"

definition setAddressAnnounced :: "address \<Rightarrow> 'g DHTPeer \<Rightarrow> 'g DHTPeer" where
  "setAddressAnnounced addr s = s\<lparr>addressAnnouncedMap := insert addr (addressAnnouncedMap s)\<rparr>"

definition IsAddressAnnouncementEnabled :: "'g DHTPeer \<Rightarrow> bool" where
  "IsAddressAnnouncementEnabled s = enableAddressAnnouncement s"

definition RegisterAgentAddress :: "crypto \<Rightarrow> address \<Rightarrow> 'g DHTPeer \<Rightarrow> unit res \<times> 'g DHTPeer" where
  "RegisterAgentAddress K addr s =
     (if IsAddressAnnounced addr s then (Ok (), s)
      else
        let s1 = setAddressAnnounced addr s in
        case ComputeCID K addr of
          Inl e \<Rightarrow> (Err e, s1)
        | Inr addressCID \<Rightarrow>
            (case dht_Provide addr s1 of
               (None, s2) \<Rightarrow> (Ok (), s2)
             | (Some e, s2) \<Rightarrow> if e \<noteq> DeadlineExceeded then (Err e, s2) else (Ok (), s2)))"

text \<open>\<open>for addr := range m { RegisterAgentAddress(addr) }\<close>, with the keys in the order of the range;
  errors are logged.\<close>

fun announce_all :: "crypto \<Rightarrow> address list \<Rightarrow> 'g DHTPeer \<Rightarrow> 'g DHTPeer" where
  "announce_all K [] s = s"
| "announce_all K (addr # addrs) s = announce_all K addrs (snd (RegisterAgentAddress K addr s))"

section \<open>Acknowledgements of delegate clients\<close>

text \<open>Sending on the channel of an address without one, a nil channel, never returns.\<close>

definition AddAcnStatusMessage ::
  "StatusBody \<Rightarrow> string \<Rightarrow> 'g DHTPeer \<Rightarrow> unit res \<times> 'g DHTPeer" where
  "AddAcnStatusMessage status counterpartyID s =
     (case chan_send status (acnStatuses s counterpartyID) of
        (r, ch) \<Rightarrow> (r, s\<lparr>acnStatuses := (acnStatuses s)(counterpartyID := ch)\<rparr>))"

definition AwaitAcnStatus :: "string \<Rightarrow> 'g DHTPeer \<Rightarrow> unit res \<times> 'g DHTPeer" where
  "AwaitAcnStatus counterpartyID s =
     (case status_arrivals s of
        (arrivals, s1) \<Rightarrow>
          (case WaitForStatus (chan_arrive arrivals (acnStatuses s1 counterpartyID)) of
             (r, ch) \<Rightarrow>
               (let s2 = s1\<lparr>acnStatuses := (acnStatuses s1)(counterpartyID := ch)\<rparr> in
                case r of
                  Ok status \<Rightarrow>
                    (if Code status \<noteq> SUCCESS then Err (ErrMsg ''bad status!'') else Ok (), s2)
                | Err e \<Rightarrow> (Err e, s2)
                | Panic \<Rightarrow> (Panic, s2)
                | Block \<Rightarrow> (Block, s2))))"

section \<open>The store of agent records\<close>

text \<open>An error of \<open>proto.Marshal\<close> is ignored; the message is nil then.\<close>

definition formatPersistentStorageLine :: "codec \<Rightarrow> AgentRecord \<Rightarrow> bytes" where
  "formatPersistentStorageLine C r = (case rec_Marshal C r of Inl _ \<Rightarrow> [] | Inr msg \<Rightarrow> msg)"

definition parsePersistentStorageLine :: "codec \<Rightarrow> bytes \<Rightarrow> err + AgentRecord" where
  "parsePersistentStorageLine C line = rec_Unmarshal C line"

text \<open>A write to the file appends the whole frame or fails and leaves the file as it was. \<open>os.File.Write\<close> may also fail after
  a part of the frame (a full disk), and the code does not look at how much was written; that case is not modelled.\<close>

definition saveAgentRecordToPersistentStorage ::
  "codec \<Rightarrow> AgentRecord \<Rightarrow> record_file \<Rightarrow> unit res \<times> record_file" where
  "saveAgentRecordToPersistentStorage C r f =
     (let msg = formatPersistentStorageLine C r in
      if length msg = 0 then (Err (ErrMsg (''while formating record '' @ rec_String C r)), f)
      else case file_error f of
        Some e \<Rightarrow> (Err (Wrapped e ''while writing record to persistent storage''), f)
      | None \<Rightarrow> (Ok (), f\<lparr>file_bytes := file_bytes f @ PutUint32 (of_nat (length msg)) @ msg\<rparr>))"

text \<open>The loading loop, on the bytes of the file that are still unread: at the end of the file it
  stops; a file that ends within a size or a record is an error, as is a record that does not
  parse or whose peer key is no key. The maps keep what was loaded before an error.\<close>

function load_records ::
  "codec \<Rightarrow> crypto \<Rightarrow> bytes \<Rightarrow> nat \<Rightarrow> (address \<rightharpoonup> AgentRecord) \<Rightarrow> (address \<rightharpoonup> string) \<Rightarrow>
   nat res \<times> (address \<rightharpoonup> AgentRecord) \<times> (address \<rightharpoonup> string)" where
  "load_records C K bs counter recs addrs =
     (if bs = [] then (Ok counter, recs, addrs)
      else if length bs < 4 then (Err (Wrapped UnexpectedEOF ''while loading agent records''), recs, addrs)
      else
        let size = unat (Uint32 (take 4 bs)); rest = drop 4 bs; line = take size rest in
        if length rest < size
        then (Err (Wrapped (if rest = [] then EOF else UnexpectedEOF) ''while loading agent records''), recs, addrs)
        else case parsePersistentStorageLine C line of
          Inl e \<Rightarrow> (Err (Wrapped e ''while loading agent records''), recs, addrs)
        | Inr r \<Rightarrow>
            (let recs1 = recs(Address r \<mapsto> r) in
             case IDFromFetchAIPublicKey K (PeerPublicKey r) of
               Inl e \<Rightarrow> (Err (Wrapped e ''While loading agent records''), recs1, addrs)
             | Inr relayPeerID \<Rightarrow>
                 load_records C K (drop size rest) (Suc counter) recs1
                   (addrs(Address r \<mapsto> peer_String K relayPeerID))))"
  by pat_completeness auto
termination
  by (relation "measure (\<lambda>(C, K, bs, n, recs, addrs). length bs)") auto

declare load_records.simps [simp del]

definition initAgentRecordPersistentStorage ::
  "codec \<Rightarrow> crypto \<Rightarrow> (err + bytes) \<Rightarrow> 'g DHTPeer \<Rightarrow> nat res \<times> 'g DHTPeer" where
  "initAgentRecordPersistentStorage C K opened s =
     (case opened of
        Inl e \<Rightarrow> (Err e, s)
      | Inr bs \<Rightarrow>
          (case load_records C K bs 0 (peerRecords s) (dhtAddresses s) of
             (r, recs, addrs) \<Rightarrow>
               (r, s\<lparr>storage := \<lparr>file_bytes = bs, file_error = None\<rparr>, peerRecords := recs,
                     dhtAddresses := addrs\<rparr>)))"

section \<open>Proofs of representation for this peer\<close>

definition CheckPOR :: "crypto \<Rightarrow> AgentRecord option \<Rightarrow> 'g DHTPeer \<Rightarrow> (StatusBody \<times> err option) res" where
  "CheckPOR K record s =
     (case record of
        None \<Rightarrow> Panic
      | Some r \<Rightarrow>
          IsValidProofOfRepresentation K (Some r) (Address r)
            (case FetchAIPublicKeyFromPubKey K (peer_publicKey (cfg s)) of Inl _ \<Rightarrow> [] | Inr k \<Rightarrow> k))"

section \<open>Facts about announcing\<close>

lemma RegisterAgentAddress_announced: "addr \<in> addressAnnouncedMap (snd (RegisterAgentAddress K addr s))"
  by (auto simp: RegisterAgentAddress_def IsAddressAnnounced_def setAddressAnnounced_def dht_Provide_def
      Let_def split: sum.splits option.splits prod.splits)

lemma RegisterAgentAddress_again: "RegisterAgentAddress K addr (snd (RegisterAgentAddress K addr s))
    = (Ok (), snd (RegisterAgentAddress K addr s))"
  using RegisterAgentAddress_announced [of addr K s]
  by (simp add: RegisterAgentAddress_def [of K addr "snd (RegisterAgentAddress K addr s)"] IsAddressAnnounced_def)

lemma RegisterAgentAddress_frame:
  "snd (RegisterAgentAddress K addr s) =
     s\<lparr>addressAnnouncedMap := insert addr (addressAnnouncedMap s), net := net (snd (RegisterAgentAddress K addr s))\<rparr>"
  by (auto simp: RegisterAgentAddress_def IsAddressAnnounced_def setAddressAnnounced_def dht_Provide_def
      Let_def insert_absorb split: sum.splits option.splits prod.splits)

section \<open>Facts about the store\<close>

text \<open>What a sequence of saves writes, and that loading it gives the records back: later records
  of an address replace earlier ones, as in the live maps.\<close>

fun save_all :: "codec \<Rightarrow> AgentRecord list \<Rightarrow> record_file \<Rightarrow> record_file" where
  "save_all C [] f = f"
| "save_all C (r # rs) f = save_all C rs (snd (saveAgentRecordToPersistentStorage C r f))"

definition storable :: "codec \<Rightarrow> crypto \<Rightarrow> AgentRecord \<Rightarrow> bool" where
  "storable C K r \<longleftrightarrow>
     (\<exists>b. rec_Marshal C r = Inr b \<and> b \<noteq> [] \<and> length b \<le> MaxInt32) \<and>
     (\<exists>p. IDFromFetchAIPublicKey K (PeerPublicKey r) = Inr p)"

lemma save_storable:
  assumes "storable C K r" and "file_error f = None"
  shows "\<exists>b. rec_Marshal C r = Inr b \<and> length b \<le> MaxInt32 \<and> b \<noteq> []
    \<and> saveAgentRecordToPersistentStorage C r f = (Ok (), f\<lparr>file_bytes := file_bytes f @ frame b\<rparr>)"
  using assms
  by (auto simp: storable_def saveAgentRecordToPersistentStorage_def formatPersistentStorageLine_def
      frame_def Let_def)

lemma frame_not_Nil [simp]: "frame d \<noteq> []"
  using length_frame [of d] by (metis add_is_0 list.size(3) zero_neq_numeral)

lemma load_frame:
  assumes "codec_ok C" and "rec_Marshal C r = Inr b" and "length b \<le> MaxInt32"
    and "IDFromFetchAIPublicKey K (PeerPublicKey r) = Inr p"
  shows "load_records C K (frame b @ rest) n recs addrs
    = load_records C K rest (Suc n) (recs(Address r \<mapsto> r)) (addrs(Address r \<mapsto> peer_String K p))"
proof -
  have "take 4 (frame b @ rest) = PutUint32 (of_nat (length b))" "drop 4 (frame b @ rest) = b @ rest"
    by (simp_all add: frame_def)
  then show ?thesis
    using assms codec_rec [OF assms(1,2)] frame_size [OF assms(3)]
    by (subst load_records.simps) (simp add: parsePersistentStorageLine_def Let_def)
qed

definition relay_of :: "crypto \<Rightarrow> AgentRecord \<Rightarrow> string" where
  "relay_of K r = (case IDFromFetchAIPublicKey K (PeerPublicKey r) of Inl _ \<Rightarrow> [] | Inr p \<Rightarrow> peer_String K p)"

lemma save_all_bytes:
  assumes "\<forall>r \<in> set rs. storable C K r" and "file_error f = None"
  shows "\<exists>bs. list_all2 (\<lambda>r b. rec_Marshal C r = Inr b \<and> length b \<le> MaxInt32) rs bs
    \<and> save_all C rs f = f\<lparr>file_bytes := file_bytes f @ concat (map frame bs)\<rparr>"
  using assms
proof (induction rs arbitrary: f)
  case (Cons r rs)
  then obtain b where b: "rec_Marshal C r = Inr b" "length b \<le> MaxInt32"
      "saveAgentRecordToPersistentStorage C r f = (Ok (), f\<lparr>file_bytes := file_bytes f @ frame b\<rparr>)"
    using save_storable [of C K r f] by auto
  obtain bs where "list_all2 (\<lambda>r b. rec_Marshal C r = Inr b \<and> length b \<le> MaxInt32) rs bs"
      "save_all C rs (f\<lparr>file_bytes := file_bytes f @ frame b\<rparr>)
        = f\<lparr>file_bytes := (file_bytes f @ frame b) @ concat (map frame bs)\<rparr>"
    using Cons.IH [of "f\<lparr>file_bytes := file_bytes f @ frame b\<rparr>"] Cons.prems by auto
  with b show ?case by (intro exI [of _ "b # bs"]) simp
qed simp

lemma load_all:
  assumes "codec_ok C" and "\<forall>r \<in> set rs. storable C K r"
    and "list_all2 (\<lambda>r b. rec_Marshal C r = Inr b \<and> length b \<le> MaxInt32) rs bs"
  shows "load_records C K (concat (map frame bs)) n recs addrs
    = (Ok (n + length rs), recs(map Address rs [\<mapsto>] rs), addrs(map Address rs [\<mapsto>] map (relay_of K) rs))"
  using assms(3,2)
proof (induction rs bs arbitrary: n recs addrs rule: list_all2_induct)
  case Nil
  then show ?case by (simp add: load_records.simps)
next
  case (Cons r rs b bs)
  then obtain p where "IDFromFetchAIPublicKey K (PeerPublicKey r) = Inr p" by (auto simp: storable_def)
  with Cons load_frame [OF assms(1), of r b K p] show ?case by (simp add: relay_of_def)
qed

section \<open>An example peer\<close>

text \<open>A peer for the witnesses: its agent is \<open>cosmosA\<close>, its key is 7, the agent collects its envelopes in
  a list.\<close>

definition ex_cfg :: PeerConfig where
  "ex_cfg = \<lparr>cfg_host = [], cfg_port = 0, publicHost = [], publicPort = 0, delegatePort = 1, monitoringPort = 0,
     enableRelay = True, mailboxHostPort = [], peer_registrationDelay = 0, peer_key = Some 7, peer_publicKey = (0, 7),
     localMultiaddr = None, publicMultiaddr = None, bootstrapPeers = [], myAgentAddress = ''cosmosA'',
     myAgentRecord = Some (ex_record 65 7), myAgentReady = False, persistentStoragePath = []\<rparr>"

definition ex_net :: "(err + stream) list \<Rightarrow> peerID list list \<Rightarrow> world" where
  "ex_net streams providers = \<lparr>w_NewStream = streams, w_FindProviders = providers, w_retries = [], w_Provide = [],
     w_RoutingTable = [], w_agentReady = [], w_statuses = [], w_used = [], w_provided = []\<rparr>"

definition ex_peer_state :: "world \<Rightarrow> Envelope list DHTPeer" where
  "ex_peer_state w = \<lparr>cfg = ex_cfg, mailboxServer = None, addressAnnouncedMap = {}, enableAddressAnnouncement = False,
     dhtAddresses = Map.empty, acnStatuses = Map.empty, tcpAddresses = Map.empty,
     conns = (\<lambda>_. \<lparr>rx = [], rx_end = None, tx = [], wcap = None\<rparr>), peerRecords = Map.empty,
     processEnvelope = Some (\<lambda>e g. (Ok (), g @ [e])), agent = [],
     storage = \<lparr>file_bytes = [], file_error = None\<rparr>, isClosing = False, syncMessages = Map.empty,
     slow_queue = make_chan SlowQueueSize,
     metric = \<lparr>routeCount = 0, routeCountAll = 0, routeCountSuccess = 0, delegateClients = 0, delegateClientsAll = 0,
       relayClientsAll = 0\<rparr>, net = w\<rparr>"

definition ex_stream :: "bytes list \<Rightarrow> nat \<Rightarrow> stream" where
  "ex_stream pieces k = \<lparr>rx = pieces, rx_end = None, tx = [], wcap = None, remotePublicKey = (0, k),
     remotePeer = replicate k CHR ''p'', streamClosed = False, streamReset = False\<rparr>"

lemma ex_stream_simps [simp]:
  "rx (ex_stream ps k) = ps" "rx_end (ex_stream ps k) = None" "tx (ex_stream ps k) = []" "wcap (ex_stream ps k) = None"
  "remotePeer (ex_stream ps k) = replicate k CHR ''p''" "remote_key ex_crypto (ex_stream ps k) = ex_key (of_nat k)"
  by (simp_all add: ex_stream_def remote_key_def ex_pubkey)

lemma ex_peer_simps [simp]:
  "cfg (ex_peer_state w) = ex_cfg" "mailboxServer (ex_peer_state w) = None" "tcpAddresses (ex_peer_state w) = Map.empty"
  "dhtAddresses (ex_peer_state w) = Map.empty" "peerRecords (ex_peer_state w) = Map.empty" "net (ex_peer_state w) = w"
  "agent (ex_peer_state w) = []" "processEnvelope (ex_peer_state w) = Some (\<lambda>e g. (Ok (), g @ [e]))"
  "slow_queue (ex_peer_state w) = make_chan SlowQueueSize"
  by (simp_all add: ex_peer_state_def)

lemma ex_net_simps [simp]:
  "w_NewStream (ex_net ss ps) = ss" "w_FindProviders (ex_net ss ps) = ps" "w_used (ex_net ss ps) = []"
  by (simp_all add: ex_net_def)

lemma ex_cfg_simps [simp]:
  "myAgentAddress ex_cfg = ''cosmosA''" "myAgentRecord ex_cfg = Some (ex_record 65 7)" "peer_publicKey ex_cfg = (0, 7)"
  "myAgentReady ex_cfg = False"
  by (simp_all add: ex_cfg_def)

section \<open>Properties of announcing and storing\<close>

text \<open>C21: The records that a peer has appended to its store come back when the store is loaded: as many as were
  saved, each under its address with the relay peer of its key, a later record of an address replacing an
  earlier one.\<close>

theorem storage_roundtrip:
  assumes "codec_ok C" and "\<forall>r \<in> set rs. storable C K r"
    and "f = save_all C rs \<lparr>file_bytes = [], file_error = None\<rparr>"
    and "initAgentRecordPersistentStorage C K (Inr (file_bytes f)) s = (x, s')"
  shows "x = Ok (length rs) \<and> peerRecords s' = (peerRecords s)(map Address rs [\<mapsto>] rs)
    \<and> dhtAddresses s' = (dhtAddresses s)(map Address rs [\<mapsto>] map (relay_of K) rs)
    \<and> file_bytes (storage s') = file_bytes f"
proof -
  obtain bs where bs: "list_all2 (\<lambda>r b. rec_Marshal C r = Inr b \<and> length b \<le> MaxInt32) rs bs"
      "file_bytes f = concat (map frame bs)"
    using save_all_bytes [OF assms(2), of "\<lparr>file_bytes = [], file_error = None\<rparr>"] assms(3) by auto
  show ?thesis
    using assms(4) load_all [OF assms(1,2) bs(1), of 0] bs(2)
    by (auto simp: initAgentRecordPersistentStorage_def)
qed

definition ex_store_codec :: codec where
  "ex_store_codec = table_codec [] [] [(ex_record 65 7, [1]), (ex_record 66 2, [2])]"

lemma storage_roundtrip_witness:
  "\<exists>s'. initAgentRecordPersistentStorage ex_store_codec ex_crypto
      (Inr (file_bytes (save_all ex_store_codec [ex_record 65 7, ex_record 66 2] \<lparr>file_bytes = [], file_error = None\<rparr>)))
      (ex_peer_state (ex_net [] [])) = (Ok 2, s')
    \<and> dhtAddresses s' ''cosmosB'' = Some ''pp''"
proof -
  have ok: "codec_ok ex_store_codec" unfolding ex_store_codec_def by (intro codec_ok_table) simp_all
  have ne: "ex_record 66 2 \<noteq> ex_record 65 7"
  proof
    assume "ex_record 66 2 = ex_record 65 7"
    then have "Address (ex_record 66 2) = Address (ex_record 65 7)" by (rule arg_cong)
    then show False by simp
  qed
  have st: "\<forall>r \<in> set [ex_record 65 7, ex_record 66 2]. storable ex_store_codec ex_crypto r"
    using ne by (simp add: storable_def ex_store_codec_def table_codec_def ex_peer MaxInt32_def)
  obtain x s' where i: "initAgentRecordPersistentStorage ex_store_codec ex_crypto
      (Inr (file_bytes (save_all ex_store_codec [ex_record 65 7, ex_record 66 2] \<lparr>file_bytes = [], file_error = None\<rparr>)))
      (ex_peer_state (ex_net [] [])) = (x, s')" by (metis surj_pair)
  have "relay_of ex_crypto (ex_record 66 2) = replicate 2 CHR ''p''" by (simp add: relay_of_def ex_peer)
  also have "\<dots> = ''pp''" by (simp add: numeral_2_eq_2)
  finally have "relay_of ex_crypto (ex_record 66 2) = ''pp''" .
  with storage_roundtrip [OF ok st refl i] i show ?thesis by simp
qed

text \<open>An address is marked as announced before the announcement is made and never unmarked, so a second
  attempt after a failed one reports success without asking the network: the state does not change.\<close>

lemma announcement_never_retried:
  "RegisterAgentAddress K addr (snd (RegisterAgentAddress K addr s)) = (Ok (), snd (RegisterAgentAddress K addr s))"
  by (rule RegisterAgentAddress_again)

end
