(* ===== verification/DhtPeerRoute.thy ===== *)
theory DhtPeerRoute
  imports DhtPeer
begin

text \<open>
  Routing of envelopes by a peer (\<open>dht/dhtpeer/dhtpeer.go\<close>): the sender's record, the lookup of an
  address in the DHT, the delivery over a new stream, \<open>RouteEnvelope\<close> and the slow queue.

  The facts: a lookup that succeeds gives a record of the address asked for with a valid proof, and
  the peer of its key; a lookup that fails always has an error, so no envelope is ever sent to the
  empty peer; routing changes nothing but the network, the queues and the gauges; the sender must
  be registered here; an envelope for another peer is written to one stream, with the sender's
  record, and the outcome is the status that comes back.
\<close>

section \<open>Looking up\<close>

definition getEnvelopeAcnRecord :: "Envelope \<Rightarrow> 'g DHTPeer \<Rightarrow> AgentRecord option res" where
  "getEnvelopeAcnRecord envel s =
     (let sender = Sender envel in
      if sender = myAgentAddress (cfg s) then Ok (myAgentRecord (cfg s))
      else case mailboxServer s of
        Some mb \<Rightarrow>
          if IsAddrRegistered sender mb then Ok (mailbox_GetAgentRecord sender mb)
          else (case peerRecords s sender of
                  Some r \<Rightarrow> Ok (Some r)
                | None \<Rightarrow> Err (ErrMsg (''Envelope sender is not registered locally '' @ sender)))
      | None \<Rightarrow>
          (case peerRecords s sender of
             Some r \<Rightarrow> Ok (Some r)
           | None \<Rightarrow> Err (ErrMsg (''Envelope sender is not registered locally '' @ sender))))"

text \<open>One provider: \<open>Inl\<close> when the function returns, \<open>Inr\<close> with the error when the loop goes on to the
  next provider.\<close>

definition try_provider ::
  "codec \<Rightarrow> crypto \<Rightarrow> address \<Rightarrow> peerID \<Rightarrow> 'g DHTPeer \<Rightarrow>
   ((peerID \<times> AgentRecord option) res + err) \<times> 'g DHTPeer" where
  "try_provider C K address provider s =
     (case host_NewStream s of
        (Inl e, s1) \<Rightarrow> (Inr e, s1)
      | (Inr stream, s1) \<Rightarrow>
          (case PerformAddressLookup C StreamPipe stream address of
             (r, st) \<Rightarrow>
               (let s2 = log_stream provider AeaAddressStream (stream_Close (stream_Reset st)) s1 in
                case r of
                  Panic \<Rightarrow> (Inl Panic, s2)
                | Block \<Rightarrow> (Inl Block, s2)
                | Err e \<Rightarrow> (Inr e, s2)
                | Ok None \<Rightarrow> (Inl Panic, s2)
                | Ok (Some record) \<Rightarrow>
                    (case IsValidProofOfRepresentation K (Some record) address (PeerPublicKey record) of
                       Panic \<Rightarrow> (Inl Panic, s2)
                     | Block \<Rightarrow> (Inl Block, s2)
                     | Err e \<Rightarrow> (Inr e, s2)
                     | Ok (valid, err) \<Rightarrow>
                         (let errMsg = StatusCode_String (Code valid) @ '' : '' @ Join (Msgs valid) '':'' in
                          if err \<noteq> None \<or> Code valid \<noteq> SUCCESS
                          then (Inr (case err of None \<Rightarrow> ErrMsg errMsg | Some e \<Rightarrow> Wrapped e errMsg), s2)
                          else case IDFromFetchAIPublicKey K (PeerPublicKey record) of
                            Inl e \<Rightarrow>
                              (Inl (Err (ErrMsg (''CRITICAL couldn't get peer ID from message:'' @ Error e))), s2)
                          | Inr peerid \<Rightarrow> (Inl (Ok (peerid, Some record)), s2))))))"

fun try_providers ::
  "codec \<Rightarrow> crypto \<Rightarrow> address \<Rightarrow> peerID list \<Rightarrow> err option \<Rightarrow> 'g DHTPeer \<Rightarrow>
   ((peerID \<times> AgentRecord option) res + err option) \<times> 'g DHTPeer" where
  "try_providers C K address [] e s = (Inr e, s)"
| "try_providers C K address (p # ps) e s =
     (case try_provider C K address p s of
        (Inl r, s1) \<Rightarrow> (Inl r, s1)
      | (Inr e1, s1) \<Rightarrow> try_providers C K address ps (Some e1) s1)"

text \<open>The outer loop, with the number of turns that fit into the deadline. The empty peer comes back
  with whatever \<open>err\<close> holds at that point, nil included.\<close>

fun lookup_loop ::
  "codec \<Rightarrow> crypto \<Rightarrow> address \<Rightarrow> nat \<Rightarrow> 'g DHTPeer \<Rightarrow>
   (peerID \<times> AgentRecord option) res \<times> 'g DHTPeer" where
  "lookup_loop C K address n s =
     (case FindProviders s of
        (providers, s1) \<Rightarrow>
          (case try_providers C K address providers None s1 of
             (Inl r, s2) \<Rightarrow> (r, s2)
           | (Inr e, s2) \<Rightarrow>
               if providers = [] \<or> last providers = []
               then (case n of
                       0 \<Rightarrow> (Err (ErrMsg (''didn't find any provider for address'' @ '' '' @ address
                               @ '' within timeout'')), s2)
                     | Suc m \<Rightarrow> lookup_loop C K address m s2)
               else (case e of Some x \<Rightarrow> (Err x, s2) | None \<Rightarrow> (Ok ([], None), s2))))"

declare lookup_loop.simps [simp del]

definition lookupAddressDHT ::
  "codec \<Rightarrow> crypto \<Rightarrow> address \<Rightarrow> 'g DHTPeer \<Rightarrow> (peerID \<times> AgentRecord option) res \<times> 'g DHTPeer" where
  "lookupAddressDHT C K address s =
     (case ComputeCID K address of
        Inl e \<Rightarrow> (Err e, s)
      | Inr addressCID \<Rightarrow>
          (case lookup_deadline s of (n, s1) \<Rightarrow> lookup_loop C K address n s1))"

section \<open>Delivering over a new stream\<close>

definition routeEnvelopeWithNewStream ::
  "codec \<Rightarrow> Envelope \<Rightarrow> peerID \<Rightarrow> AgentRecord option \<Rightarrow> 'g DHTPeer \<Rightarrow> unit res \<times> 'g DHTPeer" where
  "routeEnvelopeWithNewStream C envel peerID envelRec s =
     (case host_NewStream s of
        (Inl e, s1) \<Rightarrow> (Err e, routeCount_add (- 1) s1)
      | (Inr stream, s1) \<Rightarrow>
          (case env_Marshal C envel of
             Inl e \<Rightarrow>
               (Err e, routeCount_add (- 1) (log_stream peerID AeaEnvelopeStream (stream_Reset stream) s1))
           | Inr envelBytes \<Rightarrow>
               (case SendEnvelopeMessage C StreamPipe stream envelBytes envelRec of
                  (Panic, st) \<Rightarrow> (Panic, log_stream peerID AeaEnvelopeStream st s1)
                | (Block, st) \<Rightarrow> (Block, log_stream peerID AeaEnvelopeStream st s1)
                | (Err e, st) \<Rightarrow>
                    (Err e, routeCount_add (- 1) (log_stream peerID AeaEnvelopeStream (stream_Reset st) s1))
                | (Ok _, st) \<Rightarrow>
                    (case ReadAcnStatus C StreamPipe st of
                       (r, st1) \<Rightarrow>
                         (let s2 = log_stream peerID AeaEnvelopeStream st1 s1 in
                          case r of
                            Panic \<Rightarrow> (Panic, s2)
                          | Block \<Rightarrow> (Block, s2)
                          | Err e \<Rightarrow> (Err e, routeCount_add (- 1) s2)
                          | Ok None \<Rightarrow> (Panic, s2)
                          | Ok (Some statusBody) \<Rightarrow>
                              (if Code statusBody \<noteq> SUCCESS
                               then (Err (ErrMsg (StatusCode_String (Code statusBody) @ '' : ''
                                       @ Join (Msgs statusBody) '':'')), routeCount_add (- 1) s2)
                               else (Ok (), routeCount_add (- 1) s2)))))))"

definition routeEnvelopeDHTLookup ::
  "codec \<Rightarrow> crypto \<Rightarrow> Envelope \<Rightarrow> 'g DHTPeer \<Rightarrow> unit res \<times> 'g DHTPeer" where
  "routeEnvelopeDHTLookup C K envel s =
     (case getEnvelopeAcnRecord envel s of
        Err e \<Rightarrow> (Err e, s)
      | Panic \<Rightarrow> (Panic, s)
      | Block \<Rightarrow> (Block, s)
      | Ok envelRec \<Rightarrow>
          (case lookupAddressDHT C K (To envel) s of
             (Err e, s1) \<Rightarrow> (Err e, s1)
           | (Panic, s1) \<Rightarrow> (Panic, s1)
           | (Block, s1) \<Rightarrow> (Block, s1)
           | (Ok (peerID, _), s1) \<Rightarrow> routeEnvelopeWithNewStream C envel peerID envelRec s1))"

section \<open>Routing\<close>

text \<open>\<open>for myAgentReady != nil && !myAgentReady() { sleep }\<close>.\<close>

definition await_ready :: "'g DHTPeer \<Rightarrow> unit res \<times> 'g DHTPeer" where
  "await_ready s =
     (if \<not> myAgentReady (cfg s) then (Ok (), s)
      else case dropWhile Not (w_agentReady (net s)) of
        [] \<Rightarrow> (Block, s\<lparr>net := (net s)\<lparr>w_agentReady := []\<rparr>\<rparr>)
      | _ # rest \<Rightarrow> (Ok (), s\<lparr>net := (net s)\<lparr>w_agentReady := rest\<rparr>\<rparr>))"

definition route_mailbox :: "Envelope \<Rightarrow> 'g DHTPeer \<Rightarrow> bool \<times> 'g DHTPeer" where
  "route_mailbox envel s =
     (case mailboxServer s of
        None \<Rightarrow> (False, s)
      | Some mb \<Rightarrow>
          (case mailbox_RouteEnvelope envel mb of (ok, mb1) \<Rightarrow> (ok, s\<lparr>mailboxServer := Some mb1\<rparr>)))"

definition route_local :: "Envelope \<Rightarrow> 'g DHTPeer \<Rightarrow> unit res \<times> 'g DHTPeer" where
  "route_local envel s =
     and_then (await_ready s) (\<lambda>_ s1.
       case processEnvelope s1 of
         None \<Rightarrow> (Err (ErrMsg ''Agent not ready''), s1)
       | Some f \<Rightarrow>
           (case f envel (agent s1) of
              (Ok _, g) \<Rightarrow> (Ok (), routeCountSuccess_Inc (routeCount_add (- 1) (s1\<lparr>agent := g\<rparr>)))
            | (Err e, g) \<Rightarrow> (Err e, routeCount_add (- 1) (s1\<lparr>agent := g\<rparr>))
            | (Panic, g) \<Rightarrow> (Panic, s1\<lparr>agent := g\<rparr>)
            | (Block, g) \<Rightarrow> (Block, s1\<lparr>agent := g\<rparr>)))"

definition route_delegate :: "codec \<Rightarrow> Envelope \<Rightarrow> nat \<Rightarrow> 'g DHTPeer \<Rightarrow> unit res \<times> 'g DHTPeer" where
  "route_delegate C envel cid s =
     (let s1 = routeCountSuccess_Inc (routeCount_add (- 1) s) in
      case MakeAcnMessageFromEnvelope C envel of
        Inl e \<Rightarrow> (Err e, s1)
      | Inr data \<Rightarrow>
          (case WriteBytesConn (conns s1 cid) data of
             (r, c) \<Rightarrow>
               (let s2 = s1\<lparr>conns := (conns s1)(cid := c)\<rparr> in
                case r of
                  Ok _ \<Rightarrow> AwaitAcnStatus (To envel) s2
                | Err e \<Rightarrow> (Err e, s2)
                | Panic \<Rightarrow> (Panic, s2)
                | Block \<Rightarrow> (Block, s2))))"

text \<open>What happens when the lookup or the delivery behind it fails: the envelope goes to the slow
  queue, unless the peer is closing or the queue is full; the caller sees no error.\<close>

definition route_slow :: "Envelope \<Rightarrow> 'g DHTPeer \<Rightarrow> unit res \<times> 'g DHTPeer" where
  "route_slow envel s =
     (let s1 = routeCount_add (- 1) s in
      if isClosing s1 then (Ok (), s1)
      else if length (chan_buf (slow_queue s1)) \<ge> SlowQueueSize - 1 then (Ok (), s1)
      else case chan_send envel (Some (slow_queue s1)) of
        (r, ch) \<Rightarrow> (r, s1\<lparr>slow_queue := the ch\<rparr>))"

definition RouteEnvelope :: "codec \<Rightarrow> crypto \<Rightarrow> Envelope \<Rightarrow> 'g DHTPeer \<Rightarrow> unit res \<times> 'g DHTPeer" where
  "RouteEnvelope C K envel s0 =
     (let s = routeCountAll_Inc (routeCount_add 1 s0);
          target = To envel
      in case getEnvelopeAcnRecord envel s of
        Err e \<Rightarrow> (Err e, s)
      | Panic \<Rightarrow> (Panic, s)
      | Block \<Rightarrow> (Block, s)
      | Ok envelRec \<Rightarrow>
          (case route_mailbox envel s of
             (True, s1) \<Rightarrow> (Ok (), s1)
           | (False, s1) \<Rightarrow>
               if target = myAgentAddress (cfg s1) then route_local envel s1
               else (case tcpAddresses s target of
                 Some cid \<Rightarrow> route_delegate C envel cid s1
               | None \<Rightarrow>
                   (case dhtAddresses s1 target of
                      Some sPeerID \<Rightarrow>
                        (case peer_Decode K sPeerID of
                           Inl e \<Rightarrow> (Err e, routeCount_add (- 1) s1)
                         | Inr peerID \<Rightarrow> routeEnvelopeWithNewStream C envel peerID envelRec s1)
                    | None \<Rightarrow>
                        (case routeEnvelopeDHTLookup C K envel s1 of
                           (Err e, s2) \<Rightarrow> route_slow envel s2
                         | (r, s2) \<Rightarrow> (r, s2))))))"

text \<open>One turn of the goroutine of the slow queue: \<open>True\<close> to go on, \<open>False\<close> when it returns, because the queue is
  closed and empty or because the peer is closing; it waits on an open and empty queue. What fails a second
  time is logged and gone.\<close>

definition slow_turn :: "codec \<Rightarrow> crypto \<Rightarrow> 'g DHTPeer \<Rightarrow> bool res \<times> 'g DHTPeer" where
  "slow_turn C K s =
     (case chan_buf (slow_queue s) of
        [] \<Rightarrow> (if chan_closed (slow_queue s) then Ok False else Block, s)
      | envel # es \<Rightarrow>
          (let s1 = s\<lparr>slow_queue := (slow_queue s)\<lparr>chan_buf := es\<rparr>\<rparr> in
           if isClosing s1 then (Ok False, s1)
           else case routeEnvelopeDHTLookup C K envel s1 of
             (Panic, s2) \<Rightarrow> (Panic, s2)
           | (Block, s2) \<Rightarrow> (Block, s2)
           | (_, s2) \<Rightarrow> (Ok True, s2)))"

section \<open>What a lookup returns\<close>

definition lookup_sound :: "crypto \<Rightarrow> address \<Rightarrow> peerID \<times> AgentRecord option \<Rightarrow> bool" where
  "lookup_sound K address x \<longleftrightarrow>
     (\<exists>r. snd x = Some r \<and> valid_proof K r address (PeerPublicKey r)
        \<and> IDFromFetchAIPublicKey K (PeerPublicKey r) = Inr (fst x))"

lemma try_provider_Ok:
  assumes "try_provider C K address p s = (Inl (Ok x), s')"
  shows "lookup_sound K address x"
proof -
  obtain st s1 where "host_NewStream s = (Inr st, s1)"
    using assms by (auto simp: try_provider_def split: prod.splits sum.splits)
  moreover obtain r st1 where "PerformAddressLookup C StreamPipe st address = (r, st1)"
    by (cases "PerformAddressLookup C StreamPipe st address")
  ultimately obtain rec valid where
      v: "IsValidProofOfRepresentation K (Some rec) address (PeerPublicKey rec) = Ok (valid, None)"
      and x: "IDFromFetchAIPublicKey K (PeerPublicKey rec) = Inr (fst x)" "snd x = Some rec"
    using assms
    by (auto simp: try_provider_def Let_def split: res.splits option.splits if_splits sum.splits)
  then show ?thesis using PoR_success_iff [of K rec address "PeerPublicKey rec"]
    by (auto simp: lookup_sound_def)
qed

lemma try_providers_Ok:
  "try_providers C K address ps e s = (Inl (Ok x), s') \<Longrightarrow> lookup_sound K address x"
  by (induction ps arbitrary: e s) (auto split: prod.splits sum.splits dest: try_provider_Ok)

text \<open>After a round over some providers there is an error to return.\<close>

lemma try_providers_error:
  "try_providers C K address ps e s = (Inr e', s') \<Longrightarrow> ps \<noteq> [] \<or> e \<noteq> None \<Longrightarrow> e' \<noteq> None"
  by (induction ps arbitrary: e s) (auto split: prod.splits sum.splits)

lemma lookup_loop_Ok:
  "lookup_loop C K address n s = (Ok x, s') \<Longrightarrow> lookup_sound K address x"
proof (induction n arbitrary: s)
  case 0
  then show ?case
    by (subst (asm) lookup_loop.simps)
      (auto split: prod.splits sum.splits if_splits option.splits dest: try_providers_Ok
        dest!: try_providers_error)
next
  case (Suc n)
  then show ?case
    by (subst (asm) lookup_loop.simps)
      (auto split: prod.splits sum.splits if_splits option.splits dest: try_providers_Ok
        dest!: try_providers_error)
qed

lemma lookupAddressDHT_Ok:
  assumes "lookupAddressDHT C K address s = (Ok x, s')"
  shows "lookup_sound K address x"
  using assms by (auto simp: lookupAddressDHT_def split: sum.splits prod.splits dest: lookup_loop_Ok)

section \<open>What a lookup changes\<close>

definition net_only :: "'g DHTPeer \<Rightarrow> 'g DHTPeer \<Rightarrow> bool" where
  "net_only s s' \<longleftrightarrow> (\<exists>n. s' = s\<lparr>net := n\<rparr>)"

lemma net_only_update [simp]: "net_only s (s\<lparr>net := n\<rparr>)"
  by (auto simp: net_only_def)

lemma net_only_refl [simp]: "net_only s s"
  using net_only_update [of s "net s"] by simp

lemma net_only_trans: "\<lbrakk>net_only s s'; net_only s' s''\<rbrakk> \<Longrightarrow> net_only s s''"
  by (auto simp: net_only_def)

lemma host_NewStream_net: "host_NewStream s = (r, s') \<Longrightarrow> net_only s s'"
  by (auto simp: host_NewStream_def split: prod.splits)

lemma log_stream_net: "net_only s (log_stream p proto st s)"
  by (simp add: log_stream_def)

lemma try_provider_net:
  assumes "try_provider C K address p s = (r, s')"
  shows "net_only s s'"
proof -
  obtain x s1 where 1: "host_NewStream s = (x, s1)" by (cases "host_NewStream s")
  have n1: "net_only s s1" using host_NewStream_net [OF 1] .
  have "s' = s1 \<or> (\<exists>st. s' = log_stream p AeaAddressStream st s1)"
    using assms 1
    by (auto simp: try_provider_def Let_def split: prod.splits sum.splits res.splits option.splits if_splits)
  with n1 log_stream_net show ?thesis by (metis net_only_trans)
qed

lemma try_providers_net: "try_providers C K address ps e s = (r, s') \<Longrightarrow> net_only s s'"
  by (induction ps arbitrary: e s)
    (auto split: prod.splits sum.splits dest: try_provider_net intro: net_only_trans)

lemma FindProviders_net: "FindProviders s = (ps, s') \<Longrightarrow> net_only s s'"
  by (auto simp: FindProviders_def split: prod.splits)

lemma lookup_loop_net: "lookup_loop C K address n s = (r, s') \<Longrightarrow> net_only s s'"
proof (induction n arbitrary: s)
  case 0
  then show ?case
    by (subst (asm) lookup_loop.simps)
      (auto split: prod.splits sum.splits if_splits option.splits
        dest!: try_providers_net FindProviders_net intro: net_only_trans)
next
  case (Suc n)
  then show ?case
    by (subst (asm) lookup_loop.simps)
      (auto split: prod.splits sum.splits if_splits option.splits
        dest!: try_providers_net FindProviders_net intro: net_only_trans)
qed

lemma lookupAddressDHT_net: "lookupAddressDHT C K address s = (r, s') \<Longrightarrow> net_only s s'"
  by (auto simp: lookupAddressDHT_def lookup_deadline_def split: sum.splits prod.splits
      dest!: lookup_loop_net intro: net_only_trans [OF net_only_update])

section \<open>What routing changes\<close>

text \<open>Routing may change the mailboxes, the acknowledgement channels, the connections, the agent, the
  slow queue, the gauges and the network. Registrations, announcements, the store and the
  configuration stay.\<close>

definition routing_frame :: "'g DHTPeer \<Rightarrow> 'g DHTPeer \<Rightarrow> bool" where
  "routing_frame s s' \<longleftrightarrow>
     cfg s' = cfg s \<and> addressAnnouncedMap s' = addressAnnouncedMap s \<and>
     enableAddressAnnouncement s' = enableAddressAnnouncement s \<and> dhtAddresses s' = dhtAddresses s \<and>
     tcpAddresses s' = tcpAddresses s \<and> peerRecords s' = peerRecords s \<and>
     processEnvelope s' = processEnvelope s \<and> storage s' = storage s \<and> isClosing s' = isClosing s \<and>
     syncMessages s' = syncMessages s \<and>
     map_option agentRecords (mailboxServer s') = map_option agentRecords (mailboxServer s) \<and>
     delivered (processEnvelope s) (agent s) (agent s')"

lemma routing_frame_refl [simp]: "routing_frame s s"
  by (simp add: routing_frame_def)

lemma routing_frame_trans: "\<lbrakk>routing_frame s t; routing_frame t u\<rbrakk> \<Longrightarrow> routing_frame s u"
  by (auto simp: routing_frame_def intro: delivered_trans)

lemma routing_frame_update [simp]:
  "routing_frame s (s\<lparr>acnStatuses := ac\<rparr>)"
  "routing_frame s (s\<lparr>conns := cs\<rparr>)"
  "routing_frame s (s\<lparr>slow_queue := q\<rparr>)" "routing_frame s (s\<lparr>net := n\<rparr>)"
  "routing_frame s (routeCount_add d s)" "routing_frame s (routeCountAll_Inc s)"
  "routing_frame s (routeCountSuccess_Inc s)"
  by (simp_all add: routing_frame_def routeCount_add_def routeCountAll_Inc_def routeCountSuccess_Inc_def)

lemma routing_frame_agent:
  "\<lbrakk>processEnvelope s = Some f; f e (agent s) = (r, g)\<rbrakk> \<Longrightarrow> routing_frame s (s\<lparr>agent := g\<rparr>)"
  by (simp add: routing_frame_def delivered_call)

lemma net_only_frame: "net_only s s' \<Longrightarrow> routing_frame s s'"
  by (auto simp: net_only_def)

lemma routeWithNewStream_effect:
  assumes "routeEnvelopeWithNewStream C e p r s = (x, s')"
  shows "\<exists>t. net_only s t \<and> (if x = Panic \<or> x = Block then s' = t else s' = routeCount_add (- 1) t)"
proof -
  obtain y s1 where 1: "host_NewStream s = (y, s1)" by (cases "host_NewStream s")
  have n1: "net_only s s1" using host_NewStream_net [OF 1] .
  then have n2: "net_only s (log_stream p AeaEnvelopeStream st s1)" for st
    using log_stream_net net_only_trans by blast
  show ?thesis
    using assms 1 n1 n2
    by (auto simp: routeEnvelopeWithNewStream_def Let_def split: sum.splits prod.splits res.splits option.splits if_splits)
qed

lemma routeWithNewStream_frame:
  "routeEnvelopeWithNewStream C e p r s = (x, s') \<Longrightarrow> routing_frame s s' \<and> slow_queue s' = slow_queue s"
  using routeWithNewStream_effect [of C e p r s x s']
  by (auto simp: net_only_def routing_frame_def routeCount_add_def split: if_splits)

lemma routeDHTLookup_frame:
  assumes "routeEnvelopeDHTLookup C K e s = (x, s')"
  shows "routing_frame s s' \<and> slow_queue s' = slow_queue s"
proof (cases "getEnvelopeAcnRecord e s")
  case (Ok rec)
  obtain y s1 where y: "lookupAddressDHT C K (To e) s = (y, s1)" by (cases "lookupAddressDHT C K (To e) s")
  have "routing_frame s s1 \<and> slow_queue s1 = slow_queue s"
    using lookupAddressDHT_net [OF y] by (auto simp: net_only_def)
  with assms Ok y show ?thesis
    by (auto simp: routeEnvelopeDHTLookup_def split: res.splits dest!: routeWithNewStream_frame
        intro: routing_frame_trans)
qed (use assms in \<open>auto simp: routeEnvelopeDHTLookup_def\<close>)

text \<open>A turn that goes on has taken the first envelope from the queue and nothing else of it, so the loop ends.\<close>

lemma slow_turn_next:
  assumes "slow_turn C K s = (Ok True, s')"
  obtains e es x where "chan_buf (slow_queue s) = e # es" "slow_queue s' = (slow_queue s)\<lparr>chan_buf := es\<rparr>" "\<not> isClosing s"
    "routeEnvelopeDHTLookup C K e (s\<lparr>slow_queue := (slow_queue s)\<lparr>chan_buf := es\<rparr>\<rparr>) = (x, s')" "x \<noteq> Panic" "x \<noteq> Block"
proof -
  obtain e es where es: "chan_buf (slow_queue s) = e # es" and opn: "\<not> isClosing s"
    using assms by (auto simp: slow_turn_def Let_def split: list.splits if_splits)
  let ?s = "s\<lparr>slow_queue := (slow_queue s)\<lparr>chan_buf := es\<rparr>\<rparr>"
  obtain x where x: "routeEnvelopeDHTLookup C K e ?s = (x, s')" "x \<noteq> Panic" "x \<noteq> Block"
    using assms es opn by (auto simp: slow_turn_def Let_def split: res.splits prod.splits)
  show thesis using that [OF es _ opn x] routeDHTLookup_frame [OF x(1)] by simp
qed

function slowEnvelopeSendLoop :: "codec \<Rightarrow> crypto \<Rightarrow> 'g DHTPeer \<Rightarrow> unit res \<times> 'g DHTPeer" where
  "slowEnvelopeSendLoop C K s =
     (case slow_turn C K s of
        (Ok True, s1) \<Rightarrow> slowEnvelopeSendLoop C K s1
      | (Ok False, s1) \<Rightarrow> (Ok (), s1)
      | (Err e, s1) \<Rightarrow> (Err e, s1)
      | (Panic, s1) \<Rightarrow> (Panic, s1)
      | (Block, s1) \<Rightarrow> (Block, s1))"
  by pat_completeness auto
termination
  by (relation "measure (\<lambda>(C, K, s). length (chan_buf (slow_queue s)))") (auto elim!: slow_turn_next [OF sym])

declare slowEnvelopeSendLoop.simps [simp del]

text \<open>The goroutine is a worker on the slow queue.\<close>

definition slow_job :: "codec \<Rightarrow> crypto \<Rightarrow> Envelope \<Rightarrow> 'g DHTPeer \<Rightarrow> unit res \<times> 'g DHTPeer" where
  "slow_job C K e s =
     routeEnvelopeDHTLookup C K e (s\<lparr>slow_queue := (slow_queue s)\<lparr>chan_buf := tl (chan_buf (slow_queue s))\<rparr>\<rparr>)"

interpretation slow: queue_worker "\<lambda>s. chan_buf (slow_queue s)" "\<lambda>s. chan_closed (slow_queue s)" "slow_job C K" "slow_turn C K"
  "\<lambda>s. \<not> isClosing s" "slowEnvelopeSendLoop C K"
proof unfold_locales
  fix s t :: "'g DHTPeer" and e es r
  assume s: "\<not> isClosing s" "chan_buf (slow_queue s) = e # es"
  then show "slow_turn C K s
      = (case slow_job C K e s of (Panic, t) \<Rightarrow> (Panic, t) | (Block, t) \<Rightarrow> (Block, t) | (_, t) \<Rightarrow> (Ok True, t))"
    by (simp add: slow_turn_def slow_job_def Let_def)
  assume "slow_job C K e s = (r, t)"
  from routeDHTLookup_frame [OF this [unfolded slow_job_def]] s
  show "chan_buf (slow_queue t) = es \<and> \<not> isClosing t \<and> chan_closed (slow_queue t) = chan_closed (slow_queue s)"
    by (simp add: routing_frame_def)
next
  show "slowEnvelopeSendLoop C K s = (case slow_turn C K s of
      (Ok True, t) \<Rightarrow> slowEnvelopeSendLoop C K t | (Ok False, t) \<Rightarrow> (Ok (), t) | (Err e, t) \<Rightarrow> (Err e, t)
    | (Panic, t) \<Rightarrow> (Panic, t) | (Block, t) \<Rightarrow> (Block, t))" for s :: "'g DHTPeer"
    by (rule slowEnvelopeSendLoop.simps)
qed (simp add: slow_turn_def)

lemma AwaitAcnStatus_frame:
  "AwaitAcnStatus a s = (x, s') \<Longrightarrow> routing_frame s s' \<and> slow_queue s' = slow_queue s"
  by (auto simp: AwaitAcnStatus_def status_arrivals_def routing_frame_def Let_def
      split: prod.splits res.splits)

lemma route_local_frame:
  assumes "route_local e s = (x, s')"
  shows "routing_frame s s' \<and> slow_queue s' = slow_queue s"
proof -
  obtain y s1 where 1: "await_ready s = (y, s1)" by (cases "await_ready s")
  have f: "routing_frame s s1 \<and> slow_queue s1 = slow_queue s"
    using 1 by (auto simp: await_ready_def split: list.splits if_splits)
  have dec: "routing_frame s t \<Longrightarrow> routing_frame s (routeCount_add d t)" "routing_frame s t \<Longrightarrow> routing_frame s (routeCountSuccess_Inc t)"
    for d t by (auto intro: routing_frame_trans)
  have keep: "slow_queue (routeCount_add d t) = slow_queue t" "slow_queue (routeCountSuccess_Inc t) = slow_queue t" for d and t :: "'a DHTPeer"
    by (simp_all add: routeCount_add_def routeCountSuccess_Inc_def)
  have step: "routing_frame s (s1\<lparr>agent := g\<rparr>)" if "processEnvelope s1 = Some h" "h e (agent s1) = (z, g)" for h z g
    using f routing_frame_agent [OF that] routing_frame_trans by blast
  show ?thesis
    using assms 1 f by (cases y; cases "processEnvelope s1")
      (auto simp: route_local_def keep dec step split: prod.splits res.splits)
qed

lemma route_delegate_frame:
  assumes "route_delegate C e cid s = (x, s')"
  shows "routing_frame s s' \<and> slow_queue s' = slow_queue s"
proof -
  let ?s = "routeCountSuccess_Inc (routeCount_add (- 1) s)"
  have frame: "routing_frame s (?s\<lparr>conns := cs\<rparr>) \<and> slow_queue (?s\<lparr>conns := cs\<rparr>) = slow_queue s" for cs
    by (simp add: routing_frame_def routeCount_add_def routeCountSuccess_Inc_def)
  show ?thesis
    using assms frame [of "conns ?s"] frame
    by (auto simp: route_delegate_def Let_def split: sum.splits prod.splits res.splits
        dest!: AwaitAcnStatus_frame intro: routing_frame_trans)
qed

lemma route_slow_frame:
  assumes "route_slow e s = (x, s')"
  shows "routing_frame s s' \<and> (slow_queue s' = slow_queue s \<or>
    (length (chan_buf (slow_queue s)) < SlowQueueSize - 1 \<and> \<not> isClosing s
      \<and> slow_queue s' = (slow_queue s)\<lparr>chan_buf := chan_buf (slow_queue s) @ [e]\<rparr>))"
  using assms
  by (auto simp: route_slow_def routeCount_add_def routing_frame_def chan_send_def Let_def
      split: if_splits)

lemma mailbox_RouteEnvelope_records: "agentRecords (snd (mailbox_RouteEnvelope e mb)) = agentRecords mb"
  by (auto simp: mailbox_RouteEnvelope_def Let_def split: option.splits)

lemma route_mailbox_frame:
  "route_mailbox e s = (ok, s') \<Longrightarrow> routing_frame s s' \<and> slow_queue s' = slow_queue s"
  using mailbox_RouteEnvelope_records [of e]
  by (auto simp: route_mailbox_def routing_frame_def split: option.splits prod.splits) (metis snd_conv)+

lemma getEnvelopeAcnRecord_metric [simp]:
  "getEnvelopeAcnRecord e (routeCountAll_Inc (routeCount_add d s)) = getEnvelopeAcnRecord e s"
  by (simp add: getEnvelopeAcnRecord_def routeCountAll_Inc_def routeCount_add_def Let_def split: option.splits)

text \<open>The branches of \<open>RouteEnvelope\<close> once the sender is known and the mailbox has not taken the
  envelope.\<close>

abbreviation route_begun :: "'g DHTPeer \<Rightarrow> 'g DHTPeer" where
  "route_begun s \<equiv> routeCountAll_Inc (routeCount_add 1 s)"

lemma RouteEnvelope_onward:
  assumes "getEnvelopeAcnRecord e s = Ok rec" and "route_mailbox e (route_begun s) = (False, s1)"
  shows "RouteEnvelope C K e s =
    (if To e = myAgentAddress (cfg s1) then route_local e s1
     else case tcpAddresses s (To e) of
       Some cid \<Rightarrow> route_delegate C e cid s1
     | None \<Rightarrow>
         (case dhtAddresses s1 (To e) of
            Some sPeerID \<Rightarrow>
              (case peer_Decode K sPeerID of
                 Inl y \<Rightarrow> (Err y, routeCount_add (- 1) s1)
               | Inr peerID \<Rightarrow> routeEnvelopeWithNewStream C e peerID rec s1)
          | None \<Rightarrow>
              (case routeEnvelopeDHTLookup C K e s1 of
                 (Err e', s2) \<Rightarrow> route_slow e s2
               | (r, s2) \<Rightarrow> (r, s2))))"
proof -
  have "tcpAddresses (route_begun s) = tcpAddresses s"
    by (simp add: routeCountAll_Inc_def routeCount_add_def)
  with assms show ?thesis by (simp add: RouteEnvelope_def Let_def)
qed

lemma route_begun_frame: "routing_frame s (route_begun s) \<and> slow_queue (route_begun s) = slow_queue s"
  by (simp add: routing_frame_def routeCountAll_Inc_def routeCount_add_def)

lemma RouteEnvelope_cases:
  assumes "RouteEnvelope C K e s = (x, s')"
  obtains "s' = route_begun s"
    | ok where "route_mailbox e (route_begun s) = (ok, s')"
    | s1 where "route_mailbox e (route_begun s) = (False, s1)" and "route_local e s1 = (x, s')"
    | s1 cid where "route_mailbox e (route_begun s) = (False, s1)" and "route_delegate C e cid s1 = (x, s')"
    | s1 where "route_mailbox e (route_begun s) = (False, s1)" and "s' = routeCount_add (- 1) s1"
    | s1 p rec where "route_mailbox e (route_begun s) = (False, s1)"
        and "routeEnvelopeWithNewStream C e p rec s1 = (x, s')"
    | s1 where "route_mailbox e (route_begun s) = (False, s1)" and "routeEnvelopeDHTLookup C K e s1 = (x, s')"
    | s1 y s2 where "route_mailbox e (route_begun s) = (False, s1)"
        and "routeEnvelopeDHTLookup C K e s1 = (Err y, s2)" and "route_slow e s2 = (x, s')"
proof (cases "getEnvelopeAcnRecord e s")
  case (Ok rec)
  obtain ok s1 where m: "route_mailbox e (route_begun s) = (ok, s1)" by (cases "route_mailbox e (route_begun s)")
  show ?thesis
  proof (cases ok)
    case True
    with assms Ok m that(2) show ?thesis by (simp add: RouteEnvelope_def Let_def)
  next
    case False
    then have m: "route_mailbox e (route_begun s) = (False, s1)" using m by simp
    note R = assms [unfolded RouteEnvelope_onward [OF Ok m]]
    show ?thesis
    proof (cases "To e = myAgentAddress (cfg s1)")
      case True
      with R show ?thesis by (intro that(3) [OF m]) simp
    next
      case other: False
      obtain y s2 where look: "routeEnvelopeDHTLookup C K e s1 = (y, s2)"
        by (cases "routeEnvelopeDHTLookup C K e s1")
      show ?thesis
      proof (cases "tcpAddresses s (To e)")
        case (Some cid)
        with R other show ?thesis by (intro that(4) [OF m]) simp
      next
        case tcp: None
        show ?thesis
        proof (cases "dhtAddresses s1 (To e)")
          case (Some sp)
          with R other tcp show ?thesis by (cases "peer_Decode K sp") (auto intro: that(5,6) [OF m])
        next
          case None
          with R other tcp look show ?thesis
            by (cases y) (auto intro: that(7,8) [OF m])
        qed
      qed
    qed
  qed
qed (use assms that(1) in \<open>simp_all add: RouteEnvelope_def Let_def\<close>)

lemma RouteEnvelope_frame:
  assumes "RouteEnvelope C K e s = (x, s')"
  shows "routing_frame s s' \<and> (slow_queue s' = slow_queue s \<or>
    (length (chan_buf (slow_queue s)) < SlowQueueSize - 1 \<and> \<not> isClosing s
      \<and> slow_queue s' = (slow_queue s)\<lparr>chan_buf := chan_buf (slow_queue s) @ [e]\<rparr>))"
proof -
  have begun: "routing_frame s t \<and> slow_queue t = slow_queue s"
    if "route_mailbox e (route_begun s) = (ok, t)" for ok t
    using route_mailbox_frame [OF that] route_begun_frame [of s] routing_frame_trans by metis
  have onward: "routing_frame s t \<and> slow_queue t = slow_queue s"
    if "route_mailbox e (route_begun s) = (ok, s1)" "routing_frame s1 t \<and> slow_queue t = slow_queue s1" for ok s1 t
    using that begun routing_frame_trans by metis
  have dec: "routing_frame t (routeCount_add d t) \<and> slow_queue (routeCount_add d t) = slow_queue t"
    for d and t :: "'a DHTPeer"
    by (simp add: routing_frame_def routeCount_add_def)
  from assms show ?thesis
  proof (cases rule: RouteEnvelope_cases)
    case (8 s1 y s2)
    have f2: "routing_frame s s2 \<and> slow_queue s2 = slow_queue s"
      using onward [OF 8(1) routeDHTLookup_frame [OF 8(2)]] .
    have "isClosing s2 = isClosing s" using f2 by (simp add: routing_frame_def)
    moreover have "routing_frame s s'"
      using route_slow_frame [OF 8(3)] f2 by (blast intro: routing_frame_trans)
    ultimately show ?thesis using route_slow_frame [OF 8(3)] f2 by simp
  next
    case 1
    then show ?thesis using route_begun_frame [of s] by simp
  next
    case (2 ok)
    then show ?thesis using begun by blast
  next
    case (3 s1)
    then show ?thesis using onward [OF 3(1) route_local_frame [OF 3(2)]] by blast
  next
    case (4 s1 cid)
    then show ?thesis using onward [OF 4(1) route_delegate_frame [OF 4(2)]] by blast
  next
    case (5 s1)
    then show ?thesis using onward [OF 5(1) dec] by blast
  next
    case (6 s1 p rec)
    then show ?thesis using onward [OF 6(1) routeWithNewStream_frame [OF 6(2)]] by blast
  next
    case (7 s1)
    then show ?thesis using onward [OF 7(1) routeDHTLookup_frame [OF 7(2)]] by blast
  qed
qed

section \<open>Delivery\<close>

text \<open>The stream of a delivery: what was sent on it and what came back.\<close>

lemma routeWithNewStream_delivers:
  assumes "codec_ok C" and "env_Marshal C e = Inr eb"
    and "carries C (AeaEnvelope \<lparr>ape_Envelope = eb, ape_Record = r\<rparr>) b"
    and "w_NewStream (net s) = Inr st # rest" and "wcap st = None"
    and "carries C (Status (Some body)) a" and "concat (rx st) = frame a @ more_bytes"
  shows "\<exists>st' s'. routeEnvelopeWithNewStream C e p r s
      = (if Code body = SUCCESS then Ok ()
         else Err (ErrMsg (StatusCode_String (Code body) @ '' : '' @ Join (Msgs body) '':'')), s')
    \<and> tx st' = tx st @ frame b \<and> w_used (net s') = w_used (net s) @ [(p, AeaEnvelopeStream, st')]
    \<and> w_NewStream (net s') = rest"
proof -
  note b = carries_laws [OF assms(1,3)] and a = carries_laws [OF assms(1,6)]
  let ?st = "st\<lparr>tx := tx st @ frame b\<rparr>"
  let ?s1 = "s\<lparr>net := (net s)\<lparr>w_NewStream := rest\<rparr>\<rparr>"
  have open_st: "host_NewStream s = (Inr st, ?s1)"
    using assms(4) by (simp add: host_NewStream_def script_pop_def)
  have send: "SendEnvelopeMessage C StreamPipe st eb r = (Ok (), ?st)"
    using stream_Write_open [OF assms(5) b(3,5)] b(1)
    by (cases r) (simp_all add: SendEnvelopeMessage_def EncodeAcnEnvelope_def)
  have "concat (rx ?st) = frame a @ more_bytes" using assms(7) by simp
  from stream_Read_frame [OF this a(4)] obtain pieces where
      "pipe_Read StreamPipe ?st = (Ok a, ?st\<lparr>rx := pieces\<rparr>)" by blast
  then have recv: "ReadAcnStatus C StreamPipe ?st = (Ok (Some body), ?st\<lparr>rx := pieces\<rparr>)"
    using a(2) by (simp add: ReadAcnStatus_def)
  show ?thesis
    using open_st send recv assms(2)
    by (intro exI [of _ "?st\<lparr>rx := pieces\<rparr>"]
        exI [of _ "routeCount_add (- 1) (log_stream p AeaEnvelopeStream (?st\<lparr>rx := pieces\<rparr>) ?s1)"])
      (simp add: routeEnvelopeWithNewStream_def log_stream_def routeCount_add_def)
qed

text \<open>A provider that answers with a valid record of the address ends the lookup.\<close>

lemma try_provider_found:
  assumes "codec_ok C" and "carries C (LookupRequest address) b" and "carries C (LookupResponse (Some r)) a"
    and "w_NewStream (net s) = Inr st # rest" and "wcap st = None" and "concat (rx st) = frame a @ more_bytes"
    and "valid_proof K r address (PeerPublicKey r)" and "IDFromFetchAIPublicKey K (PeerPublicKey r) = Inr pid"
  shows "\<exists>st' s'. try_provider C K address p s = (Inl (Ok (pid, Some r)), s') \<and> net_only s s'
    \<and> tx st' = tx st @ frame b \<and> w_used (net s') = w_used (net s) @ [(p, AeaAddressStream, st')]
    \<and> w_NewStream (net s') = rest"
proof -
  have "stream_arriving st a" using assms(6) by (auto simp: stream_arriving_def)
  then obtain st1 where st1: "PerformAddressLookup C StreamPipe st address = (Ok (Some r), st1)"
      "tx st1 = tx st @ frame b"
    using stream_pipe.lookup_exchange [OF assms(1) _ assms(2,3), of st] assms(5) by blast
  let ?s1 = "s\<lparr>net := (net s)\<lparr>w_NewStream := rest\<rparr>\<rparr>"
  let ?st = "stream_Close (stream_Reset st1)"
  have "try_provider C K address p s = (Inl (Ok (pid, Some r)), log_stream p AeaAddressStream ?st ?s1)"
    using assms(4,8) st1(1) PoR_valid [OF assms(7)]
    by (simp add: try_provider_def host_NewStream_def script_pop_def Let_def)
  with st1(2) show ?thesis
    by (intro exI [of _ ?st] exI [of _ "log_stream p AeaAddressStream ?st ?s1"])
      (simp add: log_stream_def stream_Close_def stream_Reset_def)
qed

lemma lookupAddressDHT_found:
  assumes "codec_ok C" and "carries C (LookupRequest address) b" and "carries C (LookupResponse (Some r)) a"
    and "w_NewStream (net s) = Inr st # rest" and "wcap st = None" and "concat (rx st) = frame a @ more_bytes"
    and "valid_proof K r address (PeerPublicKey r)" and "IDFromFetchAIPublicKey K (PeerPublicKey r) = Inr pid"
    and "ComputeCID K address = Inr cid" and "w_FindProviders (net s) = (p # ps) # qs"
  shows "\<exists>st' s'. lookupAddressDHT C K address s = (Ok (pid, Some r), s') \<and> net_only s s'
    \<and> tx st' = tx st @ frame b \<and> w_used (net s') = w_used (net s) @ [(p, AeaAddressStream, st')]
    \<and> w_NewStream (net s') = rest"
proof -
  obtain n s1 where s1: "lookup_deadline s = (n, s1)" "net_only s s1" "w_NewStream (net s1) = Inr st # rest"
      "w_FindProviders (net s1) = (p # ps) # qs" "w_used (net s1) = w_used (net s)"
    using assms(4,10) by (cases "script_pop 0 (w_retries (net s))") (auto simp: lookup_deadline_def)
  obtain s2 where s2: "FindProviders s1 = (p # ps, s2)" "net_only s1 s2" "w_NewStream (net s2) = Inr st # rest"
      "w_used (net s2) = w_used (net s)"
    using s1 by (auto simp: FindProviders_def script_pop_def)
  obtain st' s' where "try_provider C K address p s2 = (Inl (Ok (pid, Some r)), s')" "net_only s2 s'"
      "tx st' = tx st @ frame b" "w_used (net s') = w_used (net s2) @ [(p, AeaAddressStream, st')]"
      "w_NewStream (net s') = rest"
    using try_provider_found [OF assms(1-3) s2(3) assms(5-8), of p] by blast
  with s1 s2 assms(9) show ?thesis
    by (intro exI [of _ st'] exI [of _ s'])
      (auto simp: lookupAddressDHT_def lookup_loop.simps [of C K address n] intro: net_only_trans)
qed

text \<open>The whole way of an envelope of the peer's own agent to an agent elsewhere.\<close>

lemma DHTLookup_delivers:
  assumes "codec_ok C" and "Sender e = myAgentAddress (cfg s)"
    and "w_FindProviders (net s) = (p # ps) # qs" and "w_NewStream (net s) = Inr st1 # Inr st2 # rest"
    and "wcap st1 = None" and "wcap st2 = None" and "ComputeCID K (To e) = Inr cid"
    and "carries C (LookupRequest (To e)) rq" and "carries C (LookupResponse (Some r)) rs"
    and "concat (rx st1) = frame rs @ rest1" and "valid_proof K r (To e) (PeerPublicKey r)"
    and "IDFromFetchAIPublicKey K (PeerPublicKey r) = Inr pid"
    and "env_Marshal C e = Inr eb"
    and "carries C (AeaEnvelope \<lparr>ape_Envelope = eb, ape_Record = myAgentRecord (cfg s)\<rparr>) b"
    and "carries C (Status (Some \<lparr>Code = SUCCESS, Msgs = []\<rparr>)) ok" and "concat (rx st2) = frame ok @ rest2"
  shows "\<exists>st1' st2' s'. routeEnvelopeDHTLookup C K e s = (Ok (), s') \<and> tx st1' = tx st1 @ frame rq \<and> tx st2' = tx st2 @ frame b
    \<and> w_used (net s') = w_used (net s) @ [(p, AeaAddressStream, st1'), (pid, AeaEnvelopeStream, st2')]"
proof -
  obtain st1' s1 where look: "lookupAddressDHT C K (To e) s = (Ok (pid, Some r), s1)" "tx st1' = tx st1 @ frame rq"
      "w_used (net s1) = w_used (net s) @ [(p, AeaAddressStream, st1')]" "w_NewStream (net s1) = Inr st2 # rest"
    using lookupAddressDHT_found [OF assms(1,8,9) _ assms(5,10,11,12,7), of s "Inr st2 # rest" p ps qs] assms(3,4) by auto
  obtain st2' s2 where "routeEnvelopeWithNewStream C e pid (myAgentRecord (cfg s)) s1 = (Ok (), s2)"
      "tx st2' = tx st2 @ frame b" "w_used (net s2) = w_used (net s1) @ [(pid, AeaEnvelopeStream, st2')]"
    using routeWithNewStream_delivers [OF assms(1,13,14) look(4) assms(6,15,16), of pid] by auto
  moreover have "routeEnvelopeDHTLookup C K e s = routeEnvelopeWithNewStream C e pid (myAgentRecord (cfg s)) s1"
    using look(1) assms(2) by (simp add: routeEnvelopeDHTLookup_def getEnvelopeAcnRecord_def)
  ultimately show ?thesis using look(2,3) by simp
qed

lemma RouteEnvelope_delivers:
  assumes "codec_ok C" and "mailboxServer s = None" and "Sender e = myAgentAddress (cfg s)"
    and "To e \<noteq> myAgentAddress (cfg s)" and "tcpAddresses s (To e) = None" and "dhtAddresses s (To e) = None"
    and "w_FindProviders (net s) = (p # ps) # qs" and "w_NewStream (net s) = Inr st1 # Inr st2 # rest"
    and "wcap st1 = None" and "wcap st2 = None" and "ComputeCID K (To e) = Inr cid"
    and "carries C (LookupRequest (To e)) rq" and "carries C (LookupResponse (Some r)) rs"
    and "concat (rx st1) = frame rs @ rest1" and "valid_proof K r (To e) (PeerPublicKey r)"
    and "IDFromFetchAIPublicKey K (PeerPublicKey r) = Inr pid"
    and "env_Marshal C e = Inr eb"
    and "carries C (AeaEnvelope \<lparr>ape_Envelope = eb, ape_Record = myAgentRecord (cfg s)\<rparr>) b"
    and "carries C (Status (Some \<lparr>Code = SUCCESS, Msgs = []\<rparr>)) ok" and "concat (rx st2) = frame ok @ rest2"
  shows "\<exists>st1' st2' s'. RouteEnvelope C K e s = (Ok (), s') \<and> tx st1' = tx st1 @ frame rq \<and> tx st2' = tx st2 @ frame b
    \<and> w_used (net s') = w_used (net s) @ [(p, AeaAddressStream, st1'), (pid, AeaEnvelopeStream, st2')]"
proof -
  let ?s = "route_begun s"
  have begun: "net ?s = net s" "cfg ?s = cfg s" "dhtAddresses ?s = dhtAddresses s" "mailboxServer ?s = None"
    using assms(2) by (simp_all add: routeCountAll_Inc_def routeCount_add_def)
  have rec: "getEnvelopeAcnRecord e t = Ok (myAgentRecord (cfg s))" if "cfg t = cfg s" for t :: "'a DHTPeer"
    using that assms(3) by (simp add: getEnvelopeAcnRecord_def)
  have mb: "route_mailbox e ?s = (False, ?s)" using begun(4) by (simp add: route_mailbox_def)
  have "\<exists>st1' st2' s'. routeEnvelopeDHTLookup C K e ?s = (Ok (), s') \<and> tx st1' = tx st1 @ frame rq \<and> tx st2' = tx st2 @ frame b
      \<and> w_used (net s') = w_used (net ?s) @ [(p, AeaAddressStream, st1'), (pid, AeaEnvelopeStream, st2')]"
    by (rule DHTLookup_delivers [OF assms(1) _ _ _ assms(9-17) _ assms(19,20), where ps = ps and qs = qs and rest = rest])
      (use assms(3,7,8,18) begun in simp_all)
  then show ?thesis
    using RouteEnvelope_onward [OF rec [OF refl] mb, of C K] assms(4-6) begun by auto
qed

section \<open>Example messages\<close>

definition ex_route_codec :: codec where
  "ex_route_codec =
     table_codec
       [(LookupRequest ''cosmosB'', [1]), (LookupResponse (Some (ex_record 66 2)), [2]),
        (AeaEnvelope \<lparr>ape_Envelope = [5], ape_Record = Some (ex_record 65 7)\<rparr>, [3]),
        (Status (Some \<lparr>Code = SUCCESS, Msgs = []\<rparr>), [4])]
       [(ex_env ''cosmosB'' ''cosmosA'', [5])] []"

lemma ex_route_codec_ok: "codec_ok ex_route_codec"
  unfolding ex_route_codec_def by (intro codec_ok_table) simp_all

lemma ex_route_messages:
  "carries ex_route_codec (LookupRequest ''cosmosB'') [1]"
  "carries ex_route_codec (LookupResponse (Some (ex_record 66 2))) [2]"
  "carries ex_route_codec (AeaEnvelope \<lparr>ape_Envelope = [5], ape_Record = Some (ex_record 65 7)\<rparr>) [3]"
  "carries ex_route_codec (Status (Some \<lparr>Code = SUCCESS, Msgs = []\<rparr>)) [4]"
  "env_Marshal ex_route_codec (ex_env ''cosmosB'' ''cosmosA'') = Inr [5]"
  by (simp_all add: carries_def ex_route_codec_def table_codec_def maxMessageSizeDelegateConnection_def)

lemma ex_env_simps [simp]: "To (ex_env t f) = t" "Sender (ex_env t f) = f"
  by (simp_all add: ex_env_def)

section \<open>Properties of routing\<close>

text \<open>C8: A lookup that succeeds returns a record of the address asked for whose proof of representation is
  valid for the peer key it names, and the peer of exactly that key; a lookup without a valid record is
  always an error, so no caller ever dials the empty peer.\<close>

theorem lookup_proven:
  assumes "lookupAddressDHT C K address s = (Ok (peer, record), s')"
  shows "\<exists>r. record = Some r \<and> valid_proof K r address (PeerPublicKey r)
    \<and> IDFromFetchAIPublicKey K (PeerPublicKey r) = Inr peer"
  using lookupAddressDHT_Ok [OF assms] by (simp add: lookup_sound_def)

lemma lookup_proven_witness:
  "\<exists>s'. lookupAddressDHT ex_route_codec ex_crypto ''cosmosB''
      (ex_peer_state (ex_net [Inr (ex_stream [frame [2]] 2)] [[''x'']])) = (Ok (replicate 2 CHR ''p'', Some (ex_record 66 2)), s')
    \<and> valid_proof ex_crypto (ex_record 66 2) ''cosmosB'' (ex_key 2)"
proof -
  have v: "valid_proof ex_crypto (ex_record 66 2) ''cosmosB'' (PeerPublicKey (ex_record 66 2))"
    using ex_valid [of 66 2] by simp
  have i: "IDFromFetchAIPublicKey ex_crypto (PeerPublicKey (ex_record 66 2)) = Inr (replicate 2 CHR ''p'')"
    by (simp add: ex_peer)
  obtain s' where "lookupAddressDHT ex_route_codec ex_crypto ''cosmosB''
      (ex_peer_state (ex_net [Inr (ex_stream [frame [2]] 2)] [[''x'']])) = (Ok (replicate 2 CHR ''p'', Some (ex_record 66 2)), s')"
    using lookupAddressDHT_found [OF ex_route_codec_ok ex_route_messages(1,2) _ _ _ v i,
        of "ex_peer_state (ex_net [Inr (ex_stream [frame [2]] 2)] [[''x'']])" "ex_stream [frame [2]] 2" "[]" "[]"]
    by (auto simp: ComputeCID_def)
  with lookup_proven [OF this] show ?thesis by auto
qed

text \<open>C30: An envelope whose sender is neither the peer's own agent nor registered in its mailbox or with it is
  refused: the error names the sender, and nothing but two counters has changed.\<close>

theorem route_refuses_unregistered:
  assumes "Sender e \<noteq> myAgentAddress (cfg s)" and "peerRecords s (Sender e) = None"
    and "\<forall>mb. mailboxServer s = Some mb \<longrightarrow> envelopes mb (Sender e) = None"
  shows "RouteEnvelope C K e s
    = (Err (ErrMsg (''Envelope sender is not registered locally '' @ Sender e)), routeCountAll_Inc (routeCount_add 1 s))"
proof -
  have "getEnvelopeAcnRecord e s = Err (ErrMsg (''Envelope sender is not registered locally '' @ Sender e))"
    using assms by (auto simp: getEnvelopeAcnRecord_def IsAddrRegistered_def Let_def split: option.splits)
  then show ?thesis by (simp add: RouteEnvelope_def Let_def)
qed

lemma route_refuses_unregistered_witness:
  "fst (RouteEnvelope ex_route_codec ex_crypto (ex_env ''cosmosA'' ''evil'') (ex_peer_state (ex_net [] [])))
    = Err (ErrMsg ''Envelope sender is not registered locally evil'')"
  using route_refuses_unregistered [of "ex_env ''cosmosA'' ''evil''" "ex_peer_state (ex_net [] [])"] by simp

text \<open>C19: An envelope for an agent elsewhere is written, with its sender's record, to one new stream of the peer
  that the lookup proved, and when that peer answers \<open>SUCCESS\<close> the routing succeeds; these two streams are
  the only ones used.\<close>

theorem route_via_lookup:
  assumes "codec_ok C" and "mailboxServer s = None" and "Sender e = myAgentAddress (cfg s)"
    and "To e \<noteq> myAgentAddress (cfg s)" and "tcpAddresses s (To e) = None" and "dhtAddresses s (To e) = None"
    and "w_FindProviders (net s) = (p # ps) # qs" and "w_NewStream (net s) = Inr st1 # Inr st2 # rest"
    and "wcap st1 = None" and "wcap st2 = None" and "ComputeCID K (To e) = Inr cid"
    and "carries C (LookupRequest (To e)) rq" and "carries C (LookupResponse (Some r)) rs"
    and "concat (rx st1) = frame rs @ rest1" and "valid_proof K r (To e) (PeerPublicKey r)"
    and "IDFromFetchAIPublicKey K (PeerPublicKey r) = Inr pid"
    and "env_Marshal C e = Inr eb"
    and "carries C (AeaEnvelope \<lparr>ape_Envelope = eb, ape_Record = myAgentRecord (cfg s)\<rparr>) b"
    and "carries C (Status (Some \<lparr>Code = SUCCESS, Msgs = []\<rparr>)) ok" and "concat (rx st2) = frame ok @ rest2"
  shows "\<exists>st1' st2' s'. RouteEnvelope C K e s = (Ok (), s') \<and> tx st1' = tx st1 @ frame rq \<and> tx st2' = tx st2 @ frame b
    \<and> w_used (net s') = w_used (net s) @ [(p, AeaAddressStream, st1'), (pid, AeaEnvelopeStream, st2')]"
  using RouteEnvelope_delivers [OF assms] .

lemma route_via_lookup_witness:
  "\<exists>st1' st2' s'. RouteEnvelope ex_route_codec ex_crypto (ex_env ''cosmosB'' ''cosmosA'')
      (ex_peer_state (ex_net [Inr (ex_stream [frame [2]] 2), Inr (ex_stream [frame [4]] 2)] [[''x'']])) = (Ok (), s')
    \<and> tx st2' = frame [3] \<and> w_used (net s') = [(''x'', AeaAddressStream, st1'), (replicate 2 CHR ''p'', AeaEnvelopeStream, st2')]"
proof -
  have v: "valid_proof ex_crypto (ex_record 66 2) ''cosmosB'' (PeerPublicKey (ex_record 66 2))"
    using ex_valid [of 66 2] by simp
  show ?thesis
    using route_via_lookup [of ex_route_codec
        "ex_peer_state (ex_net [Inr (ex_stream [frame [2]] 2), Inr (ex_stream [frame [4]] 2)] [[''x'']])"
        "ex_env ''cosmosB'' ''cosmosA''" "''x''" "[]" "[]" "ex_stream [frame [2]] 2" "ex_stream [frame [4]] 2" "[]"
        ex_crypto "to_bytes ''cosmosB''" "[1]" "ex_record 66 2" "[2]" "[]" "replicate 2 CHR ''p''" "[5]" "[3]" "[4]" "[]"]
      v ex_route_codec_ok ex_route_messages
    by (auto simp: ComputeCID_def ex_peer)
qed

text \<open>The gauge of ongoing routings leaks: an envelope taken by the mailbox counts as ongoing for ever, since
  the early return does not decrement it.\<close>

lemma route_gauge_leaks:
  assumes "Sender e = myAgentAddress (cfg s)" and "mailboxServer s = Some mb" and "fst (mailbox_RouteEnvelope e mb)"
  shows "fst (RouteEnvelope C K e s) = Ok ()
    \<and> routeCount (metric (snd (RouteEnvelope C K e s))) = routeCount (metric s) + 1"
proof -
  have "getEnvelopeAcnRecord e s = Ok (myAgentRecord (cfg s))"
    using assms(1) by (simp add: getEnvelopeAcnRecord_def)
  moreover obtain mb' where "mailbox_RouteEnvelope e mb = (True, mb')" using assms(3) by (metis prod.collapse)
  moreover have "mailboxServer (route_begun s) = Some mb"
    using assms(2) by (simp add: routeCountAll_Inc_def routeCount_add_def)
  ultimately have "RouteEnvelope C K e s = (Ok (), (route_begun s)\<lparr>mailboxServer := Some mb'\<rparr>)"
    by (simp add: RouteEnvelope_def route_mailbox_def Let_def)
  then show ?thesis by (simp add: routeCountAll_Inc_def routeCount_add_def)
qed

lemma route_gauge_leaks_witness:
  "routeCount (metric (snd (RouteEnvelope ex_route_codec ex_crypto (ex_env ''cosmosB'' ''cosmosA'')
      ((ex_peer_state (ex_net [] []))\<lparr>mailboxServer := Some (register_commit (ex_record 66 7) ''s'' (mailbox_start [] []))\<rparr>)))) = 1"
proof -
  have "fst (mailbox_RouteEnvelope (ex_env ''cosmosB'' ''cosmosA'') (register_commit (ex_record 66 7) ''s'' (mailbox_start [] [])))"
    by (simp add: mailbox_RouteEnvelope_def register_commit_def mailbox_start_def Let_def)
  from route_gauge_leaks [OF _ _ this, of "(ex_peer_state (ex_net [] []))\<lparr>mailboxServer := Some (register_commit (ex_record 66 7) ''s'' (mailbox_start [] []))\<rparr>"
      ex_route_codec ex_crypto]
  show ?thesis by (simp add: ex_peer_state_def)
qed

text \<open>C18: While the peer is not closing, the goroutine of the slow queue gives every deferred envelope exactly one
  further attempt (a lookup and the delivery behind it), first come first served, and never puts one back,
  whatever the attempts answer: its result is that of the attempts run one after the other. When all of them
  have returned nothing is left, and the goroutine waits for more or, on a closed queue, returns; it stops
  earlier only with the outcome of an attempt that panics or never returns.\<close>

theorem slow_envelopes_retried_once:
  assumes "\<not> isClosing s"
    and "run_jobs (\<lambda>e t. routeEnvelopeDHTLookup C K e (t\<lparr>slow_queue := (slow_queue t)\<lparr>chan_buf := tl (chan_buf (slow_queue t))\<rparr>\<rparr>))
      (chan_buf (slow_queue s)) s = (r, s')"
  shows "slowEnvelopeSendLoop C K s =
      (if r = Ok () then (if chan_closed (slow_queue s) then Ok () else Block, s') else (r, s'))
    \<and> (r = Ok () \<longrightarrow> chan_buf (slow_queue s') = []) \<and> r \<in> {Ok (), Panic, Block}
    \<and> (\<exists>k \<le> length (chan_buf (slow_queue s)). chan_buf (slow_queue s') = drop k (chan_buf (slow_queue s)))"
proof -
  have j: "run_jobs (slow_job C K) (chan_buf (slow_queue s)) s = (r, s')"
    using assms(2) by (simp only: slow_job_def [abs_def])
  have "r \<noteq> Err e" for e using run_jobs_not_Err [of "slow_job C K" "chan_buf (slow_queue s)" s e] j by simp
  then have "r \<in> {Ok (), Panic, Block}" by (cases r) auto
  moreover note slow.worker_runs [where s = s and C = C and K = K, OF assms(1)]
  moreover note slow.run_jobs_good [where C = C and K = K, OF assms(1) j]
  ultimately show ?thesis using j by auto
qed

text \<open>Two envelopes wait, the first from an agent that is not registered; the second is looked up and delivered.\<close>

definition ex_deferred :: "Envelope list DHTPeer" where
  "ex_deferred = (ex_peer_state (ex_net [Inr (ex_stream [frame [2]] 2), Inr (ex_stream [frame [4]] 2)] [[''x'']]))
     \<lparr>slow_queue := \<lparr>chan_cap = 100, chan_buf = [ex_env ''cosmosB'' ''evil'', ex_env ''cosmosB'' ''cosmosA''], chan_closed = False\<rparr>\<rparr>"

lemma slow_envelopes_retried_once_witness:
  "\<exists>st1 st2 s'. slowEnvelopeSendLoop ex_route_codec ex_crypto ex_deferred = (Block, s') \<and> chan_buf (slow_queue s') = []
    \<and> tx st1 = frame [1] \<and> tx st2 = frame [3]
    \<and> w_used (net s') = [(''x'', AeaAddressStream, st1), (replicate 2 CHR ''p'', AeaEnvelopeStream, st2)]"
proof -
  let ?job = "\<lambda>e t. routeEnvelopeDHTLookup ex_route_codec ex_crypto e (t\<lparr>slow_queue := (slow_queue t)\<lparr>chan_buf := tl (chan_buf (slow_queue t))\<rparr>\<rparr>)"
  let ?s1 = "ex_deferred\<lparr>slow_queue := (slow_queue ex_deferred)\<lparr>chan_buf := [ex_env ''cosmosB'' ''cosmosA'']\<rparr>\<rparr>"
  let ?s2 = "?s1\<lparr>slow_queue := (slow_queue ?s1)\<lparr>chan_buf := []\<rparr>\<rparr>"
  have q: "\<not> isClosing ex_deferred" "chan_buf (slow_queue ex_deferred) = [ex_env ''cosmosB'' ''evil'', ex_env ''cosmosB'' ''cosmosA'']"
      "\<not> chan_closed (slow_queue ex_deferred)"
    by (simp_all add: ex_deferred_def ex_peer_state_def)
  have v: "valid_proof ex_crypto (ex_record 66 2) ''cosmosB'' (PeerPublicKey (ex_record 66 2))"
    using ex_valid [of 66 2] by simp
  have "\<exists>st1 st2 s'. routeEnvelopeDHTLookup ex_route_codec ex_crypto (ex_env ''cosmosB'' ''cosmosA'') ?s2 = (Ok (), s')
      \<and> tx st1 = tx (ex_stream [frame [2]] 2) @ frame [1] \<and> tx st2 = tx (ex_stream [frame [4]] 2) @ frame [3]
      \<and> w_used (net s') = w_used (net ?s2) @ [(''x'', AeaAddressStream, st1), (replicate 2 CHR ''p'', AeaEnvelopeStream, st2)]"
    by (rule DHTLookup_delivers [where ps = "[]" and qs = "[]" and rest = "[]" and cid = "to_bytes ''cosmosB''" and r = "ex_record 66 2"
          and rs = "[2]" and ?rest1.0 = "[]" and eb = "[5]" and ok = "[4]" and ?rest2.0 = "[]"])
      (use v ex_route_codec_ok ex_route_messages in \<open>simp_all add: ex_deferred_def ComputeCID_def ex_peer\<close>)
  then obtain st1 st2 s' where s': "routeEnvelopeDHTLookup ex_route_codec ex_crypto (ex_env ''cosmosB'' ''cosmosA'') ?s2 = (Ok (), s')"
      "tx st1 = frame [1]" "tx st2 = frame [3]"
      "w_used (net s') = [(''x'', AeaAddressStream, st1), (replicate 2 CHR ''p'', AeaEnvelopeStream, st2)]"
    by (auto simp: ex_deferred_def)
  have "?job (ex_env ''cosmosB'' ''evil'') ex_deferred = (Err (ErrMsg (''Envelope sender is not registered locally '' @ ''evil'')), ?s1)"
    by (simp add: ex_deferred_def routeEnvelopeDHTLookup_def getEnvelopeAcnRecord_def IsAddrRegistered_def Let_def)
  then have "run_jobs ?job (chan_buf (slow_queue ex_deferred)) ex_deferred = (Ok (), s')"
    using s'(1) q(2) by simp
  from slow_envelopes_retried_once [OF q(1) this] s' q(3) show ?thesis by auto
qed

end
