(* ===== verification/DhtPeerServe.thy ===== *)
theory DhtPeerServe
  imports DhtPeerRoute
begin

text \<open>
  What a peer does for others (\<open>dht/dhtpeer/dhtpeer.go\<close>): envelopes and address requests that arrive
  on streams, the registration of relay clients, the notification of new peers, the connections
  of delegate clients, and the end of it all in \<open>Close\<close>.

  A goroutine that serves one connection or stream is a function over the peer's state; the loop of
  a delegate connection runs until it returns, waits or panics. The goroutine that routes the
  envelopes of one (receiver, sender) pair is the function \<open>pair_loop\<close> over the channel of the pair.

  The facts: the peer keeps the contract \<open>dht_handler\<close> of the shared stream handlers; registration
  stores a record exactly when its proof is valid for the key that registers, or for the empty key where the key of the
  remote peer cannot be converted, an error that the handlers ignore; a delegate client can only
  send under its own address; each pair's envelopes are routed in the order in which they came.
\<close>

section \<open>Envelopes and address requests\<close>

definition HandleAeaEnvelope :: "codec \<Rightarrow> Envelope \<Rightarrow> 'g DHTPeer \<Rightarrow> unit res \<times> 'g DHTPeer" where
  "HandleAeaEnvelope C envel s =
     (case route_mailbox envel s of
        (True, s1) \<Rightarrow> (Ok (), s1)
      | (False, s1) \<Rightarrow>
          (case tcpAddresses s (To envel) of
             Some cid \<Rightarrow>
               (case MakeAcnMessageFromEnvelope C envel of
                  Inl e \<Rightarrow> (Err (ACNError ERROR_DECODE (ErrMsg ''serializing envelope error'')), s1)
                | Inr data \<Rightarrow>
                    (case WriteBytesConn (conns s1 cid) data of
                       (r, c) \<Rightarrow>
                         (let s2 = s1\<lparr>conns := (conns s1)(cid := c)\<rparr> in
                          case r of
                            Panic \<Rightarrow> (Panic, s2)
                          | Block \<Rightarrow> (Block, s2)
                          | Err e \<Rightarrow> (Err (ACNError ERROR_AGENT_NOT_READY (ErrMsg ''agent is not ready'')), s2)
                          | Ok _ \<Rightarrow>
                              (case AwaitAcnStatus (To envel) s2 of
                                 (Err e, s3) \<Rightarrow>
                                   (Err (ACNError ERROR_AGENT_NOT_READY
                                     (ErrMsg ''while awating acn ack on sending  envelope to tcp clien'')), s3)
                               | (Ok _, s3) \<Rightarrow> (Ok (), s3)
                               | (Panic, s3) \<Rightarrow> (Panic, s3)
                               | (Block, s3) \<Rightarrow> (Block, s3)))))
           | None \<Rightarrow>
               if To envel = myAgentAddress (cfg s1)
               then (case processEnvelope s1 of
                       None \<Rightarrow> (Err (ACNError ERROR_AGENT_NOT_READY (ErrMsg ''agent is not ready'')), s1)
                     | Some f \<Rightarrow>
                         (case f envel (agent s1) of
                            (Panic, g) \<Rightarrow> (Panic, s1\<lparr>agent := g\<rparr>)
                          | (Block, g) \<Rightarrow> (Block, s1\<lparr>agent := g\<rparr>)
                          | (_, g) \<Rightarrow> (Ok (), s1\<lparr>agent := g\<rparr>)))
               else (Err (ACNError ERROR_UNKNOWN_AGENT_ADDRESS (ErrMsg ''unknown agent address'')), s1)))"

definition unknown_agent :: err where
  "unknown_agent = ACNError ERROR_UNKNOWN_AGENT_ADDRESS (ErrMsg ''unknown agent address'')"

definition HandleAeaAddressRequest ::
  "codec \<Rightarrow> crypto \<Rightarrow> string \<Rightarrow> 'g DHTPeer \<Rightarrow> AgentRecord option res \<times> 'g DHTPeer" where
  "HandleAeaAddressRequest C K reqAddress s =
     (let answer = (\<lambda>sRecord t. case sRecord of None \<Rightarrow> (Err unknown_agent, t) | Some r \<Rightarrow> (Ok (Some r), t));
          mine = (\<lambda>r. case IDFromPublicKey K (peer_publicKey (cfg s)) of Inl e \<Rightarrow> None | Inr peerID \<Rightarrow> r)
      in if reqAddress = myAgentAddress (cfg s) then answer (mine (myAgentRecord (cfg s))) s
         else if dhtAddresses s reqAddress \<noteq> None then answer (peerRecords s reqAddress) s
         else case mailboxServer s of
           Some mb \<Rightarrow>
             (if IsAddrRegistered reqAddress mb then answer (mailbox_GetAgentRecord reqAddress mb) s
              else if tcpAddresses s reqAddress \<noteq> None then answer (mine (peerRecords s reqAddress)) s
              else case lookupAddressDHT C K reqAddress s of
                (Ok (peerID, peerRecord), s1) \<Rightarrow> answer peerRecord s1
              | (Err e, s1) \<Rightarrow> (Err unknown_agent, s1)
              | (Panic, s1) \<Rightarrow> (Panic, s1)
              | (Block, s1) \<Rightarrow> (Block, s1))
         | None \<Rightarrow>
             (if tcpAddresses s reqAddress \<noteq> None then answer (mine (peerRecords s reqAddress)) s
              else case lookupAddressDHT C K reqAddress s of
                (Ok (peerID, peerRecord), s1) \<Rightarrow> answer peerRecord s1
              | (Err e, s1) \<Rightarrow> (Err unknown_agent, s1)
              | (Panic, s1) \<Rightarrow> (Panic, s1)
              | (Block, s1) \<Rightarrow> (Block, s1)))"

definition peer_handler :: "codec \<Rightarrow> crypto \<Rightarrow> 'g DHTPeer DHTHandler" where
  "peer_handler C K =
     \<lparr>handle_envelope = HandleAeaEnvelope C, handle_address = HandleAeaAddressRequest C K\<rparr>"

definition handleAeaEnvelopeStream ::
  "codec \<Rightarrow> crypto \<Rightarrow> stream \<Rightarrow> 'g DHTPeer \<Rightarrow> unit res \<times> stream \<times> 'g DHTPeer" where
  "handleAeaEnvelopeStream C K st s = HandleAeaEnvelopeStream C K (peer_handler C K) st s"

definition handleAeaAddressStream ::
  "codec \<Rightarrow> crypto \<Rightarrow> stream \<Rightarrow> 'g DHTPeer \<Rightarrow> unit res \<times> stream \<times> 'g DHTPeer" where
  "handleAeaAddressStream C K st s = HandleAeaAddressStream C (peer_handler C K) st s"

section \<open>New peers\<close>

text \<open>The wait for the notifying peer to appear in the routing table ends with it or with the
  timeout; the two ranges get their keys in the order of the range.\<close>

definition await_routing_table :: "'g DHTPeer \<Rightarrow> bool \<times> 'g DHTPeer" where
  "await_routing_table s =
     (case dropWhile Not (w_RoutingTable (net s)) of
        [] \<Rightarrow> (False, s\<lparr>net := (net s)\<lparr>w_RoutingTable := []\<rparr>\<rparr>)
      | _ # rest \<Rightarrow> (True, s\<lparr>net := (net s)\<lparr>w_RoutingTable := rest\<rparr>\<rparr>))"

definition handleAeaNotifStream ::
  "crypto \<Rightarrow> address list \<Rightarrow> address list \<Rightarrow> 'g DHTPeer \<Rightarrow> unit res \<times> 'g DHTPeer" where
  "handleAeaNotifStream K relayKeys tcpKeys s =
     (case await_routing_table s of
        (False, s1) \<Rightarrow> (Ok (), s1)
      | (True, s1) \<Rightarrow>
          (let me = myAgentAddress (cfg s1);
               (r, s2) = (if me \<noteq> [] \<and> \<not> IsAddressAnnounced me s1 then RegisterAgentAddress K me s1
                          else (Ok (), s1))
           in case r of
                Err e \<Rightarrow> (Ok (), s2)
              | Panic \<Rightarrow> (Panic, s2)
              | Block \<Rightarrow> (Block, s2)
              | Ok _ \<Rightarrow>
                  (let s3 = (if enableRelay (cfg s2) then announce_all K relayKeys s2 else s2);
                       s4 = (if delegatePort (cfg s3) \<noteq> 0 then announce_all K tcpKeys s3 else s3)
                   in (Ok (), s4\<lparr>enableAddressAnnouncement := True\<rparr>))))"

section \<open>Critical sections\<close>

text \<open>The maps of the peer have a lock each, and the goroutines of the streams and connections change them one critical
  section at a time: the record of an address; the relay entry together with the append to the store, both under
  the lock of the relay entries; the connection of a delegate client; its status queue; the removal of either.
  The handlers below are compositions of these sections; other goroutines may run between them.\<close>

definition register_record :: "AgentRecord \<Rightarrow> 'g DHTPeer \<Rightarrow> 'g DHTPeer" where
  "register_record record s = s\<lparr>peerRecords := (peerRecords s)(Address record \<mapsto> record)\<rparr>"

definition register_relay :: "codec \<Rightarrow> AgentRecord \<Rightarrow> string \<Rightarrow> 'g DHTPeer \<Rightarrow> 'g DHTPeer" where
  "register_relay C record clientPeerID s =
     s\<lparr>dhtAddresses := (dhtAddresses s)(Address record \<mapsto> clientPeerID),
       storage := snd (saveAgentRecordToPersistentStorage C record (storage s))\<rparr>"

definition set_tcp :: "address \<Rightarrow> nat \<Rightarrow> 'g DHTPeer \<Rightarrow> 'g DHTPeer" where
  "set_tcp addr cid s = s\<lparr>tcpAddresses := (tcpAddresses s)(addr \<mapsto> cid)\<rparr>"

definition set_statuses :: "address \<Rightarrow> 'g DHTPeer \<Rightarrow> 'g DHTPeer" where
  "set_statuses addr s = s\<lparr>acnStatuses := (acnStatuses s)(addr \<mapsto> make_chan AcnStatusesQueueSize)\<rparr>"

definition delete_tcp :: "address \<Rightarrow> 'g DHTPeer \<Rightarrow> 'g DHTPeer" where
  "delete_tcp addr s = s\<lparr>tcpAddresses := (tcpAddresses s)(addr := None)\<rparr>"

definition delete_statuses :: "address \<Rightarrow> 'g DHTPeer \<Rightarrow> 'g DHTPeer" where
  "delete_statuses addr s = s\<lparr>acnStatuses := (acnStatuses s)(addr := None)\<rparr>"

definition make_pair :: "string \<Rightarrow> 'g DHTPeer \<Rightarrow> 'g DHTPeer" where
  "make_pair pair s = s\<lparr>syncMessages := (syncMessages s)(pair \<mapsto> make_chan 1000)\<rparr>"

definition send_pair :: "string \<Rightarrow> Envelope \<Rightarrow> 'g DHTPeer \<Rightarrow> bool res \<times> 'g DHTPeer" where
  "send_pair pair envel s =
     (case chan_try_send envel (syncMessages s pair) of
        (r, ch) \<Rightarrow> (r, s\<lparr>syncMessages := (syncMessages s)(pair := ch)\<rparr>))"

lemmas section_defs = register_record_def register_relay_def set_tcp_def set_statuses_def delete_tcp_def delete_statuses_def
  make_pair_def send_pair_def

section \<open>Relay clients\<close>

definition handleAeaRegisterStream ::
  "codec \<Rightarrow> crypto \<Rightarrow> stream \<Rightarrow> 'g DHTPeer \<Rightarrow> unit res \<times> stream \<times> 'g DHTPeer" where
  "handleAeaRegisterStream C K st s =
     (case ReadAgentRegistrationMessage C StreamPipe st of
        (Panic, st1) \<Rightarrow> (Panic, st1, s)
      | (Block, st1) \<Rightarrow> (Block, st1, s)
      | (Err e, st1) \<Rightarrow> (Ok (), stream_Reset st1, s)
      | (Ok None, st1) \<Rightarrow> (Panic, st1, s)
      | (Ok (Some record), st1) \<Rightarrow>
          (let clientAddr = Address record in
           case IsValidProofOfRepresentation K (Some record) (Address record) (remote_key K st1) of
             Panic \<Rightarrow> (Panic, st1, s)
           | Block \<Rightarrow> (Block, st1, s)
           | Err e \<Rightarrow> (Err e, st1, s)
           | Ok (status, err) \<Rightarrow>
               if err \<noteq> None \<or> Code status \<noteq> SUCCESS
               then (case err of
                       None \<Rightarrow> (Panic, st1, s)
                     | Some e \<Rightarrow>
                         (case ignoring (SendAcnError C StreamPipe st1 (Error e) [Code status])
                                (\<lambda>st2. (Ok (), st2)) of (r, st2) \<Rightarrow> (r, st2, s)))
               else (case SendAcnSuccess C StreamPipe st1 of
                       (Panic, st2) \<Rightarrow> (Panic, st2, s)
                     | (Block, st2) \<Rightarrow> (Block, st2, s)
                     | (Err e, st2) \<Rightarrow> (Ok (), stream_Reset st2, s)
                     | (Ok _, st2) \<Rightarrow>
                         (let st3 = stream_Close st2;
                              clientPeerID = peer_String K (remotePeer st3);
                              s1 = relayClientsAll_Inc s;
                              s2 = register_relay C record clientPeerID (register_record record s1)
                          in if IsAddressAnnouncementEnabled s2 \<and> \<not> IsAddressAnnounced clientAddr s2
                             then (case RegisterAgentAddress K clientAddr s2 of
                                     (Panic, s3) \<Rightarrow> (Panic, st3, s3)
                                   | (Block, s3) \<Rightarrow> (Block, st3, s3)
                                   | (_, s3) \<Rightarrow> (Ok (), st3, s3))
                             else (Ok (), st3, s2)))))"

section \<open>Delegate clients\<close>

definition set_conn :: "nat \<Rightarrow> conn \<Rightarrow> 'g DHTPeer \<Rightarrow> 'g DHTPeer" where
  "set_conn cid c s = s\<lparr>conns := (conns s)(cid := c)\<rparr>"

text \<open>The registration part of \<open>handleNewDelegationConnection\<close>: the address when the connection goes
  on, \<open>None\<close> when the goroutine returns.\<close>

definition delegate_register ::
  "codec \<Rightarrow> crypto \<Rightarrow> nat \<Rightarrow> 'g DHTPeer \<Rightarrow> address option res \<times> 'g DHTPeer" where
  "delegate_register C K cid s =
     (case ReadAgentRegistrationMessage C ConnPipe (conns s cid) of
        (Panic, c) \<Rightarrow> (Panic, set_conn cid c s)
      | (Block, c) \<Rightarrow> (Block, set_conn cid c s)
      | (Err e, c) \<Rightarrow> (Ok None, delegateClients_add (- 1) (set_conn cid c s))
      | (Ok None, c) \<Rightarrow> (Panic, set_conn cid c s)
      | (Ok (Some record), c) \<Rightarrow>
          (let addr = Address record in
           case CheckPOR K (Some record) s of
             Panic \<Rightarrow> (Panic, set_conn cid c s)
           | Block \<Rightarrow> (Block, set_conn cid c s)
           | Err e \<Rightarrow> (Err e, set_conn cid c s)
           | Ok (status, err) \<Rightarrow>
               if err \<noteq> None \<or> Code status \<noteq> SUCCESS
               then (case err of
                       None \<Rightarrow> (Panic, set_conn cid c s)
                     | Some e \<Rightarrow>
                         (case ignoring (SendAcnError C ConnPipe c (Error e) [Code status])
                                (\<lambda>c1. (Ok None, c1)) of
                            (r, c1) \<Rightarrow> (r, delegateClients_add (- 1) (set_conn cid c1 s))))
               else (case SendAcnSuccess C ConnPipe c of
                       (Panic, c1) \<Rightarrow> (Panic, set_conn cid c1 s)
                     | (Block, c1) \<Rightarrow> (Block, set_conn cid c1 s)
                     | (Err e, c1) \<Rightarrow> (Ok None, delegateClients_add (- 1) (set_conn cid c1 s))
                     | (Ok _, c1) \<Rightarrow>
                         (let s1 = set_conn cid c1 s;
                              s2 = set_statuses addr (set_tcp addr cid (register_record record s1))
                          in case (if IsAddressAnnouncementEnabled s2 then RegisterAgentAddress K addr s2
                                   else (Ok (), s2)) of
                               (Ok _, s3) \<Rightarrow> (Ok (Some addr), delegateClientsAll_Inc (delegateClients_add 1 s3))
                             | (Err e, s3) \<Rightarrow> (Ok None, s3)
                             | (Panic, s3) \<Rightarrow> (Panic, s3)
                             | (Block, s3) \<Rightarrow> (Block, s3)))))"

text \<open>The queue of the pair, made when it is not there, and the non-blocking send into it.\<close>

definition pair_key :: "Envelope \<Rightarrow> string" where
  "pair_key envel = To envel @ Sender envel"

definition enqueue_pair :: "Envelope \<Rightarrow> 'g DHTPeer \<Rightarrow> bool res \<times> 'g DHTPeer" where
  "enqueue_pair envel s =
     (let pair = pair_key envel;
          s1 = (case syncMessages s pair of None \<Rightarrow> make_pair pair s | Some _ \<Rightarrow> s)
      in send_pair pair envel s1)"

text \<open>One turn of the reading loop: \<open>True\<close> to go on, \<open>False\<close> to leave it.\<close>

definition delegate_step :: "codec \<Rightarrow> address \<Rightarrow> nat \<Rightarrow> 'g DHTPeer \<Rightarrow> bool res \<times> 'g DHTPeer" where
  "delegate_step C addr cid s =
     (case HandleAcnMessageFromPipe C ConnPipe AddAcnStatusMessage addr (conns s cid) s of
        (r, c, s1) \<Rightarrow>
          (let s2 = set_conn cid c s1 in
           case r of
             Panic \<Rightarrow> (Panic, s2)
           | Block \<Rightarrow> (Block, s2)
           | Err e \<Rightarrow> (Ok False, delegateClients_add (- 1) s2)
           | Ok None \<Rightarrow> (Ok True, s2)
           | Ok (Some envel) \<Rightarrow>
               if Sender envel \<noteq> addr then (Ok True, s2)
               else (case enqueue_pair envel s2 of
                       (Ok _, s3) \<Rightarrow> (Ok True, s3)
                     | (Err e, s3) \<Rightarrow> (Err e, s3)
                     | (Panic, s3) \<Rightarrow> (Panic, s3)
                     | (Block, s3) \<Rightarrow> (Block, s3))))"

lemma AddAcnStatusMessage_conns: "AddAcnStatusMessage st a s = (r, s') \<Longrightarrow> conns s' = conns s"
  by (auto simp: AddAcnStatusMessage_def split: prod.splits)

lemma delegate_step_less:
  assumes "delegate_step C addr cid s = (Ok True, s')"
  shows "conn_pending (conns s' cid) < conn_pending (conns s cid)"
proof -
  obtain r c s1 where h: "HandleAcnMessageFromPipe C ConnPipe AddAcnStatusMessage addr (conns s cid) s = (r, c, s1)"
    by (metis prod_cases3)
  have r: "r \<noteq> Panic" "r \<noteq> Block" "\<And>e. r = Err e \<Longrightarrow> \<not> is_pipe_error e"
    using assms h by (auto simp: delegate_step_def Let_def)
  have "conns s' cid = c"
    using assms h
    by (auto simp: delegate_step_def set_conn_def enqueue_pair_def section_defs Let_def
        split: res.splits option.splits if_splits prod.splits)
  with conn_drain.handled_less [OF h r] show ?thesis by simp
qed

function delegate_loop :: "codec \<Rightarrow> address \<Rightarrow> nat \<Rightarrow> 'g DHTPeer \<Rightarrow> unit res \<times> 'g DHTPeer" where
  "delegate_loop C addr cid s =
     (case delegate_step C addr cid s of
        (Ok True, s1) \<Rightarrow> delegate_loop C addr cid s1
      | (Ok False, s1) \<Rightarrow> (Ok (), s1)
      | (Err e, s1) \<Rightarrow> (Err e, s1)
      | (Panic, s1) \<Rightarrow> (Panic, s1)
      | (Block, s1) \<Rightarrow> (Block, s1))"
  by pat_completeness auto
termination
  by (relation "measure (\<lambda>(C, addr, cid, s). conn_pending (conns s cid))")
    (auto dest: delegate_step_less [OF sym])

declare delegate_loop.simps [simp del]

text \<open>The loop and the clean-up of the maps behind it, by address; then the whole goroutine. The connection
  is closed on every return.\<close>

definition delegate_serve :: "codec \<Rightarrow> address \<Rightarrow> nat \<Rightarrow> 'g DHTPeer \<Rightarrow> unit res \<times> 'g DHTPeer" where
  "delegate_serve C addr cid s =
     (case delegate_loop C addr cid s of
        (Ok _, s1) \<Rightarrow>
          (let s2 = delete_statuses addr (delete_tcp addr s1)
           in (Ok (), set_conn cid (conn_close (conns s2 cid)) s2))
      | (r, s1) \<Rightarrow> (r, s1))"

definition handleNewDelegationConnection ::
  "codec \<Rightarrow> crypto \<Rightarrow> nat \<Rightarrow> 'g DHTPeer \<Rightarrow> unit res \<times> 'g DHTPeer" where
  "handleNewDelegationConnection C K cid s =
     (case delegate_register C K cid s of
        (Panic, s1) \<Rightarrow> (Panic, s1)
      | (Block, s1) \<Rightarrow> (Block, s1)
      | (Err e, s1) \<Rightarrow> (Err e, set_conn cid (conn_close (conns s1 cid)) s1)
      | (Ok None, s1) \<Rightarrow> (Ok (), set_conn cid (conn_close (conns s1 cid)) s1)
      | (Ok (Some addr), s1) \<Rightarrow> delegate_serve C addr cid s1)"

text \<open>One turn of the goroutine of a pair: the next envelope of its channel is routed, errors are logged. It
  returns (\<open>False\<close>) when the channel is closed and empty and waits when it is open and empty.\<close>

definition pair_turn :: "codec \<Rightarrow> crypto \<Rightarrow> string \<Rightarrow> 'g DHTPeer \<Rightarrow> bool res \<times> 'g DHTPeer" where
  "pair_turn C K pair s =
     (case syncMessages s pair of
        None \<Rightarrow> (Block, s)
      | Some ch \<Rightarrow>
          (case chan_buf ch of
             [] \<Rightarrow> (if chan_closed ch then Ok False else Block, s)
           | e # es \<Rightarrow>
               (case RouteEnvelope C K e (s\<lparr>syncMessages := (syncMessages s)(pair \<mapsto> ch\<lparr>chan_buf := es\<rparr>)\<rparr>) of
                  (Panic, s2) \<Rightarrow> (Panic, s2)
                | (Block, s2) \<Rightarrow> (Block, s2)
                | (_, s2) \<Rightarrow> (Ok True, s2))))"

lemma pair_turn_next:
  assumes "pair_turn C K pair s = (Ok True, s')"
  obtains ch e es x where "syncMessages s pair = Some ch" "chan_buf ch = e # es"
    "syncMessages s' = (syncMessages s)(pair \<mapsto> ch\<lparr>chan_buf := es\<rparr>)"
    "RouteEnvelope C K e (s\<lparr>syncMessages := (syncMessages s)(pair \<mapsto> ch\<lparr>chan_buf := es\<rparr>)\<rparr>) = (x, s')"
    "x \<noteq> Panic" "x \<noteq> Block"
proof -
  obtain ch e es where es: "syncMessages s pair = Some ch" "chan_buf ch = e # es"
    using assms by (auto simp: pair_turn_def split: option.splits list.splits if_splits)
  let ?s = "s\<lparr>syncMessages := (syncMessages s)(pair \<mapsto> ch\<lparr>chan_buf := es\<rparr>)\<rparr>"
  obtain x where x: "RouteEnvelope C K e ?s = (x, s')" "x \<noteq> Panic" "x \<noteq> Block"
    using assms es by (auto simp: pair_turn_def split: res.splits prod.splits)
  have "syncMessages s' = (syncMessages s)(pair \<mapsto> ch\<lparr>chan_buf := es\<rparr>)"
    using RouteEnvelope_frame [OF x(1)] by (simp add: routing_frame_def)
  with that es x show thesis by blast
qed

function pair_loop :: "codec \<Rightarrow> crypto \<Rightarrow> string \<Rightarrow> 'g DHTPeer \<Rightarrow> unit res \<times> 'g DHTPeer" where
  "pair_loop C K pair s =
     (case pair_turn C K pair s of
        (Ok True, s1) \<Rightarrow> pair_loop C K pair s1
      | (Ok False, s1) \<Rightarrow> (Ok (), s1)
      | (Err e, s1) \<Rightarrow> (Err e, s1)
      | (Panic, s1) \<Rightarrow> (Panic, s1)
      | (Block, s1) \<Rightarrow> (Block, s1))"
  by pat_completeness auto
termination
  by (relation "measure (\<lambda>(C, K, pair, s). chan_len (syncMessages s pair))")
    (auto simp: chan_len_def elim!: pair_turn_next [OF sym])

declare pair_loop.simps [simp del]

definition pair_job :: "codec \<Rightarrow> crypto \<Rightarrow> string \<Rightarrow> Envelope \<Rightarrow> 'g DHTPeer \<Rightarrow> unit res \<times> 'g DHTPeer" where
  "pair_job C K pair e s =
     RouteEnvelope C K e
       (s\<lparr>syncMessages := (syncMessages s)(pair := map_option (\<lambda>ch. ch\<lparr>chan_buf := tl (chan_buf ch)\<rparr>) (syncMessages s pair))\<rparr>)"

definition pair_queue :: "string \<Rightarrow> 'g DHTPeer \<Rightarrow> Envelope list" where
  "pair_queue pair s = (case syncMessages s pair of None \<Rightarrow> [] | Some ch \<Rightarrow> chan_buf ch)"

definition pair_closed :: "string \<Rightarrow> 'g DHTPeer \<Rightarrow> bool" where
  "pair_closed pair s = (case syncMessages s pair of None \<Rightarrow> False | Some ch \<Rightarrow> chan_closed ch)"

interpretation pair_worker: queue_worker "pair_queue pair" "pair_closed pair" "pair_job C K pair" "pair_turn C K pair" "\<lambda>_. True"
  "pair_loop C K pair"
proof unfold_locales
  fix s t :: "'g DHTPeer" and e es r
  assume "pair_queue pair s = e # es"
  then obtain ch where ch: "syncMessages s pair = Some ch" "chan_buf ch = e # es"
    by (auto simp: pair_queue_def split: option.splits)
  then show "pair_turn C K pair s
      = (case pair_job C K pair e s of (Panic, t) \<Rightarrow> (Panic, t) | (Block, t) \<Rightarrow> (Block, t) | (_, t) \<Rightarrow> (Ok True, t))"
    by (simp add: pair_turn_def pair_job_def)
  assume "pair_job C K pair e s = (r, t)"
  from RouteEnvelope_frame [OF this [unfolded pair_job_def]] ch
  show "pair_queue pair t = es \<and> True \<and> pair_closed pair t = pair_closed pair s"
    by (simp add: routing_frame_def pair_queue_def pair_closed_def)
next
  show "pair_turn C K pair s = (if pair_closed pair s then Ok False else Block, s)" if "pair_queue pair s = []" for s :: "'g DHTPeer"
    using that by (auto simp: pair_turn_def pair_queue_def pair_closed_def split: option.splits)
  show "pair_loop C K pair s = (case pair_turn C K pair s of
      (Ok True, t) \<Rightarrow> pair_loop C K pair t | (Ok False, t) \<Rightarrow> (Ok (), t) | (Err e, t) \<Rightarrow> (Err e, t)
    | (Panic, t) \<Rightarrow> (Panic, t) | (Block, t) \<Rightarrow> (Block, t))" for s :: "'g DHTPeer"
    by (rule pair_loop.simps)
qed

section \<open>Identity\<close>

text \<open>The identity of the host is that of its key. \<open>MultiAddr\<close> takes the first of the host's addresses and the
  text of \<open>Encapsulate\<close> as they are; a host without an address has none.\<close>

definition PeerID :: "crypto \<Rightarrow> 'g DHTPeer \<Rightarrow> string" where
  "PeerID K s = peer_String K (case IDFromPublicKey K (peer_publicKey (cfg s)) of Inl _ \<Rightarrow> [] | Inr i \<Rightarrow> i)"

definition MultiAddr :: "crypto \<Rightarrow> (string \<Rightarrow> string \<Rightarrow> string) \<Rightarrow> string list \<Rightarrow> 'g DHTPeer \<Rightarrow> string" where
  "MultiAddr K encapsulate addrs s =
     (case addrs of [] \<Rightarrow> [] | addr # _ \<Rightarrow> encapsulate addr (''/p2p/'' @ PeerID K s))"

section \<open>Closing\<close>

text \<open>\<open>closeAgentRecordPersistentStorage\<close>: whatever \<open>os.File.Close\<close> answers, the file is closed, and later writes fail.\<close>

definition closeAgentRecordPersistentStorage :: "err option \<Rightarrow> 'g DHTPeer \<Rightarrow> err option \<times> 'g DHTPeer" where
  "closeAgentRecordPersistentStorage file_err s =
     (file_err, s\<lparr>storage := (storage s)\<lparr>file_error := Some (ErrMsg ''file already closed'')\<rparr>\<rparr>)"

text \<open>The ends of the queues: every channel of a pair, under the lock of the pairs, and then the slow queue.\<close>

definition close_pairs :: "'g DHTPeer \<Rightarrow> 'g DHTPeer" where
  "close_pairs s = s\<lparr>syncMessages := map_option (\<lambda>ch. ch\<lparr>chan_closed := True\<rparr>) \<circ> syncMessages s\<rparr>"

definition close_slow_queue :: "'g DHTPeer \<Rightarrow> 'g DHTPeer" where
  "close_slow_queue s = s\<lparr>slow_queue := (slow_queue s)\<lparr>chan_closed := True\<rparr>\<rparr>"

text \<open>\<open>Close\<close> with the answers of the listener, the connections in the order of the map, the DHT, the host and the
  file to being closed. The \<open>closing\<close> channel is closed first, so a second call panics.\<close>

definition Close ::
  "err option \<Rightarrow> err option list \<Rightarrow> err option \<Rightarrow> err option \<Rightarrow> err option \<Rightarrow> 'g DHTPeer \<Rightarrow>
   err list res \<times> 'g DHTPeer" where
  "Close listener_err conn_errs dht_err host_err file_err s =
     (if isClosing s then (Panic, s)
      else
        let s1 = s\<lparr>isClosing := True\<rparr>;
            s2 = (if delegatePort (cfg s1) \<noteq> 0
                  then s1\<lparr>conns := (\<lambda>cid. if cid \<in> ran (tcpAddresses s1) then conn_close (conns s1 cid) else conns s1 cid)\<rparr>
                  else s1);
            (storage_err, s3) = closeAgentRecordPersistentStorage file_err s2;
            errs = concat (map (case_option [] (\<lambda>e. [e]))
                     ((if delegatePort (cfg s1) \<noteq> 0 then listener_err # conn_errs else []) @ [dht_err, host_err, storage_err]))
        in (Ok errs, close_slow_queue (close_pairs s3)))"

section \<open>The peer as a handler\<close>

text \<open>Records are filed under their own address, in the peer's map, in the mailbox and for its own
  agent.\<close>

definition peer_inv :: "'g DHTPeer \<Rightarrow> bool" where
  "peer_inv s \<longleftrightarrow>
     (\<forall>a r. peerRecords s a = Some r \<longrightarrow> Address r = a) \<and>
     (\<forall>mb a r. mailboxServer s = Some mb \<longrightarrow> agentRecords mb a = Some r \<longrightarrow> Address r = a) \<and>
     (\<forall>r. myAgentRecord (cfg s) = Some r \<longrightarrow> Address r = myAgentAddress (cfg s))"

lemma peer_inv_cong:
  "\<lbrakk>peer_inv s; peerRecords s' = peerRecords s; mailboxServer s' = mailboxServer s; cfg s' = cfg s\<rbrakk> \<Longrightarrow> peer_inv s'"
  by (simp add: peer_inv_def)

lemma route_mailbox_inv: "peer_inv s \<Longrightarrow> route_mailbox e s = (ok, s') \<Longrightarrow> peer_inv s'"
  using mailbox_RouteEnvelope_records [of e]
  by (auto simp: peer_inv_def route_mailbox_def split: option.splits prod.splits) (metis snd_conv)+

lemma net_only_inv: "peer_inv s \<Longrightarrow> net_only s s' \<Longrightarrow> peer_inv s'"
  by (auto simp: net_only_def peer_inv_def)

lemma AwaitAcnStatus_keeps:
  "AwaitAcnStatus a s = (r, s') \<Longrightarrow> peerRecords s' = peerRecords s \<and> mailboxServer s' = mailboxServer s \<and> cfg s' = cfg s"
  by (auto simp: AwaitAcnStatus_def status_arrivals_def Let_def split: prod.splits res.splits)

lemma HandleAeaEnvelope_inv:
  assumes "peer_inv s" and "HandleAeaEnvelope C e s = (r, s')"
  shows "peer_inv s'"
proof -
  obtain ok s1 where m: "route_mailbox e s = (ok, s1)" by (cases "route_mailbox e s")
  have i1: "peer_inv s1" using route_mailbox_inv [OF assms(1) m] .
  have "peerRecords s' = peerRecords s1 \<and> mailboxServer s' = mailboxServer s1 \<and> cfg s' = cfg s1"
    using assms(2) m
    by (auto simp: HandleAeaEnvelope_def Let_def dest!: AwaitAcnStatus_keeps
        split: bool.splits option.splits sum.splits prod.splits res.splits if_splits)
  with i1 show ?thesis using peer_inv_cong by blast
qed

lemma HandleAeaEnvelope_error:
  assumes "HandleAeaEnvelope C e s = (Err x, s')"
  shows "\<exists>c m. x = ACNError c (ErrMsg m) \<and> c \<noteq> SUCCESS"
  using assms
  by (auto simp: HandleAeaEnvelope_def Let_def
      split: bool.splits option.splits sum.splits prod.splits res.splits if_splits)

text \<open>The sources of an answer to an address request, in one place.\<close>

lemma HandleAeaAddressRequest_cases:
  assumes "HandleAeaAddressRequest C K a s = (r, s')"
  shows "(s' = s \<and> (r = Err unknown_agent \<or>
      (\<exists>rec. r = Ok (Some rec) \<and>
        (a = myAgentAddress (cfg s) \<and> myAgentRecord (cfg s) = Some rec
         \<or> peerRecords s a = Some rec
         \<or> (\<exists>mb. mailboxServer s = Some mb \<and> agentRecords mb a = Some rec)))))
    \<or> (s' = snd (lookupAddressDHT C K a s) \<and>
        (r = (case fst (lookupAddressDHT C K a s) of Ok (_, rec) \<Rightarrow> (case rec of None \<Rightarrow> Err unknown_agent | Some q \<Rightarrow> Ok (Some q))
              | Err _ \<Rightarrow> Err unknown_agent | Panic \<Rightarrow> Panic | Block \<Rightarrow> Block)))"
  using assms
  by (auto simp: HandleAeaAddressRequest_def mailbox_GetAgentRecord_def Let_def
      split: if_splits option.splits sum.splits res.splits prod.splits)

interpretation peer: dht_handler "peer_handler C K" peer_inv
proof unfold_locales
  fix s :: "'a DHTPeer" and e r s'
  assume "peer_inv s" "handle_envelope (peer_handler C K) e s = (r, s')"
  then show "peer_inv s'" by (simp add: peer_handler_def HandleAeaEnvelope_inv)
next
  fix s :: "'a DHTPeer" and e x s'
  assume "handle_envelope (peer_handler C K) e s = (Err x, s')"
  then show "\<exists>c m. x = ACNError c (ErrMsg m) \<and> c \<noteq> SUCCESS"
    using HandleAeaEnvelope_error by (auto simp: peer_handler_def)
next
  fix s :: "'a DHTPeer" and a q s'
  assume "peer_inv s" "handle_address (peer_handler C K) a s = (q, s')"
  then show "peer_inv s'"
    using HandleAeaAddressRequest_cases [of C K a s q s'] net_only_inv
      lookupAddressDHT_net [of C K a s, OF surjective_pairing]
    by (auto simp: peer_handler_def)
next
  fix s :: "'a DHTPeer" and a x s'
  assume "handle_address (peer_handler C K) a s = (Err x, s')"
  then show "\<exists>c m. x = ACNError c (ErrMsg m) \<and> c \<noteq> SUCCESS"
    using HandleAeaAddressRequest_cases [of C K a s "Err x" s']
    by (auto simp: peer_handler_def unknown_agent_def split: res.splits option.splits prod.splits)
next
  fix s :: "'a DHTPeer" and a rr s'
  assume inv: "peer_inv s" and "handle_address (peer_handler C K) a s = (Ok rr, s')"
  then consider rec where "rr = Some rec" "Address rec = a"
    | p rec where "lookupAddressDHT C K a s = (Ok (p, Some rec), s')" "rr = Some rec"
    using HandleAeaAddressRequest_cases [of C K a s "Ok rr" s']
    by (cases "lookupAddressDHT C K a s")
      (auto simp: peer_handler_def peer_inv_def split: res.splits option.splits prod.splits)
  then show "\<exists>rec. rr = Some rec \<and> Address rec = a"
    by cases (auto dest!: lookupAddressDHT_Ok simp: lookup_sound_def valid_proof_def)
qed

section \<open>Registration\<close>

lemma PoR_accepted:
  assumes "IsValidProofOfRepresentation K (Some r) a k = Ok (st, e)" and "\<not> (e \<noteq> None \<or> Code st \<noteq> SUCCESS)"
  shows "valid_proof K r a k"
  using assms PoR_success_iff [of K r a k] by auto

lemma RegisterAgentAddress_keeps:
  assumes "RegisterAgentAddress K addr s = (r, s')"
  shows "peerRecords s' = peerRecords s \<and> dhtAddresses s' = dhtAddresses s \<and> tcpAddresses s' = tcpAddresses s
    \<and> acnStatuses s' = acnStatuses s \<and> storage s' = storage s \<and> conns s' = conns s \<and> cfg s' = cfg s
    \<and> mailboxServer s' = mailboxServer s \<and> syncMessages s' = syncMessages s \<and> slow_queue s' = slow_queue s
    \<and> isClosing s' = isClosing s"
proof -
  have "s' = s\<lparr>addressAnnouncedMap := insert addr (addressAnnouncedMap s), net := net s'\<rparr>"
    using RegisterAgentAddress_frame [of K addr s] assms by simp
  then show ?thesis by (metis DHTPeer.select_convs DHTPeer.surjective DHTPeer.update_convs(3,17))
qed

lemma register_read_remote:
  assumes "ReadAgentRegistrationMessage C StreamPipe (st :: stream) = (Ok rec, st1)"
  shows "remote_key K st1 = remote_key K st" and "remotePeer st1 = remotePeer st"
proof -
  have "conn.more st1 = conn.more st"
    using assms by (auto simp: ReadAgentRegistrationMessage_def then_do_def ignoring_def dest!: stream_Read_more
        split: prod.splits res.splits sum.splits option.splits Performative.splits)
  from same_remote [OF this] show "remote_key K st1 = remote_key K st" "remotePeer st1 = remotePeer st"
    by (simp_all add: remote_key_def)
qed

text \<open>A relay client enters the maps and the store only under a valid proof for what \<open>remote_key\<close> gives.\<close>

lemma register_stream_sound:
  assumes "handleAeaRegisterStream C K st s = (r, st', s')" and "s' \<noteq> s"
  shows "\<exists>rec st1. ReadAgentRegistrationMessage C StreamPipe st = (Ok (Some rec), st1)
    \<and> valid_proof K rec (Address rec) (remote_key K st)
    \<and> peerRecords s' = (peerRecords s)(Address rec \<mapsto> rec)
    \<and> dhtAddresses s' = (dhtAddresses s)(Address rec \<mapsto> peer_String K (remotePeer st))
    \<and> storage s' = snd (saveAgentRecordToPersistentStorage C rec (storage s))"
proof -
  obtain rec st1 where rd: "ReadAgentRegistrationMessage C StreamPipe st = (Ok (Some rec), st1)"
    using assms by (auto simp: handleAeaRegisterStream_def split: prod.splits res.splits option.splits)
  obtain status err where v: "IsValidProofOfRepresentation K (Some rec) (Address rec) (remote_key K st1) = Ok (status, err)"
    using assms rd by (auto simp: handleAeaRegisterStream_def Let_def split: res.splits)
  have ok: "\<not> (err \<noteq> None \<or> Code status \<noteq> SUCCESS)"
  proof
    assume "err \<noteq> None \<or> Code status \<noteq> SUCCESS"
    then show False using assms rd v by (auto simp: handleAeaRegisterStream_def Let_def split: option.splits prod.splits)
  qed
  obtain st2 where snt: "SendAcnSuccess C StreamPipe st1 = (Ok (), st2)"
    using assms rd v ok by (auto simp: handleAeaRegisterStream_def Let_def split: prod.splits res.splits)
  have "conn.more st2 = conn.more st1"
    using snt by (auto simp: SendAcnSuccess_def dest: stream_Write_more split: sum.splits)
  from same_remote(2) [OF this] have peer: "remotePeer st2 = remotePeer st" using register_read_remote(2) [OF rd] by simp
  have "peerRecords s' = (peerRecords s)(Address rec \<mapsto> rec)
      \<and> dhtAddresses s' = (dhtAddresses s)(Address rec \<mapsto> peer_String K (remotePeer st))
      \<and> storage s' = snd (saveAgentRecordToPersistentStorage C rec (storage s))"
    using assms(1) rd v ok snt peer
    by (auto simp: handleAeaRegisterStream_def section_defs relayClientsAll_Inc_def stream_Close_def Let_def
        dest!: RegisterAgentAddress_keeps split: if_splits prod.splits res.splits)
  with rd PoR_accepted [OF v ok] register_read_remote(1) [OF rd, of K] show ?thesis by auto
qed

lemma register_stream_complete:
  assumes "codec_ok C" and "carries C (Register (Some rec)) b" and "concat (rx st) = frame b @ rest"
    and "wcap st = None" and "success_message C ok" and "valid_proof K rec (Address rec) (remote_key K st)"
  shows "\<exists>st' s'. handleAeaRegisterStream C K st s = (Ok (), st', s') \<and> tx st' = tx st @ frame ok
    \<and> streamClosed st' \<and> peerRecords s' = (peerRecords s)(Address rec \<mapsto> rec)
    \<and> dhtAddresses s' = (dhtAddresses s)(Address rec \<mapsto> peer_String K (remotePeer st))"
proof -
  note b = carries_laws [OF assms(1,2)] and k = carries_laws [OF assms(1) assms(5) [unfolded success_message_def]]
  obtain pieces where "pipe_Read StreamPipe st = (Ok b, st\<lparr>rx := pieces\<rparr>)"
    using stream_Read_frame [OF assms(3) b(4)] by blast
  then have rd: "ReadAgentRegistrationMessage C StreamPipe st = (Ok (Some rec), st\<lparr>rx := pieces\<rparr>)"
    using b(2) by (simp add: ReadAgentRegistrationMessage_def)
  have v: "IsValidProofOfRepresentation K (Some rec) (Address rec) (remote_key K (st\<lparr>rx := pieces\<rparr>))
      = Ok (\<lparr>Code = SUCCESS, Msgs = []\<rparr>, None)"
    using PoR_valid [OF assms(6)] by (simp add: remote_key_def)
  have snt: "SendAcnSuccess C StreamPipe (st\<lparr>rx := pieces\<rparr>) = (Ok (), st\<lparr>rx := pieces, tx := tx st @ frame ok\<rparr>)"
    using stream_Write_open [of "st\<lparr>rx := pieces\<rparr>" ok] assms(4) k by (simp add: SendAcnSuccess_def)
  have reg: "RegisterAgentAddress K a t \<noteq> (Panic, t')" "RegisterAgentAddress K a t \<noteq> (Block, t')"
    for a and t t' :: "'a DHTPeer"
    by (auto simp: RegisterAgentAddress_def Let_def split: sum.splits option.splits prod.splits)
  show ?thesis
    using rd v snt reg
    by (auto simp: handleAeaRegisterStream_def section_defs relayClientsAll_Inc_def stream_Close_def Let_def
        dest!: RegisterAgentAddress_keeps split: prod.splits res.splits)
qed

lemma remote_key_cases:
  "valid_proof K rec a (remote_key K st) \<longleftrightarrow>
    (case FetchAIPublicKeyFromPubKey K (remotePublicKey st) of Inr key \<Rightarrow> valid_proof K rec a key | Inl _ \<Rightarrow> valid_proof K rec a [])"
  by (simp add: remote_key_def split: sum.split)

text \<open>A delegate client enters the maps only under a valid proof for this peer's own key (for the empty string when that
  key cannot be converted, whose error is ignored too).\<close>

definition own_key :: "crypto \<Rightarrow> 'g DHTPeer \<Rightarrow> string" where
  "own_key K s = (case FetchAIPublicKeyFromPubKey K (peer_publicKey (cfg s)) of Inl _ \<Rightarrow> [] | Inr k \<Rightarrow> k)"

lemma delegate_register_sound:
  assumes "delegate_register C K cid s = (r, s')"
    and "peerRecords s' \<noteq> peerRecords s \<or> tcpAddresses s' \<noteq> tcpAddresses s \<or> acnStatuses s' \<noteq> acnStatuses s
      \<or> r = Ok (Some addr)"
  shows "\<exists>rec c. ReadAgentRegistrationMessage C ConnPipe (conns s cid) = (Ok (Some rec), c)
    \<and> valid_proof K rec (Address rec) (own_key K s)
    \<and> peerRecords s' = (peerRecords s)(Address rec \<mapsto> rec)
    \<and> tcpAddresses s' = (tcpAddresses s)(Address rec \<mapsto> cid)
    \<and> acnStatuses s' = (acnStatuses s)(Address rec \<mapsto> make_chan AcnStatusesQueueSize)
    \<and> (\<forall>a. r = Ok (Some a) \<longrightarrow> a = Address rec)"
proof -
  obtain rec c where rd: "ReadAgentRegistrationMessage C ConnPipe (conns s cid) = (Ok (Some rec), c)"
    using assms by (auto simp: delegate_register_def set_conn_def delegateClients_add_def split: prod.splits res.splits option.splits)
  obtain status err where v: "IsValidProofOfRepresentation K (Some rec) (Address rec) (own_key K s) = Ok (status, err)"
    using assms rd by (auto simp: delegate_register_def CheckPOR_def own_key_def set_conn_def Let_def split: res.splits)
  have ok: "\<not> (err \<noteq> None \<or> Code status \<noteq> SUCCESS)"
  proof
    assume "err \<noteq> None \<or> Code status \<noteq> SUCCESS"
    then show False
      using assms rd v
      by (auto simp: delegate_register_def CheckPOR_def own_key_def set_conn_def delegateClients_add_def ignoring_def
          Let_def split: option.splits prod.splits res.splits)
  qed
  obtain c1 where snt: "SendAcnSuccess C ConnPipe c = (Ok (), c1)"
    using assms rd v ok
    by (auto simp: delegate_register_def CheckPOR_def own_key_def set_conn_def delegateClients_add_def Let_def
        split: prod.splits res.splits)
  have "peerRecords s' = (peerRecords s)(Address rec \<mapsto> rec) \<and> tcpAddresses s' = (tcpAddresses s)(Address rec \<mapsto> cid)
      \<and> acnStatuses s' = (acnStatuses s)(Address rec \<mapsto> make_chan AcnStatusesQueueSize) \<and> (\<forall>a. r = Ok (Some a) \<longrightarrow> a = Address rec)"
    using assms(1) rd v ok snt
    by (auto simp: delegate_register_def CheckPOR_def own_key_def set_conn_def delegateClients_add_def
        delegateClientsAll_Inc_def section_defs Let_def dest!: RegisterAgentAddress_keeps split: if_splits prod.splits res.splits)
  with rd PoR_accepted [OF v ok] show ?thesis by blast
qed

section \<open>Envelopes of a delegate client\<close>

lemma conn_Read_whole:
  assumes "rx c = frame d # segs" and "d \<noteq> []" and "length d \<le> maxMessageSizeDelegateConnection"
  shows "pipe_Read ConnPipe c = (Ok d, c\<lparr>rx := segs\<rparr>)"
proof -
  have "length d \<le> MaxInt32" using assms(3) max_message_le by simp
  from frame_size [OF this] show ?thesis
    using assms(3) by (simp add: ConnPipe_def ReadBytesConn_def conn_read_whole [OF assms(1,2)])
qed

lemma conn_Write_open:
  "\<lbrakk>wcap c = None; d \<noteq> []; length d \<le> MaxInt32\<rbrakk> \<Longrightarrow>
    pipe_Write ConnPipe c d = (Ok (), c\<lparr>tx := tx c @ frame d\<rparr>)"
  by (simp add: ConnPipe_def WriteBytesConn_def conn_write_def frame_def)

lemma handle_envelope_conn:
  assumes "codec_ok C" and "envelope_message C e b" and "success_message C ok"
    and "rx c = frame b # segs" and "wcap c = None"
  shows "HandleAcnMessageFromPipe C ConnPipe add cid c q
    = (Ok (Some e), c\<lparr>rx := segs, tx := tx c @ frame ok\<rparr>, q)"
proof -
  obtain pl where pl: "carries C (AeaEnvelope pl) b" "env_Unmarshal C (ape_Envelope pl) = Inr e"
    using assms(2) by (auto simp: envelope_message_def)
  note b = carries_laws [OF assms(1) pl(1)] and k = carries_laws [OF assms(1) assms(3) [unfolded success_message_def]]
  have "pipe_Read ConnPipe c = (Ok b, c\<lparr>rx := segs\<rparr>)" using conn_Read_whole [OF assms(4) b(3,4)] .
  moreover have "pipe_Write ConnPipe (c\<lparr>rx := segs\<rparr>) ok = (Ok (), c\<lparr>rx := segs, tx := tx c @ frame ok\<rparr>)"
    using conn_Write_open [of "c\<lparr>rx := segs\<rparr>" ok] assms(5) k by simp
  ultimately show ?thesis
    using b(2) pl(2) k(1)
    by (simp add: HandleAcnMessageFromPipe_def DecodeAcnMessage_def SendAcnSuccess_def keep_queue_def)
qed

text \<open>The queue of a pair after a send: one more while there is room, the same when it is full.\<close>

definition pair_open :: "string \<Rightarrow> 'g DHTPeer \<Rightarrow> bool" where
  "pair_open pair s \<longleftrightarrow>
     (case syncMessages s pair of None \<Rightarrow> True | Some ch \<Rightarrow> \<not> chan_closed ch \<and> chan_cap ch = 1000)"

definition pair_push :: "Envelope \<Rightarrow> 'g DHTPeer \<Rightarrow> bool \<times> 'g DHTPeer" where
  "pair_push e s = (case enqueue_pair e s of (r, s') \<Rightarrow> (r = Ok True, s'))"

definition pair_pop :: "string \<Rightarrow> 'g DHTPeer \<Rightarrow> Envelope option \<times> 'g DHTPeer" where
  "pair_pop pair s =
     (case pair_queue pair s of
        [] \<Rightarrow> (None, s)
      | e # es \<Rightarrow>
          (Some e, s\<lparr>syncMessages := (syncMessages s)(pair := map_option (\<lambda>ch. ch\<lparr>chan_buf := es\<rparr>) (syncMessages s pair))\<rparr>))"

interpretation pair: bounded_queue pair_push "pair_pop p" "pair_queue p" "\<lambda>_. 1000" "pair_open p"
  "\<lambda>e. pair_key e = p"
  by unfold_locales
    (auto simp: pair_push_def pair_pop_def pair_queue_def pair_open_def enqueue_pair_def section_defs chan_try_send_def
      chan_send_def make_chan_def Let_def split: option.splits list.splits)

lemma enqueue_pair_frame:
  "snd (enqueue_pair e s) = s\<lparr>syncMessages := syncMessages (snd (enqueue_pair e s))\<rparr>"
  by (auto simp: enqueue_pair_def section_defs Let_def split: option.splits prod.splits)

lemma enqueue_pair_Ok: "pair_open (pair_key e) s \<Longrightarrow> \<exists>b. fst (enqueue_pair e s) = Ok b"
  by (auto simp: enqueue_pair_def section_defs pair_open_def chan_try_send_def chan_send_def make_chan_def Let_def
      split: option.splits)

lemma delegate_step_envelope:
  assumes "codec_ok C" and "envelope_message C e b" and "success_message C ok"
    and "rx (conns s cid) = frame b # segs" and "wcap (conns s cid) = None"
    and "Sender e = addr" and "pair_open (pair_key e) s"
  shows "delegate_step C addr cid s = (Ok True,
    snd (enqueue_pair e (set_conn cid ((conns s cid)\<lparr>rx := segs, tx := tx (conns s cid) @ frame ok\<rparr>) s)))"
proof -
  let ?s = "set_conn cid ((conns s cid)\<lparr>rx := segs, tx := tx (conns s cid) @ frame ok\<rparr>) s"
  have "pair_open (pair_key e) ?s" using assms(7) by (simp add: pair_open_def set_conn_def)
  then obtain v where "fst (enqueue_pair e ?s) = Ok v" using enqueue_pair_Ok by blast
  then show ?thesis
    using handle_envelope_conn [OF assms(1-5), of AddAcnStatusMessage addr s] assms(6)
    by (cases "enqueue_pair e ?s") (simp add: delegate_step_def Let_def)
qed

lemma bounded_append_Cons:
  assumes "length q \<le> n" and "q' = q @ (if length q < n then [e] else [])"
  shows "q' @ take (n - length q') es = q @ take (n - length q) (e # es)"
  using assms by (auto simp: take_Cons')

text \<open>A client's envelopes for one receiver, arriving one frame at a time: every one is acknowledged,
  and they are queued in order as far as the queue of 1000 goes.\<close>

lemma delegate_loop_pair:
  assumes "codec_ok C" and "success_message C ok" and "list_all2 (envelope_message C) es bs"
    and "rx (conns s cid) = map frame bs" and "rx_end (conns s cid) = None" and "wcap (conns s cid) = None"
    and "\<forall>e \<in> set es. Sender e = addr \<and> pair_key e = p" and "pair_open p s"
    and "length (pair_queue p s) \<le> 1000"
  shows "\<exists>s'. delegate_loop C addr cid s = (Block, s') \<and> pair_open p s'
    \<and> pair_queue p s' = pair_queue p s @ take (1000 - length (pair_queue p s)) es
    \<and> tx (conns s' cid) = tx (conns s cid) @ concat (map (\<lambda>_. frame ok) es)"
  using assms(3-)
proof (induction es bs arbitrary: s rule: list_all2_induct)
  case Nil
  then show ?case
    by (simp add: delegate_loop.simps delegate_step_def HandleAcnMessageFromPipe_def ConnPipe_def
        ReadBytesConn_def conn_read_def set_conn_def)
next
  case (Cons e es b bs)
  let ?c = "(conns s cid)\<lparr>rx := map frame bs, tx := tx (conns s cid) @ frame ok\<rparr>"
  let ?s = "set_conn cid ?c s"
  let ?s' = "snd (enqueue_pair e ?s)"
  have step: "delegate_step C addr cid s = (Ok True, ?s')"
    using Cons.prems Cons.hyps(1) assms(1,2) by (intro delegate_step_envelope) auto
  have c': "conns ?s' = conns ?s" by (subst enqueue_pair_frame) simp
  have q: "pair_queue p ?s = pair_queue p s" "pair_open p ?s"
    using Cons.prems(5) by (simp_all add: pair_queue_def pair_open_def set_conn_def)
  have law: "pair_open p ?s' \<and> pair_queue p ?s' = pair_queue p s @ (if length (pair_queue p s) < 1000 then [e] else [])"
    using pair.push_law [of p ?s e] q Cons.prems(4) by (auto simp: pair_push_def split: prod.splits if_splits)
  have len: "length (pair_queue p ?s') \<le> 1000" using law Cons.prems(6) by auto
  have "\<exists>s'. delegate_loop C addr cid ?s' = (Block, s') \<and> pair_open p s'
    \<and> pair_queue p s' = pair_queue p ?s' @ take (1000 - length (pair_queue p ?s')) es
    \<and> tx (conns s' cid) = tx (conns ?s' cid) @ concat (map (\<lambda>_. frame ok) es)"
    using Cons.prems c' law len by (intro Cons.IH) (auto simp: set_conn_def)
  then obtain s' where "delegate_loop C addr cid ?s' = (Block, s')" "pair_open p s'"
    "pair_queue p s' = pair_queue p ?s' @ take (1000 - length (pair_queue p ?s')) es"
    "tx (conns s' cid) = tx (conns ?s' cid) @ concat (map (\<lambda>_. frame ok) es)" by blast
  moreover have "pair_queue p ?s' @ take (1000 - length (pair_queue p ?s')) es
      = pair_queue p s @ take (1000 - length (pair_queue p s)) (e # es)"
    using bounded_append_Cons [of "pair_queue p s" 1000] law Cons.prems(6) by blast
  ultimately show ?case
    using step c' by (auto simp: delegate_loop.simps [of C addr cid s] set_conn_def)
qed

section \<open>Properties of serving\<close>

text \<open>An envelope for the own agent, with a valid proof.\<close>

lemma envelope_stream_to_agent:
  assumes "codec_ok C" and "peer_inv s" and "wcap st = None"
    and "carries C (AeaEnvelope \<lparr>ape_Envelope = eb, ape_Record = Some r\<rparr>) b" and "concat (rx st) = frame b @ rest"
    and "env_Unmarshal C eb = Inr e" and "valid_proof K r (Address r) (remote_key K st)"
    and "carries C (Status (Some \<lparr>Code = SUCCESS, Msgs = []\<rparr>)) ok"
    and "mailboxServer s = None" and "tcpAddresses s (To e) = None" and "To e = myAgentAddress (cfg s)"
    and "processEnvelope s = Some f" and "f e (agent s) = (Ok (), g)"
  shows "\<exists>st'. handleAeaEnvelopeStream C K st s = (Ok (), st', s\<lparr>agent := g\<rparr>) \<and> tx st' = tx st @ frame ok
    \<and> streamClosed st'"
proof -
  have "HandleAeaEnvelope C e s = (Ok (), s\<lparr>agent := g\<rparr>)"
    using assms(9-13) by (simp add: HandleAeaEnvelope_def route_mailbox_def)
  then show ?thesis
    unfolding handleAeaEnvelopeStream_def
    by (intro peer.envelope_stream_answer [OF assms(1-7) _ assms(8)]) (simp add: peer_handler_def)
qed

text \<open>C9: Whatever arrives on an envelope stream, the peer's state changes only for an envelope that came with a
  record whose proof of representation is valid for the key of the remote peer, with one exception: the error of
  converting that key is ignored, and when the conversion fails the proof is checked against the empty key.\<close>

theorem peer_envelope_needs_proof:
  assumes "handleAeaEnvelopeStream C K st s = (r, st', s')" and "s' \<noteq> s"
  shows "\<exists>b pl rec e st1. pipe_Read StreamPipe st = (Ok b, st1) \<and> acn_Unmarshal C b = Inr (Some (AeaEnvelope pl))
    \<and> env_Unmarshal C (ape_Envelope pl) = Inr e \<and> ape_Record pl = Some rec
    \<and> (case FetchAIPublicKeyFromPubKey K (remotePublicKey st) of
          Inr key \<Rightarrow> valid_proof K rec (Address rec) key
        | Inl _ \<Rightarrow> valid_proof K rec (Address rec) [])
    \<and> s' = snd (HandleAeaEnvelope C e s)"
proof -
  obtain b pl rec e st1 where x: "pipe_Read StreamPipe st = (Ok b, st1)" "acn_Unmarshal C b = Inr (Some (AeaEnvelope pl))"
      "env_Unmarshal C (ape_Envelope pl) = Inr e" "ape_Record pl = Some rec" "valid_proof K rec (Address rec) (remote_key K st1)"
      "s' = snd (HandleAeaEnvelope C e s)"
    using peer.envelope_stream_proven [OF assms(1) [unfolded handleAeaEnvelopeStream_def] assms(2)]
    by (auto simp: proven_by_def peer_handler_def)
  have "remotePublicKey st1 = remotePublicKey st" by (rule same_remote(1) [OF stream_Read_more [OF x(1)]])
  with x show ?thesis unfolding remote_key_cases by metis
qed

definition ex_serve_codec :: codec where
  "ex_serve_codec =
     table_codec
       [(AeaEnvelope \<lparr>ape_Envelope = [5], ape_Record = Some (ex_record 66 2)\<rparr>, [3]),
        (Status (Some \<lparr>Code = SUCCESS, Msgs = []\<rparr>), [4]), (Register (Some (ex_record 66 2)), [6]),
        (LookupRequest ''cosmosA'', [1]), (LookupResponse (Some (ex_record 65 7)), [2])]
       [(ex_env ''cosmosA'' ''nobody'', [5])] []"

lemma ex_serve_codec_ok: "codec_ok ex_serve_codec"
  unfolding ex_serve_codec_def by (intro codec_ok_table) simp_all

lemma ex_serve_messages:
  "carries ex_serve_codec (AeaEnvelope \<lparr>ape_Envelope = [5], ape_Record = Some (ex_record 66 2)\<rparr>) [3]"
  "carries ex_serve_codec (Status (Some \<lparr>Code = SUCCESS, Msgs = []\<rparr>)) [4]"
  "carries ex_serve_codec (Register (Some (ex_record 66 2))) [6]"
  "carries ex_serve_codec (LookupRequest ''cosmosA'') [1]"
  "carries ex_serve_codec (LookupResponse (Some (ex_record 65 7))) [2]"
  "env_Unmarshal ex_serve_codec [5] = Inr (ex_env ''cosmosA'' ''nobody'')"
  by (simp_all add: carries_def ex_serve_codec_def table_codec_def maxMessageSizeDelegateConnection_def)

lemma ex_peer_inv: "peer_inv (ex_peer_state w)"
  by (simp add: peer_inv_def)

lemma ex_proof_2: "valid_proof ex_crypto (ex_record 66 2) (Address (ex_record 66 2)) (remote_key ex_crypto (ex_stream ps 2))"
  using ex_valid [of 66 2] by simp

text \<open>C25: An envelope for the peer's own agent, sent with a valid proof, is handed to the agent and acknowledged with
  one success frame, after which the stream is closed. Nothing ties the envelope's sender to the record that
  came with it: the claim holds for every \<open>Sender\<close>.\<close>

theorem peer_delivers_to_agent:
  assumes "codec_ok C" and "peer_inv s" and "wcap st = None"
    and "carries C (AeaEnvelope \<lparr>ape_Envelope = eb, ape_Record = Some r\<rparr>) b" and "concat (rx st) = frame b @ rest"
    and "env_Unmarshal C eb = Inr e" and "valid_proof K r (Address r) (remote_key K st)"
    and "carries C (Status (Some \<lparr>Code = SUCCESS, Msgs = []\<rparr>)) ok"
    and "mailboxServer s = None" and "tcpAddresses s (To e) = None" and "To e = myAgentAddress (cfg s)"
    and "processEnvelope s = Some f" and "f e (agent s) = (Ok (), g)"
  shows "\<exists>st'. handleAeaEnvelopeStream C K st s = (Ok (), st', s\<lparr>agent := g\<rparr>) \<and> tx st' = tx st @ frame ok
    \<and> streamClosed st'"
  using envelope_stream_to_agent [OF assms] .

lemma peer_delivers_to_agent_witness:
  "\<exists>st' s'. handleAeaEnvelopeStream ex_serve_codec ex_crypto (ex_stream [frame [3]] 2) (ex_peer_state (ex_net [] [])) = (Ok (), st', s')
    \<and> agent s' = [ex_env ''cosmosA'' ''nobody''] \<and> tx st' = frame [4]"
  using peer_delivers_to_agent [of ex_serve_codec "ex_peer_state (ex_net [] [])" "ex_stream [frame [3]] 2" "[5]" "ex_record 66 2" "[3]"
      "[]" "ex_env ''cosmosA'' ''nobody''" ex_crypto "[4]" "\<lambda>e g. (Ok (), g @ [e])" "[ex_env ''cosmosA'' ''nobody'']"]
    ex_serve_codec_ok ex_serve_messages ex_peer_inv ex_proof_2 by auto

lemma peer_envelope_needs_proof_witness:
  "\<exists>b pl rec e st1. pipe_Read StreamPipe (ex_stream [frame [3]] 2) = (Ok b, st1) \<and> acn_Unmarshal ex_serve_codec b = Inr (Some (AeaEnvelope pl))
    \<and> env_Unmarshal ex_serve_codec (ape_Envelope pl) = Inr e \<and> ape_Record pl = Some rec
    \<and> valid_proof ex_crypto rec (Address rec) (ex_key 2)"
proof -
  let ?s = "ex_peer_state (ex_net [] [])"
  have h: "HandleAeaEnvelope ex_serve_codec (ex_env ''cosmosA'' ''nobody'') ?s = (Ok (), ?s\<lparr>agent := [ex_env ''cosmosA'' ''nobody'']\<rparr>)"
    by (simp add: HandleAeaEnvelope_def route_mailbox_def)
  have "\<exists>st'. handleAeaEnvelopeStream ex_serve_codec ex_crypto (ex_stream [frame [3]] 2) ?s
      = (Ok (), st', ?s\<lparr>agent := [ex_env ''cosmosA'' ''nobody'']\<rparr>) \<and> tx st' = tx (ex_stream [frame [3]] 2) @ frame [4]
      \<and> streamClosed st'"
    unfolding handleAeaEnvelopeStream_def
    by (rule peer.envelope_stream_answer [OF ex_serve_codec_ok ex_peer_inv _ ex_serve_messages(1) _
          ex_serve_messages(6) ex_proof_2 _ ex_serve_messages(2), where rest = "[]"])
      (simp_all add: peer_handler_def h)
  then obtain st' where "handleAeaEnvelopeStream ex_serve_codec ex_crypto (ex_stream [frame [3]] 2) ?s
      = (Ok (), st', ?s\<lparr>agent := [ex_env ''cosmosA'' ''nobody'']\<rparr>)" by blast
  moreover have "?s\<lparr>agent := [ex_env ''cosmosA'' ''nobody'']\<rparr> \<noteq> ?s"
  proof
    assume "?s\<lparr>agent := [ex_env ''cosmosA'' ''nobody'']\<rparr> = ?s"
    then have "agent (?s\<lparr>agent := [ex_env ''cosmosA'' ''nobody'']\<rparr>) = agent ?s" by (rule arg_cong)
    then show False by simp
  qed
  ultimately have "\<exists>b pl rec e st1. pipe_Read StreamPipe (ex_stream [frame [3]] 2) = (Ok b, st1)
      \<and> acn_Unmarshal ex_serve_codec b = Inr (Some (AeaEnvelope pl))
      \<and> env_Unmarshal ex_serve_codec (ape_Envelope pl) = Inr e \<and> ape_Record pl = Some rec
      \<and> (case FetchAIPublicKeyFromPubKey ex_crypto (remotePublicKey (ex_stream [frame [3]] 2)) of
          Inr key \<Rightarrow> valid_proof ex_crypto rec (Address rec) key | Inl _ \<Rightarrow> valid_proof ex_crypto rec (Address rec) [])"
    using peer_envelope_needs_proof by blast
  then show ?thesis using ex_pubkey [of 2] by (simp add: ex_stream_def)
qed

text \<open>C10: A relay client enters the peer's maps and its store only with a record whose proof of representation is
  valid for the key of the peer that registers it; every other registration leaves the state as it was. The one
  exception is in the statement: the error of converting that key is ignored, and when the conversion
  fails the proof is checked against the empty key.\<close>

theorem relay_registration_sound:
  assumes "handleAeaRegisterStream C K st s = (r, st', s')" and "s' \<noteq> s"
  shows "\<exists>rec st1. ReadAgentRegistrationMessage C StreamPipe st = (Ok (Some rec), st1)
    \<and> (case FetchAIPublicKeyFromPubKey K (remotePublicKey st) of
          Inr key \<Rightarrow> valid_proof K rec (Address rec) key
        | Inl _ \<Rightarrow> valid_proof K rec (Address rec) [])
    \<and> peerRecords s' = (peerRecords s)(Address rec \<mapsto> rec)
    \<and> dhtAddresses s' = (dhtAddresses s)(Address rec \<mapsto> peer_String K (remotePeer st))
    \<and> storage s' = snd (saveAgentRecordToPersistentStorage C rec (storage s))"
  using register_stream_sound [OF assms] unfolding remote_key_cases by blast

lemma relay_registration_sound_witness:
  "\<exists>rec st1. ReadAgentRegistrationMessage ex_serve_codec StreamPipe (ex_stream [frame [6]] 2) = (Ok (Some rec), st1)
    \<and> valid_proof ex_crypto rec (Address rec) (ex_key 2)"
proof -
  let ?s = "ex_peer_state (ex_net [] [])"
  obtain st' s' where r: "handleAeaRegisterStream ex_serve_codec ex_crypto (ex_stream [frame [6]] 2) ?s = (Ok (), st', s')"
      "peerRecords s' = (peerRecords ?s)(Address (ex_record 66 2) \<mapsto> ex_record 66 2)"
    using register_stream_complete [OF ex_serve_codec_ok ex_serve_messages(3) _ _ _ ex_proof_2,
        of "[frame [6]]" "[]" "[4]" ?s] ex_serve_messages(2)
    by (auto simp: success_message_def)
  have "peerRecords s' ''cosmosB'' \<noteq> peerRecords ?s ''cosmosB''" using r(2) by simp
  then have "s' \<noteq> ?s" by blast
  from relay_registration_sound [OF r(1) this] show ?thesis using ex_pubkey [of 2] by (auto simp: ex_stream_def)
qed

text \<open>C24: Whatever the registration of a delegate client answers, also when the announcement behind it fails, the peer's
  maps have changed only with a record whose proof of representation is valid for this peer's own key
  (for the empty string when that key cannot be converted), in exactly the three entries of the record's
  address; a connection that goes on does so under that address.\<close>

theorem delegate_registration_sound:
  assumes "delegate_register C K cid s = (r, s')"
    and "peerRecords s' \<noteq> peerRecords s \<or> tcpAddresses s' \<noteq> tcpAddresses s \<or> acnStatuses s' \<noteq> acnStatuses s
      \<or> (\<exists>addr. r = Ok (Some addr))"
  shows "\<exists>rec c. ReadAgentRegistrationMessage C ConnPipe (conns s cid) = (Ok (Some rec), c)
    \<and> valid_proof K rec (Address rec) (own_key K s)
    \<and> peerRecords s' = (peerRecords s)(Address rec \<mapsto> rec) \<and> tcpAddresses s' = (tcpAddresses s)(Address rec \<mapsto> cid)
    \<and> acnStatuses s' = (acnStatuses s)(Address rec \<mapsto> make_chan 1000)
    \<and> (\<forall>addr. r = Ok (Some addr) \<longrightarrow> addr = Address rec)"
  using delegate_register_sound [OF assms(1)] assms(2) unfolding AcnStatusesQueueSize_def by blast

definition ex_delegate_codec :: codec where
  "ex_delegate_codec = table_codec [(Register (Some (ex_record 66 7)), [6]), (Status (Some \<lparr>Code = SUCCESS, Msgs = []\<rparr>), [4])] [] []"

definition ex_delegate_state :: "Envelope list DHTPeer" where
  "ex_delegate_state = (ex_peer_state (ex_net [] []))\<lparr>conns := (\<lambda>_. \<lparr>rx = [frame [6]], rx_end = Some EOF, tx = [], wcap = None\<rparr>)\<rparr>"

lemma ex_delegate_registers: "\<exists>s'. delegate_register ex_delegate_codec ex_crypto 1 ex_delegate_state = (Ok (Some ''cosmosB''), s')"
proof -
  have ok: "codec_ok ex_delegate_codec" unfolding ex_delegate_codec_def by (intro codec_ok_table) simp_all
  have m: "carries ex_delegate_codec (Register (Some (ex_record 66 7))) [6]"
    "carries ex_delegate_codec (Status (Some \<lparr>Code = SUCCESS, Msgs = []\<rparr>)) [4]"
    by (simp_all add: carries_def ex_delegate_codec_def table_codec_def maxMessageSizeDelegateConnection_def)
  note r = carries_laws [OF ok m(1)] and k = carries_laws [OF ok m(2)]
  let ?c = "\<lparr>rx = [frame [6]], rx_end = Some EOF, tx = [], wcap = None\<rparr> :: conn"
  have "ReadAgentRegistrationMessage ex_delegate_codec ConnPipe ?c = (Ok (Some (ex_record 66 7)), ?c\<lparr>rx := []\<rparr>)"
    using conn_Read_whole [of ?c "[6]" "[]"] r by (simp add: ReadAgentRegistrationMessage_def)
  moreover have "SendAcnSuccess ex_delegate_codec ConnPipe (?c\<lparr>rx := []\<rparr>) = (Ok (), ?c\<lparr>rx := [], tx := frame [4]\<rparr>)"
    using conn_Write_open [of "?c\<lparr>rx := []\<rparr>" "[4]"] k by (simp add: SendAcnSuccess_def)
  moreover have "CheckPOR ex_crypto (Some (ex_record 66 7)) ex_delegate_state = Ok (\<lparr>Code = SUCCESS, Msgs = []\<rparr>, None)"
    using PoR_valid [OF ex_valid [of 66 7]] ex_pubkey [of 7] by (simp add: CheckPOR_def ex_delegate_state_def)
  ultimately show ?thesis
    by (simp add: delegate_register_def section_defs ex_delegate_state_def set_conn_def IsAddressAnnouncementEnabled_def ex_peer_state_def Let_def)
qed

lemma delegate_registration_sound_witness:
  "\<exists>rec c s'. ReadAgentRegistrationMessage ex_delegate_codec ConnPipe (conns ex_delegate_state 1) = (Ok (Some rec), c)
    \<and> delegate_register ex_delegate_codec ex_crypto 1 ex_delegate_state = (Ok (Some (Address rec)), s')
    \<and> valid_proof ex_crypto rec (Address rec) (own_key ex_crypto ex_delegate_state) \<and> tcpAddresses s' = [Address rec \<mapsto> 1]"
proof -
  obtain s' where r: "delegate_register ex_delegate_codec ex_crypto 1 ex_delegate_state = (Ok (Some ''cosmosB''), s')"
    using ex_delegate_registers by blast
  have "tcpAddresses ex_delegate_state = Map.empty" by (simp add: ex_delegate_state_def)
  with delegate_registration_sound [OF r] r show ?thesis by auto
qed

text \<open>C20: The envelopes that a delegate client sends to one receiver, one frame at a time, are queued for that pair in
  the order in which they came, as far as the queue of 1000 goes; every one of them is acknowledged with
  success, also those that found the queue full and were discarded.\<close>

theorem delegate_pair_order:
  assumes "codec_ok C" and "carries C (Status (Some \<lparr>Code = SUCCESS, Msgs = []\<rparr>)) ok"
    and "list_all2 (envelope_message C) es bs"
    and "rx (conns s cid) = map frame bs" and "rx_end (conns s cid) = None" and "wcap (conns s cid) = None"
    and "\<forall>e \<in> set es. Sender e = addr \<and> To e = target" and "syncMessages s (target @ addr) = None"
  shows "\<exists>s'. delegate_loop C addr cid s = (Block, s')
    \<and> map_option chan_buf (syncMessages s' (target @ addr)) = (if es = [] then None else Some (take 1000 es))
    \<and> tx (conns s' cid) = tx (conns s cid) @ concat (map (\<lambda>_. frame ok) es)"
proof -
  have q: "pair_queue (target @ addr) s = []" "pair_open (target @ addr) s"
    using assms(8) by (simp_all add: pair_queue_def pair_open_def)
  have keys: "\<forall>e \<in> set es. Sender e = addr \<and> pair_key e = target @ addr" using assms(7) by (simp add: pair_key_def)
  have ok: "success_message C ok" using assms(2) by (simp add: success_message_def)
  obtain s' where s': "delegate_loop C addr cid s = (Block, s')" "pair_queue (target @ addr) s' = take 1000 es"
      "tx (conns s' cid) = tx (conns s cid) @ concat (map (\<lambda>_. frame ok) es)"
    using delegate_loop_pair [OF assms(1) ok assms(3-6) keys q(2)] q(1) by auto
  show ?thesis
  proof (cases es)
    case Nil
    then have "bs = []" using assms(3) by simp
    then have "syncMessages s' = syncMessages s"
      using s'(1) assms(4,5)
      by (simp add: delegate_loop.simps delegate_step_def HandleAcnMessageFromPipe_def ConnPipe_def ReadBytesConn_def
          conn_read_def set_conn_def split: prod.splits)
    with Nil s' assms(8) show ?thesis by simp
  next
    case (Cons e r)
    with s'(2) have "\<exists>ch. syncMessages s' (target @ addr) = Some ch \<and> chan_buf ch = take 1000 es"
      by (auto simp: pair_queue_def split: option.splits)
    with Cons s' show ?thesis by auto
  qed
qed

definition ex_pair_state :: "Envelope list DHTPeer" where
  "ex_pair_state = (ex_peer_state (ex_net [] []))\<lparr>conns := (\<lambda>_. \<lparr>rx = [frame [1]], rx_end = None, tx = [], wcap = None\<rparr>)\<rparr>"

lemma delegate_pair_order_witness:
  "\<exists>s'. delegate_loop ex_agent_codec ''a'' 1 ex_pair_state = (Block, s')
    \<and> map_option chan_buf (syncMessages s' (''b'' @ ''a'')) = Some [ex_env ''b'' ''a''] \<and> tx (conns s' 1) = frame [3]"
proof -
  have m: "list_all2 (envelope_message ex_agent_codec) [ex_env ''b'' ''a''] [[1]]"
    using ex_agent_messages(2) by simp
  have k: "carries ex_agent_codec (Status (Some \<lparr>Code = SUCCESS, Msgs = []\<rparr>)) [3]"
    using ex_agent_messages(1) by (simp add: success_message_def)
  show ?thesis
    using delegate_pair_order [OF ex_agent_codec_ok k m, of ex_pair_state 1 "''a''" "''b''"]
    by (simp add: ex_pair_state_def ex_peer_state_def)
qed

text \<open>C39: The clean-up of a delegate connection goes by address, not by connection: when an agent has connected again
  before its old connection is found dead, the old goroutine removes the new connection's entries, and
  the agent is unreachable although its new connection is open.\<close>

theorem delegate_reconnect_lost:
  assumes "tcpAddresses s addr = Some cid2" and "cid2 \<noteq> cid" and "rx (conns s cid) = []"
    and "rx_end (conns s cid) = Some e"
  shows "\<exists>s'. delegate_serve C addr cid s = (Ok (), s') \<and> tcpAddresses s' addr = None \<and> acnStatuses s' addr = None
    \<and> conns s' cid2 = conns s cid2"
proof -
  have "delegate_step C addr cid s = (Ok False, delegateClients_add (- 1) (set_conn cid (conns s cid) s))"
    using assms(3,4)
    by (simp add: delegate_step_def HandleAcnMessageFromPipe_def ConnPipe_def ReadBytesConn_def conn_read_def)
  then have "delegate_loop C addr cid s = (Ok (), delegateClients_add (- 1) (set_conn cid (conns s cid) s))"
    by (simp add: delegate_loop.simps)
  with assms(2) show ?thesis
    by (simp add: delegate_serve_def section_defs delegateClients_add_def set_conn_def Let_def)
qed

lemma delegate_reconnect_lost_witness:
  "\<exists>s'. delegate_serve ex_agent_codec ''cosmosB'' 1 ((ex_peer_state (ex_net [] []))\<lparr>tcpAddresses := [''cosmosB'' \<mapsto> 2],
      conns := (\<lambda>_. \<lparr>rx = [], rx_end = Some EOF, tx = [], wcap = None\<rparr>)\<rparr>) = (Ok (), s')
    \<and> tcpAddresses s' ''cosmosB'' = None"
  using delegate_reconnect_lost [of "(ex_peer_state (ex_net [] []))\<lparr>tcpAddresses := [''cosmosB'' \<mapsto> 2],
      conns := (\<lambda>_. \<lparr>rx = [], rx_end = Some EOF, tx = [], wcap = None\<rparr>)\<rparr>" "''cosmosB''" 2 1 EOF ex_agent_codec]
  by auto

text \<open>C26: An address request that the peer can resolve is answered with one frame, the response with a record of
  exactly the address asked for; the handler does not panic.\<close>

theorem peer_answers_address:
  assumes "codec_ok C" and "peer_inv s" and "wcap st = None" and "carries C (LookupRequest a) b"
    and "concat (rx st) = frame b @ rest" and "HandleAeaAddressRequest C K a s = (Ok r, s')"
    and "\<forall>rec. r = Some rec \<longrightarrow> (\<exists>x. carries C (LookupResponse (Some rec)) x)"
  shows "\<exists>rec x st'. Address rec = a \<and> carries C (LookupResponse (Some rec)) x
    \<and> handleAeaAddressStream C K st s = (Ok (), st', s') \<and> tx st' = tx st @ frame x"
  using peer.address_stream_answer [OF assms(1-5)] assms(6,7) by (simp add: handleAeaAddressStream_def peer_handler_def)

lemma peer_answers_address_witness:
  "\<exists>rec x st'. Address rec = ''cosmosA'' \<and> carries ex_serve_codec (LookupResponse (Some rec)) x
    \<and> handleAeaAddressStream ex_serve_codec ex_crypto (ex_stream [frame [1]] 2) (ex_peer_state (ex_net [] []))
      = (Ok (), st', ex_peer_state (ex_net [] [])) \<and> tx st' = frame x"
proof -
  have "HandleAeaAddressRequest ex_serve_codec ex_crypto ''cosmosA'' (ex_peer_state (ex_net [] []))
      = (Ok (Some (ex_record 65 7)), ex_peer_state (ex_net [] []))"
    by (simp add: HandleAeaAddressRequest_def ex_peer_state_def ex_cfg_def ex_peer)
  from peer_answers_address [OF ex_serve_codec_ok ex_peer_inv _ ex_serve_messages(4) _ this, of "ex_stream [frame [1]] 2" "[]"]
    ex_serve_messages(5)
  show ?thesis by auto
qed

end
