(* ===== verification/Delivery.thy ===== *)
theory Delivery
  imports DhtPeerServe
begin

text \<open>
  The queues of one peer put together: an agent that is connected as a delegate client sends to an agent that
  polls a mailbox of the same peer. The envelopes pass the connection's reading loop, the queue of the pair, the
  goroutine of the pair, \<open>RouteEnvelope\<close>, the mailbox's queue and the \<open>get_envelope\<close> requests.
\<close>

section \<open>What the reading loop leaves alone\<close>

lemma HandleAcnMessage_frame:
  assumes "HandleAcnMessageFromPipe C P AddAcnStatusMessage addr p s = (r, p', s')"
  shows "\<exists>ac. s' = s\<lparr>acnStatuses := ac\<rparr>"
proof -
  have same: "s = s\<lparr>acnStatuses := acnStatuses s\<rparr>" by simp
  have "s' = s \<or> (\<exists>st q. AddAcnStatusMessage st addr s = (q, s'))"
    using assms
    by (auto simp: HandleAcnMessageFromPipe_def keep_queue_def Let_def
        split: prod.splits res.splits option.splits if_splits sum.splits)
  with same show ?thesis by (fastforce simp: AddAcnStatusMessage_def split: prod.splits)
qed

definition serve_frame :: "'g DHTPeer \<Rightarrow> 'g DHTPeer \<Rightarrow> bool" where
  "serve_frame s s' \<longleftrightarrow> cfg s' = cfg s \<and> mailboxServer s' = mailboxServer s \<and> peerRecords s' = peerRecords s
     \<and> tcpAddresses s' = tcpAddresses s \<and> dhtAddresses s' = dhtAddresses s \<and> agent s' = agent s"

lemma delegate_step_frame:
  assumes "delegate_step C addr cid s = (r, s')"
  shows "serve_frame s s'"
proof -
  obtain q c s1 where h: "HandleAcnMessageFromPipe C ConnPipe AddAcnStatusMessage addr (conns s cid) s = (q, c, s1)"
    by (metis prod_cases3)
  obtain ac where s1: "s1 = s\<lparr>acnStatuses := ac\<rparr>" using HandleAcnMessage_frame [OF h] ..
  let ?s = "set_conn cid c s1"
  have "s' = ?s \<or> s' = delegateClients_add (- 1) ?s \<or> (\<exists>e. s' = snd (enqueue_pair e ?s))"
    using assms h
    by (auto simp: delegate_step_def Let_def split: res.splits option.splits if_splits prod.splits) (metis snd_conv)+
  moreover have "serve_frame s (snd (enqueue_pair e ?s))" for e
    by (subst enqueue_pair_frame) (simp add: serve_frame_def s1 set_conn_def)
  ultimately show ?thesis
    by (auto simp: serve_frame_def s1 set_conn_def delegateClients_add_def)
qed

lemma delegate_loop_frame: "delegate_loop C addr cid s = (r, s') \<Longrightarrow> serve_frame s s'"
proof (induction C addr cid s rule: delegate_loop.induct)
  case (1 C addr cid s)
  obtain x t where x: "delegate_step C addr cid s = (x, t)" by (cases "delegate_step C addr cid s")
  note f = delegate_step_frame [OF x]
  show ?case
  proof (cases "x = Ok True")
    case True
    with 1 x f show ?thesis by (auto simp: delegate_loop.simps [of C addr cid s] serve_frame_def)
  next
    case False
    with 1 x have "s' = t" by (auto simp: delegate_loop.simps [of C addr cid s] split: res.splits)
    with f show ?thesis by simp
  qed
qed

section \<open>From the pair's queue to the mailbox\<close>

text \<open>What happens when the receiver has a mailbox here with room in it.\<close>

lemma RouteEnvelope_to_mailbox:
  assumes "getEnvelopeAcnRecord e s = Ok rec" and "mailboxServer s = Some mb" and "mailbox_RouteEnvelope e mb = (True, mb')"
  shows "RouteEnvelope C K e s = (Ok (), (route_begun s)\<lparr>mailboxServer := Some mb'\<rparr>)"
proof -
  have "getEnvelopeAcnRecord e (route_begun s) = Ok rec"
    unfolding assms(1) [symmetric]
    by (simp add: getEnvelopeAcnRecord_def routeCountAll_Inc_def routeCount_add_def Let_def split: option.split)
  moreover have "route_mailbox e (route_begun s) = (True, (route_begun s)\<lparr>mailboxServer := Some mb'\<rparr>)"
    using assms(2,3) by (simp add: route_mailbox_def routeCountAll_Inc_def routeCount_add_def)
  ultimately show ?thesis by (simp add: RouteEnvelope_def Let_def)
qed

text \<open>The envelopes \<open>es\<close> on their way: the first of them in the mailbox, the others in the queue of the pair.\<close>

definition on_the_way :: "codec \<Rightarrow> string \<Rightarrow> address \<Rightarrow> address \<Rightarrow> Envelope list \<Rightarrow> 'g DHTPeer \<Rightarrow> bool" where
  "on_the_way C sid target addr es s \<longleftrightarrow>
     (\<exists>mb. mailboxServer s = Some mb \<and> mb_open C sid target mb \<and> envelopesLimit mb = 1000
        \<and> mb_queue target mb @ pair_queue (target @ addr) s = es)
     \<and> peerRecords s addr \<noteq> None
     \<and> (\<forall>ch. syncMessages s (target @ addr) = Some ch \<longrightarrow> \<not> chan_closed ch)"

lemma pair_job_on_the_way:
  assumes "on_the_way C sid target addr es s" and "pair_queue (target @ addr) s = e # rest"
    and "\<forall>e \<in> set es. Sender e = addr \<and> mb_fits C target e" and "length es \<le> 1000"
  shows "fst (pair_job C K (target @ addr) e s) = Ok () \<and> on_the_way C sid target addr es (snd (pair_job C K (target @ addr) e s))"
proof -
  obtain mb where mb: "mailboxServer s = Some mb" "mb_open C sid target mb" "envelopesLimit mb = 1000"
      "mb_queue target mb @ e # rest = es"
    using assms(1,2) by (auto simp: on_the_way_def)
  obtain ch where ch: "syncMessages s (target @ addr) = Some ch" "chan_buf ch = e # rest" "\<not> chan_closed ch"
    using assms(1,2) by (auto simp: pair_queue_def on_the_way_def split: option.splits)
  let ?s = "s\<lparr>syncMessages := (syncMessages s)(target @ addr \<mapsto> ch\<lparr>chan_buf := rest\<rparr>)\<rparr>"
  have e: "Sender e = addr" "mb_fits C target e" using assms(3) mb(4) by auto
  have room: "length (mb_queue target mb) < envelopesLimit mb" using mb(3,4) assms(4) by auto
  obtain ok mb' where r: "mailbox_RouteEnvelope e mb = (ok, mb')" by (cases "mailbox_RouteEnvelope e mb")
  have law: "ok" "mb_queue target mb' = mb_queue target mb @ [e]" "mb_open C sid target mb'" "envelopesLimit mb' = 1000"
    using mailbox.push_law [OF mb(2) e(2)] room r mb(3) by auto
  have "\<exists>rec. getEnvelopeAcnRecord e ?s = Ok rec"
    using assms(1) e(1) mb(1) by (auto simp: getEnvelopeAcnRecord_def on_the_way_def Let_def)
  then obtain rec where rec: "getEnvelopeAcnRecord e ?s = Ok rec" ..
  have "pair_job C K (target @ addr) e s = RouteEnvelope C K e ?s" using ch by (simp add: pair_job_def)
  also have "\<dots> = (Ok (), (route_begun ?s)\<lparr>mailboxServer := Some mb'\<rparr>)"
    using RouteEnvelope_to_mailbox [OF rec _ r [unfolded eqTrueI [OF law(1)]]] mb(1) by simp
  finally have job: "pair_job C K (target @ addr) e s = (Ok (), (route_begun ?s)\<lparr>mailboxServer := Some mb'\<rparr>)" .
  then show ?thesis
    using assms(1) law mb(4) ch(3) by (simp add: on_the_way_def pair_queue_def routeCountAll_Inc_def routeCount_add_def)
qed

lemma pair_loop_to_mailbox:
  assumes "on_the_way C sid target addr es s" and "\<forall>e \<in> set es. Sender e = addr \<and> mb_fits C target e" and "length es \<le> 1000"
  shows "\<exists>s' mb. pair_loop C K (target @ addr) s = (Block, s') \<and> mailboxServer s' = Some mb \<and> mb_open C sid target mb
    \<and> mb_queue target mb = es"
proof -
  obtain s' where s': "run_jobs (pair_job C K (target @ addr)) (pair_queue (target @ addr) s) s = (Ok (), s')"
      "pair_queue (target @ addr) s' = []" "on_the_way C sid target addr es s'"
    using pair_worker.all_jobs_done [where s = s and I = "on_the_way C sid target addr es"]
      pair_job_on_the_way [OF _ _ assms(2,3)] assms(1)
    by (metis res.distinct(3) res.distinct(5))
  have "\<not> pair_closed (target @ addr) s" using assms(1) by (auto simp: on_the_way_def pair_closed_def split: option.splits)
  then have "pair_loop C K (target @ addr) s = (Block, s')"
    using pair_worker.worker_runs [where s = s and C = C and K = K and pair = "target @ addr"] s'(1) by simp
  with s'(2,3) show ?thesis by (auto simp: on_the_way_def)
qed

section \<open>Polling\<close>

text \<open>A client that asks \<open>n\<close> times for its next envelope.\<close>

fun mb_polls :: "codec \<Rightarrow> string \<Rightarrow> nat \<Rightarrow> MailboxServer \<Rightarrow> Envelope option list \<times> MailboxServer" where
  "mb_polls C sid 0 mb = ([], mb)"
| "mb_polls C sid (Suc n) mb =
     (case mb_poll C sid mb of (e, mb1) \<Rightarrow> case mb_polls C sid n mb1 of (es, mb2) \<Rightarrow> (e # es, mb2))"

lemma mb_polls_all:
  "mb_open C sid target mb \<Longrightarrow> fst (mb_polls C sid (length (mb_queue target mb)) mb) = map Some (mb_queue target mb)"
proof (induction "mb_queue target mb" arbitrary: mb)
  case (Cons e es)
  obtain x mb1 where x: "mb_poll C sid mb = (x, mb1)" by (cases "mb_poll C sid mb")
  have "x = Some e" "mb_queue target mb1 = es" "mb_open C sid target mb1"
    using mailbox.pop_law [OF Cons.prems] Cons.hyps(2) [symmetric] x by auto
  with Cons.hyps(1) [of mb1] x show ?case unfolding Cons.hyps(2) [symmetric] by (auto split: prod.splits)
qed simp

section \<open>The way through one peer\<close>

text \<open>C14: From a delegate client to a mailbox: up to 1000 envelopes that a connected agent sends to an agent with an
  empty mailbox at the same peer are all acknowledged, the goroutine of the pair routes every one of them, and the
  receiver's requests return exactly these envelopes in the order in which they were sent, one each.\<close>

theorem delegate_to_mailbox:
  assumes "codec_ok C" and "carries C (Status (Some \<lparr>Code = SUCCESS, Msgs = []\<rparr>)) ok"
    and "list_all2 (envelope_message C) es bs" and "length es \<le> 1000"
    and "rx (conns s cid) = map frame bs" and "rx_end (conns s cid) = None" and "wcap (conns s cid) = None"
    and "\<forall>e \<in> set es. Sender e = addr \<and> To e = target \<and> (\<exists>b. env_Marshal C e = Inr b \<and> b \<noteq> [])"
    and "syncMessages s (target @ addr) = None" and "peerRecords s addr \<noteq> None"
    and "mailboxServer s = Some mb" and "sessions mb sid = Some target" and "envelopes mb target = Some []"
    and "envelopesLimit mb = 1000"
  shows "\<exists>s1 s2 mb2. delegate_loop C addr cid s = (Block, s1) \<and> tx (conns s1 cid) = tx (conns s cid) @ concat (map (\<lambda>_. frame ok) es)
    \<and> pair_loop C K (target @ addr) s1 = (Block, s2) \<and> mailboxServer s2 = Some mb2
    \<and> fst (mb_polls C sid (length es) mb2) = map Some es"
proof -
  have ok: "success_message C ok" using assms(2) by (simp add: success_message_def)
  have keys: "\<forall>e \<in> set es. Sender e = addr \<and> pair_key e = target @ addr" using assms(8) by (simp add: pair_key_def)
  have q: "pair_queue (target @ addr) s = []" "pair_open (target @ addr) s"
    using assms(9) by (simp_all add: pair_queue_def pair_open_def)
  have fits: "\<forall>e \<in> set es. Sender e = addr \<and> mb_fits C target e"
    using assms(8) by (auto simp: mb_fits_def)
  obtain s1 where s1: "delegate_loop C addr cid s = (Block, s1)" "pair_queue (target @ addr) s1 = es"
      "tx (conns s1 cid) = tx (conns s cid) @ concat (map (\<lambda>_. frame ok) es)" "pair_open (target @ addr) s1"
    using delegate_loop_pair [OF assms(1) ok assms(3,5,6,7) keys q(2)] q(1) assms(4) by auto
  have "on_the_way C sid target addr es s1"
    using delegate_loop_frame [OF s1(1)] s1(2,4) assms(1,10-14)
    by (auto simp: on_the_way_def serve_frame_def mb_open_def mb_queue_def pair_open_def)
  from pair_loop_to_mailbox [OF this fits assms(4)] obtain s2 mb2 where
      "pair_loop C K (target @ addr) s1 = (Block, s2)" "mailboxServer s2 = Some mb2" "mb_open C sid target mb2"
      "mb_queue target mb2 = es"
    by blast
  with s1 mb_polls_all [of C sid target mb2] show ?thesis by auto
qed

definition ex_way_codec :: codec where
  "ex_way_codec =
     table_codec
       [(AeaEnvelope \<lparr>ape_Envelope = [8], ape_Record = None\<rparr>, [1]), (Status (Some \<lparr>Code = SUCCESS, Msgs = []\<rparr>), [3])]
       [(ex_env ''b'' ''a'', [8])] []"

definition ex_way_state :: "Envelope list DHTPeer" where
  "ex_way_state = (ex_peer_state (ex_net [] []))\<lparr>conns := (\<lambda>_. \<lparr>rx = [frame [1], frame [1]], rx_end = None, tx = [], wcap = None\<rparr>),
     peerRecords := [''a'' \<mapsto> ex_record 65 7],
     mailboxServer := Some ((mailbox_start [] [])\<lparr>sessions := [''s1'' \<mapsto> ''b''], envelopes := [''b'' \<mapsto> []]\<rparr>)\<rparr>"

lemma delegate_to_mailbox_witness:
  "\<exists>s1 s2 mb2. delegate_loop ex_way_codec ''a'' 1 ex_way_state = (Block, s1) \<and> tx (conns s1 1) = frame [3] @ frame [3]
    \<and> pair_loop ex_way_codec ex_crypto (''b'' @ ''a'') s1 = (Block, s2) \<and> mailboxServer s2 = Some mb2
    \<and> fst (mb_polls ex_way_codec ''s1'' 2 mb2) = [Some (ex_env ''b'' ''a''), Some (ex_env ''b'' ''a'')]"
proof -
  have ok: "codec_ok ex_way_codec" unfolding ex_way_codec_def by (intro codec_ok_table) simp_all
  have k: "carries ex_way_codec (Status (Some \<lparr>Code = SUCCESS, Msgs = []\<rparr>)) [3]"
    by (simp add: carries_def ex_way_codec_def table_codec_def maxMessageSizeDelegateConnection_def)
  have "envelope_message ex_way_codec (ex_env ''b'' ''a'') [1]"
    unfolding envelope_message_def
    by (rule exI [of _ "\<lparr>ape_Envelope = [8], ape_Record = None\<rparr>"])
      (simp add: carries_def ex_way_codec_def table_codec_def maxMessageSizeDelegateConnection_def)
  then have m: "list_all2 (envelope_message ex_way_codec) [ex_env ''b'' ''a'', ex_env ''b'' ''a''] [[1], [1]]" by simp
  have e: "env_Marshal ex_way_codec (ex_env ''b'' ''a'') = Inr [8]" by (simp add: ex_way_codec_def table_codec_def)
  have s: "rx (conns ex_way_state 1) = map frame [[1], [1]]" "rx_end (conns ex_way_state 1) = None" "wcap (conns ex_way_state 1) = None"
    "tx (conns ex_way_state 1) = []" "syncMessages ex_way_state (''b'' @ ''a'') = None" "peerRecords ex_way_state ''a'' \<noteq> None"
    "mailboxServer ex_way_state = Some ((mailbox_start [] [])\<lparr>sessions := [''s1'' \<mapsto> ''b''], envelopes := [''b'' \<mapsto> []]\<rparr>)"
    by (simp_all add: ex_way_state_def ex_peer_state_def)
  show ?thesis
    using delegate_to_mailbox [OF ok k m _ s(1-3) _ s(5-7), of "''s1''" ex_crypto] e s(4)
    by (simp add: mailbox_start_def numeral_2_eq_2)
qed

end
