(* ===== verification/PeerLife.thy ===== *)
theory PeerLife
  imports DhtPeerServe
begin

text \<open>
  The life of a peer (\<open>dht/dhtpeer/options.go\<close>, \<open>New\<close> of \<open>dhtpeer.go\<close>): its options, its construction from
  the configuration, the network and the store of an earlier life, and everything that may happen to
  it afterwards as a step relation, in any order.

  What libp2p, the Kademlia library, TLS and the file system answer during \<open>New\<close> is the record
  \<open>peer_setup\<close>. A step is one handler or one turn of a loop, or one critical section of a handler that takes
  locks more than once (\<open>peer_section\<close>): between the sections of a registration, of a delegate connection's start and end, or of
  \<open>Close\<close>, anything else may happen. The mailbox handlers are steps of their own.

  The facts: whatever happens, every record that the peer holds for an agent, in its maps, in its
  mailbox and in its store, is filed under the agent's address and carries a valid proof of
  representation, so it is still there, and still proven, when the peer is started again.
\<close>

section \<open>Options\<close>

datatype PeerOption =
    IdentityFromFetchAIKey string
  | RegisterAgentAddressOpt AgentRecord
  | BootstrapFrom "string list"
  | LocalURI string "16 word"
  | PublicURI string "16 word"
  | EnableDelegateService "16 word"
  | EnableMailboxService string
  | EnableRelayService
  | LoggingLevel int
  | EnablePrometheusMonitoring "16 word"
  | WithRegistrationDelay int
  | StoreRecordsTo string

text \<open>The option copies six fields of the record; the validity period stays empty.\<close>

definition copy_record :: "AgentRecord \<Rightarrow> AgentRecord" where
  "copy_record r =
     \<lparr>ServiceId = ServiceId r, LedgerId = LedgerId r, Address = Address r, PublicKey = PublicKey r,
      PeerPublicKey = PeerPublicKey r, Signature = Signature r, NotBefore = [], NotAfter = []\<rparr>"

definition apply_option :: "crypto \<Rightarrow> maddr_lib \<Rightarrow> PeerOption \<Rightarrow> PeerConfig \<Rightarrow> PeerConfig res" where
  "apply_option K L opt c =
     (case opt of
        IdentityFromFetchAIKey key \<Rightarrow>
          (case KeyPairFromFetchAIKey K key of
             Inl e \<Rightarrow> Err e
           | Inr (sk, pk) \<Rightarrow> Ok (c\<lparr>peer_key := Some sk, peer_publicKey := pk\<rparr>))
      | RegisterAgentAddressOpt record \<Rightarrow>
          Ok (c\<lparr>myAgentAddress := Address record, myAgentRecord := Some (copy_record record), myAgentReady := True\<rparr>)
      | BootstrapFrom entryPeers \<Rightarrow>
          bind_res (GetPeersAddrInfo L entryPeers) (\<lambda>ps. Ok (c\<lparr>bootstrapPeers := ps\<rparr>))
      | LocalURI h q \<Rightarrow>
          (case NewMultiaddr L (''/ip4/'' @ h @ ''/tcp/'' @ itoa (unat q)) of
             Inl e \<Rightarrow> Err e
           | Inr m \<Rightarrow> Ok (c\<lparr>localMultiaddr := Some m, cfg_host := h, cfg_port := q\<rparr>))
      | PublicURI h q \<Rightarrow>
          (case NewMultiaddr L (''/dns4/'' @ h @ ''/tcp/'' @ itoa (unat q)) of
             Inl e \<Rightarrow> Err e
           | Inr m \<Rightarrow> Ok (c\<lparr>publicMultiaddr := Some m, publicHost := h, publicPort := q\<rparr>))
      | EnableDelegateService q \<Rightarrow> Ok (c\<lparr>delegatePort := q\<rparr>)
      | EnableMailboxService hostport \<Rightarrow> Ok (c\<lparr>mailboxHostPort := hostport\<rparr>)
      | EnableRelayService \<Rightarrow> Ok (c\<lparr>enableRelay := True\<rparr>)
      | LoggingLevel lvl \<Rightarrow> Ok c
      | EnablePrometheusMonitoring q \<Rightarrow> Ok (c\<lparr>monitoringPort := q\<rparr>)
      | WithRegistrationDelay delay \<Rightarrow> Ok (c\<lparr>peer_registrationDelay := delay\<rparr>)
      | StoreRecordsTo path \<Rightarrow> Ok (c\<lparr>persistentStoragePath := path\<rparr>))"

fun apply_options :: "crypto \<Rightarrow> maddr_lib \<Rightarrow> PeerOption list \<Rightarrow> PeerConfig \<Rightarrow> PeerConfig res" where
  "apply_options K L [] c = Ok c"
| "apply_options K L (opt # opts) c = bind_res (apply_option K L opt c) (apply_options K L opts)"

section \<open>Construction\<close>

text \<open>The constants \<open>addressRegistrationDelay\<close> (0) and \<open>defaultPersistentStoragePath\<close>.\<close>

definition defaultPersistentStoragePath :: string where
  "defaultPersistentStoragePath = ''./agent_records_store''"

definition zero_config :: PeerConfig where
  "zero_config =
     \<lparr>cfg_host = [], cfg_port = 0, publicHost = [], publicPort = 0, delegatePort = 0, monitoringPort = 0,
      enableRelay = False, mailboxHostPort = [], peer_registrationDelay = 0, peer_key = None, peer_publicKey = (0, 0),
      localMultiaddr = None, publicMultiaddr = None, bootstrapPeers = [], myAgentAddress = [], myAgentRecord = None,
      myAgentReady = False, persistentStoragePath = defaultPersistentStoragePath\<rparr>"

text \<open>The libraries behind the certificate: the key generation, \<open>x509\<close>, \<open>pem\<close> and \<open>tls\<close>, and the public key of a
  certificate as bytes.\<close>

record x509_lib =
  x_GenerateKey :: "err + bytes"
  x_CreateCertificate :: "bytes \<Rightarrow> err + bytes"
  x_pem_Encode :: "string \<Rightarrow> bytes \<Rightarrow> err + bytes"
  x_MarshalECPrivateKey :: "bytes \<Rightarrow> err + bytes"
  x_X509KeyPair :: "bytes \<Rightarrow> bytes \<Rightarrow> err + bytes"
  x_ECDH :: "bytes \<Rightarrow> err + bytes"

definition generate_x509_cert :: "x509_lib \<Rightarrow> err + bytes" where
  "generate_x509_cert X =
     (case x_GenerateKey X of
        Inl e \<Rightarrow> Inl (Wrapped e ''while creating new private key'')
      | Inr privKey \<Rightarrow>
     (case x_CreateCertificate X privKey of
        Inl e \<Rightarrow> Inl (Wrapped e ''while creating ca'')
      | Inr certBytes \<Rightarrow>
     (case x_pem_Encode X ''CERTIFICATE'' certBytes of
        Inl e \<Rightarrow> Inl (Wrapped e ''while encoding cert pem'')
      | Inr certPEM \<Rightarrow>
     (case x_MarshalECPrivateKey X privKey of
        Inl e \<Rightarrow> Inl (Wrapped e ''while marshaling ec private key'')
      | Inr b \<Rightarrow>
     (case x_pem_Encode X ''EC PRIVATE KEY'' b of
        Inl e \<Rightarrow> Inl (Wrapped e ''while encoding prive pem'')
      | Inr privPEM \<Rightarrow> x_X509KeyPair X certPEM privPEM)))))"

definition makeSessionKeySignature :: "crypto \<Rightarrow> x509_lib \<Rightarrow> bytes \<Rightarrow> privkey \<Rightarrow> err + bytes" where
  "makeSessionKeySignature K X cert privateKey =
     (case x_ECDH X cert of Inl e \<Rightarrow> Inl e | Inr ecdhPub \<Rightarrow> p2p_Sign K privateKey ecdhPub)"

text \<open>The result is the signature; a nil key cannot sign.\<close>

definition makeSSLCertifiateAndSignature :: "crypto \<Rightarrow> x509_lib \<Rightarrow> privkey option \<Rightarrow> bytes res" where
  "makeSSLCertifiateAndSignature K X key =
     (case generate_x509_cert X of
        Inl e \<Rightarrow> Err e
      | Inr cert \<Rightarrow>
          (case key of
             None \<Rightarrow> Panic
           | Some sk \<Rightarrow> (case makeSessionKeySignature K X cert sk of Inl e \<Rightarrow> Err e | Inr sig \<Rightarrow> Ok sig)))"

text \<open>The answers of the libraries: \<open>libp2p.New\<close>, \<open>kaddht.New\<close>, those for the certificate, the failed
  connections to the bootstrap peers and which peers show up in the routing table, \<open>dht.Bootstrap\<close>, the
  store by its path, the order of the range over the addresses loaded from it, \<open>tls.Listen\<close> by the address.\<close>

record peer_setup =
  pn_libp2p :: "err option"
  pn_kaddht :: "err option"
  pn_x509 :: x509_lib
  pn_connect :: "err list"
  pn_found :: "peerID \<Rightarrow> bool"
  pn_Bootstrap :: "err option"
  pn_OpenFile :: "string \<Rightarrow> err + bytes"
  pn_order :: "address list"
  pn_Listen :: "string \<Rightarrow> err option"

definition New_checks :: "crypto \<Rightarrow> PeerConfig \<Rightarrow> unit res" where
  "New_checks K c =
     (if peer_key c = None then Err (ErrMsg ''private key must be provided'')
      else if localMultiaddr c = None then Err (ErrMsg ''local host and port must be set'')
      else if publicMultiaddr c = None then Err (ErrMsg ''public host and port must be set'')
      else case myAgentRecord c of
        None \<Rightarrow> Ok ()
      | Some r \<Rightarrow>
          (let k = FetchAIPublicKeyFromPubKey K (peer_publicKey c);
               myPublicKey = (case k of Inl _ \<Rightarrow> [] | Inr x \<Rightarrow> x)
           in case IsValidProofOfRepresentation K (Some r) (Address r) myPublicKey of
                Panic \<Rightarrow> Panic
              | Block \<Rightarrow> Block
              | Err e \<Rightarrow> Err e
              | Ok (status, errPoR) \<Rightarrow>
                  if (\<exists>e. k = Inl e) \<or> errPoR \<noteq> None \<or> Code status \<noteq> SUCCESS
                  then (let err = (case k of
                              Inr _ \<Rightarrow> ErrMsg ''Invalid AgentRecord''
                            | Inl e \<Rightarrow> Wrapped e ''Invalid AgentRecord'')
                        in Err (case errPoR of None \<Rightarrow> err | Some e \<Rightarrow> Wrapped err (Error e)))
                  else Ok ()))"

text \<open>The state before the network is touched.\<close>

definition fresh_peer :: "PeerConfig \<Rightarrow> 'g \<Rightarrow> world \<Rightarrow> 'g DHTPeer" where
  "fresh_peer c g w =
     \<lparr>cfg = c, mailboxServer = None, addressAnnouncedMap = {}, enableAddressAnnouncement = False,
      dhtAddresses = Map.empty, acnStatuses = Map.empty, tcpAddresses = Map.empty,
      conns = (\<lambda>_. \<lparr>rx = [], rx_end = None, tx = [], wcap = None\<rparr>), peerRecords = Map.empty,
      processEnvelope = None, agent = g, storage = \<lparr>file_bytes = [], file_error = None\<rparr>, isClosing = False,
      syncMessages = Map.empty, slow_queue = make_chan SlowQueueSize,
      metric = \<lparr>routeCount = 0, routeCountAll = 0, routeCountSuccess = 0, delegateClients = 0, delegateClientsAll = 0,
        relayClientsAll = 0\<rparr>,
      net = w\<rparr>"

text \<open>Telling the bootstrap peers, one stream each.\<close>

fun notify_peers :: "peerID list \<Rightarrow> 'g DHTPeer \<Rightarrow> unit res \<times> 'g DHTPeer" where
  "notify_peers [] s = (Ok (), s)"
| "notify_peers (p # ps) s =
     (case host_NewStream s of
        (Inl e, s1) \<Rightarrow> (Err e, s1)
      | (Inr st, s1) \<Rightarrow>
          (case conn_write (to_bytes AeaNotifStream) st of
             (Ok _, st1) \<Rightarrow> notify_peers ps (log_stream p AeaNotifStream (stream_Close st1) s1)
           | (Err e, st1) \<Rightarrow> (Err e, log_stream p AeaNotifStream st1 s1)
           | (Panic, st1) \<Rightarrow> (Panic, log_stream p AeaNotifStream st1 s1)
           | (Block, st1) \<Rightarrow> (Block, log_stream p AeaNotifStream st1 s1)))"

definition storage_path :: "crypto \<Rightarrow> PeerConfig \<Rightarrow> string" where
  "storage_path K c =
     (if persistentStoragePath c = defaultPersistentStoragePath
      then persistentStoragePath c @ ''_''
        @ peer_String K (case IDFromPublicKey K (peer_publicKey c) of Inl _ \<Rightarrow> [] | Inr i \<Rightarrow> i)
      else persistentStoragePath c)"

text \<open>The delegate service cannot go on without its socket: \<open>check\<close> panics.\<close>

definition launchDelegateService :: "peer_setup \<Rightarrow> PeerConfig \<Rightarrow> unit res" where
  "launchDelegateService su c =
     (case pn_Listen su (cfg_host c @ '':'' @ itoa (unat (delegatePort c))) of None \<Rightarrow> Ok () | Some e \<Rightarrow> Panic)"

text \<open>\<open>launchMailboxService\<close>: the server is there at once; its maps are filled in by \<open>start\<close>, which runs beside it.\<close>

definition launchMailboxService :: "bytes \<Rightarrow> 'g DHTPeer \<Rightarrow> 'g DHTPeer" where
  "launchMailboxService sig s =
     (if mailboxHostPort (cfg s) = [] then s
      else s\<lparr>mailboxServer := Some (mailbox_start (mailboxHostPort (cfg s)) sig)\<rparr>)"

text \<open>The last part of \<open>New\<close>: the own address is announced, the delegate and the mailbox service start.\<close>

definition New_services :: "crypto \<Rightarrow> peer_setup \<Rightarrow> bytes \<Rightarrow> 'g DHTPeer \<Rightarrow> unit res \<times> 'g DHTPeer" where
  "New_services K su sig s =
     (let me = myAgentAddress (cfg s);
          (r, s1) = (if bootstrapPeers (cfg s) \<noteq> []
                     then (let t = s\<lparr>enableAddressAnnouncement := True\<rparr>
                           in if me \<noteq> [] \<and> \<not> IsAddressAnnounced me t then RegisterAgentAddress K me t else (Ok (), t))
                     else (Ok (), s))
      in case r of
           Err e \<Rightarrow> (Err e, s1)
         | Panic \<Rightarrow> (Panic, s1)
         | Block \<Rightarrow> (Block, s1)
         | Ok _ \<Rightarrow>
             if delegatePort (cfg s1) \<noteq> 0 \<and> launchDelegateService su (cfg s1) \<noteq> Ok () then (Panic, s1)
             else (Ok (), if mailboxHostPort (cfg s1) \<noteq> [] then launchMailboxService sig s1 else s1))"

definition New ::
  "codec \<Rightarrow> crypto \<Rightarrow> maddr_lib \<Rightarrow> peer_setup \<Rightarrow> PeerOption list \<Rightarrow> 'g \<Rightarrow> world \<Rightarrow> 'g DHTPeer res" where
  "New C K L su opts g w =
     bind_res (apply_options K L opts zero_config) (\<lambda>c.
     bind_res (New_checks K c) (\<lambda>_.
       case pn_libp2p su of
         Some e \<Rightarrow> Err e
       | None \<Rightarrow>
      (case pn_kaddht su of
         Some e \<Rightarrow> Err e
       | None \<Rightarrow>
      (case makeSSLCertifiateAndSignature K (pn_x509 su) (peer_key c) of
         Err e \<Rightarrow> Err e
       | Panic \<Rightarrow> Panic
       | Block \<Rightarrow> Block
       | Ok sig \<Rightarrow>
      (case (if bootstrapPeers c \<noteq> [] then BootstrapConnect K (bootstrapPeers c) (pn_connect su) (pn_found su) else None) of
         Some e \<Rightarrow> Err e
       | None \<Rightarrow>
      (case pn_Bootstrap su of
         Some e \<Rightarrow> Err e
       | None \<Rightarrow>
      (case notify_peers (bootstrapPeers c) (fresh_peer c g w) of
         (Err e, s) \<Rightarrow> Err e
       | (Panic, s) \<Rightarrow> Panic
       | (Block, s) \<Rightarrow> Block
       | (Ok _, s) \<Rightarrow>
           (let s1 = s\<lparr>cfg := c\<lparr>persistentStoragePath := storage_path K c\<rparr>\<rparr> in
            case initAgentRecordPersistentStorage C K (pn_OpenFile su (persistentStoragePath (cfg s1))) s1 of
              (Err e, s2) \<Rightarrow> Err (Wrapped e ''while initializing agent record storage'')
            | (Panic, s2) \<Rightarrow> Panic
            | (Block, s2) \<Rightarrow> Block
            | (Ok nbr, s2) \<Rightarrow>
                (let s3 = (if bootstrapPeers c \<noteq> [] then announce_all K (pn_order su) s2 else s2) in
                 case New_services K su sig s3 of
                   (Ok _, s4) \<Rightarrow> Ok s4
                 | (Err e, s4) \<Rightarrow> Err e
                 | (Panic, s4) \<Rightarrow> Panic
                 | (Block, s4) \<Rightarrow> Block)))))))))"

section \<open>The delegate listener\<close>

text \<open>\<open>TLSListener.Accept\<close>: the signature of the session key is written to the new connection before it is handed
  out. A connection whose write fails is neither handed out nor closed.\<close>

definition tls_Accept :: "bytes \<Rightarrow> err + nat \<Rightarrow> 'g DHTPeer \<Rightarrow> nat res \<times> 'g DHTPeer" where
  "tls_Accept sig accepted s =
     (case accepted of
        Inl e \<Rightarrow> (Err e, s)
      | Inr cid \<Rightarrow> (case WriteBytesConn (conns s cid) sig of (r, c) \<Rightarrow> (bind_res r (\<lambda>_. Ok cid), set_conn cid c s)))"

text \<open>The loop of \<open>handleDelegateService\<close>: in each turn whether the peer is closing and what the listener gives. The
  result is the connections for which \<open>handleNewDelegationConnection\<close> was started, in order.\<close>

fun accept_loop :: "bytes \<Rightarrow> (bool \<times> (err + nat)) list \<Rightarrow> nat list \<Rightarrow> 'g DHTPeer \<Rightarrow> nat list res \<times> 'g DHTPeer" where
  "accept_loop sig [] started s = (Block, s)"
| "accept_loop sig ((closing, accepted) # turns) started s =
     (if closing then (Ok started, s)
      else case tls_Accept sig accepted s of
        (Ok cid, s1) \<Rightarrow> accept_loop sig turns (started @ [cid]) s1
      | (Err e, s1) \<Rightarrow> accept_loop sig turns started s1
      | (Panic, s1) \<Rightarrow> (Panic, s1)
      | (Block, s1) \<Rightarrow> (Block, s1))"

section \<open>What may happen to a peer\<close>

text \<open>\<open>ProcessEnvelope\<close> sets the callback; the mailbox handlers call back into the peer they belong to.\<close>

definition ProcessEnvelope :: "(Envelope \<Rightarrow> 'g \<Rightarrow> unit res \<times> 'g) \<Rightarrow> 'g DHTPeer \<Rightarrow> 'g DHTPeer" where
  "ProcessEnvelope f s = s\<lparr>processEnvelope := Some f\<rparr>"

definition peer_apiRegister ::
  "codec \<Rightarrow> crypto \<Rightarrow> string \<Rightarrow> http_request \<Rightarrow> MailboxServer \<Rightarrow> 'g DHTPeer \<Rightarrow>
   http_response res \<times> MailboxServer \<times> 'g DHTPeer" where
  "peer_apiRegister C K uuid req mb s =
     apiRegister C (\<lambda>r. CheckPOR K (Some r) s) (IsAddressAnnouncementEnabled s) (RegisterAgentAddress K) uuid req mb s"

definition peer_apiSendEnvelope ::
  "codec \<Rightarrow> crypto \<Rightarrow> http_request \<Rightarrow> MailboxServer \<Rightarrow> 'g DHTPeer \<Rightarrow>
   http_response res \<times> MailboxServer \<times> 'g DHTPeer" where
  "peer_apiSendEnvelope C K req mb s =
     apiSendEnvelope C
       (\<lambda>e (mb1, s1). case RouteEnvelope C K e (s1\<lparr>mailboxServer := Some mb1\<rparr>) of
          (r, s2) \<Rightarrow> (r, (case mailboxServer s2 of Some mb2 \<Rightarrow> mb2 | None \<Rightarrow> mb1), s2)) req mb s"

text \<open>The routes of the mailbox server. A path that is none of them is answered by the library with 404.\<close>

definition mailbox_http ::
  "codec \<Rightarrow> crypto \<Rightarrow> string \<Rightarrow> bool \<Rightarrow> string \<Rightarrow> http_request \<Rightarrow> MailboxServer \<Rightarrow> 'g DHTPeer \<Rightarrow>
   http_response res \<times> MailboxServer \<times> 'g DHTPeer" where
  "mailbox_http C K uuid written path req mb s =
     (if path = ''/register'' then peer_apiRegister C K uuid req mb s
      else if path = ''/unregister'' then (case apiUnregister req mb of (r, mb1) \<Rightarrow> (r, mb1, s))
      else if path = ''/get_envelope'' then (case apiGetEnvelope C written req mb of (r, mb1) \<Rightarrow> (r, mb1, s))
      else if path = ''/send_envelope'' then peer_apiSendEnvelope C K req mb s
      else if path = ''/ssl_signature'' then (Ok (apiGetSignature req mb), mb, s)
      else (Ok (404, to_bytes (''404 page not found'' @ [CHR 0x0A])), mb, s))"

text \<open>The end of \<open>start\<close>: the error of \<open>tls.Listen\<close> is logged, and \<open>Serve\<close> is called on the nil listener that comes with it,
  which panics. \<open>stop\<close> before \<open>start\<close> has made the server is a call on a nil server.\<close>

definition mailbox_serve :: "err option \<Rightarrow> unit res" where
  "mailbox_serve listen_err = (case listen_err of None \<Rightarrow> Block | Some e \<Rightarrow> Panic)"

definition mailbox_stop :: "bool \<Rightarrow> err option \<Rightarrow> unit res" where
  "mailbox_stop server_made shutdown_err = (if server_made then Ok () else Panic)"

text \<open>What one goroutine does to the shared state of the peer under one lock, or with one operation on a channel, while others
  run: the steps between which a handler can be interrupted. A section has the guards under which the code
  reaches it. A record goes into the map after the check of the handler it belongs to; the relay entry with its
  append to the store, the connection and the status queue of an address follow the record of that address,
  which no one deletes. The sections for which nothing has to be known (counters, announcements, the ends of a
  delegate connection, the queues) are always possible.\<close>

inductive peer_section :: "codec \<Rightarrow> crypto \<Rightarrow> 'g DHTPeer \<Rightarrow> 'g DHTPeer \<Rightarrow> bool"
  for C :: codec and K :: crypto where
  sec_relay_record: "\<lbrakk>ReadAgentRegistrationMessage C StreamPipe st = (Ok (Some rec), st1);
      IsValidProofOfRepresentation K (Some rec) (Address rec) (remote_key K st1) = Ok (status, None); Code status = SUCCESS\<rbrakk> \<Longrightarrow>
    peer_section C K s (register_record rec s)"
| sec_relay_entry: "\<lbrakk>ReadAgentRegistrationMessage C StreamPipe st = (Ok (Some rec), st1);
      IsValidProofOfRepresentation K (Some rec) (Address rec) (remote_key K st1) = Ok (status, None); Code status = SUCCESS;
      peerRecords s (Address rec) \<noteq> None\<rbrakk> \<Longrightarrow>
    peer_section C K s (register_relay C rec (peer_String K (remotePeer st1)) s)"
| sec_delegate_record: "\<lbrakk>CheckPOR K (Some rec) s = Ok (status, None); Code status = SUCCESS\<rbrakk> \<Longrightarrow>
    peer_section C K s (register_record rec s)"
| sec_delegate_tcp: "peerRecords s addr \<noteq> None \<Longrightarrow> peer_section C K s (set_tcp addr cid s)"
| sec_delegate_statuses: "peerRecords s addr \<noteq> None \<Longrightarrow> peer_section C K s (set_statuses addr s)"
| sec_delegate_tcp_end: "peer_section C K s (delete_tcp addr s)"
| sec_delegate_statuses_end: "peer_section C K s (delete_statuses addr s)"
| sec_announced: "peer_section C K s (setAddressAnnounced addr s)"
| sec_announcing: "peer_section C K s (s\<lparr>enableAddressAnnouncement := True\<rparr>)"
| sec_metric: "peer_section C K s (s\<lparr>metric := m\<rparr>)"
| sec_status_add: "AddAcnStatusMessage st addr s = (r, s') \<Longrightarrow> peer_section C K s s'"
| sec_status_wait: "AwaitAcnStatus addr s = (r, s') \<Longrightarrow> peer_section C K s s'"
| sec_pair_make: "peer_section C K s (make_pair pair s)"
| sec_pair_send: "send_pair (pair_key e) e s = (r, s') \<Longrightarrow> peer_section C K s s'"
| sec_pair_take: "\<lbrakk>syncMessages s pair = Some ch; chan_buf ch = e # es\<rbrakk> \<Longrightarrow>
    peer_section C K s (s\<lparr>syncMessages := (syncMessages s)(pair \<mapsto> ch\<lparr>chan_buf := es\<rparr>)\<rparr>)"
| sec_slow_send: "chan_send e (Some (slow_queue s)) = (r, Some q) \<Longrightarrow> peer_section C K s (s\<lparr>slow_queue := q\<rparr>)"
| sec_slow_take: "chan_buf (slow_queue s) = e # es \<Longrightarrow>
    peer_section C K s (s\<lparr>slow_queue := (slow_queue s)\<lparr>chan_buf := es\<rparr>\<rparr>)"
| sec_mailbox_register: "\<lbrakk>mailboxServer s = Some mb; CheckPOR K (Some rec) s = Ok (status, None); Code status = SUCCESS\<rbrakk> \<Longrightarrow>
    peer_section C K s (s\<lparr>mailboxServer := Some (register_commit rec uuid mb)\<rparr>)"
| sec_mailbox_route: "\<lbrakk>mailboxServer s = Some mb; mailbox_RouteEnvelope e mb = (ok, mb')\<rbrakk> \<Longrightarrow>
    peer_section C K s (s\<lparr>mailboxServer := Some mb'\<rparr>)"
| sec_closing: "peer_section C K s (s\<lparr>isClosing := True\<rparr>)"
| sec_close_file: "closeAgentRecordPersistentStorage fe s = (r, s') \<Longrightarrow> peer_section C K s s'"
| sec_close_pairs: "isClosing s \<Longrightarrow> peer_section C K s (close_pairs s)"
| sec_close_slow: "isClosing s \<Longrightarrow> peer_section C K s (close_slow_queue s)"

text \<open>The steps of a peer: the critical sections in any order, handlers and turns of loops as a whole, and what the outside
  does: new answers of the network, data on the connections, the agent's own steps, a disk that fails.\<close>

inductive peer_step :: "codec \<Rightarrow> crypto \<Rightarrow> 'g DHTPeer \<Rightarrow> 'g DHTPeer \<Rightarrow> bool"
  for C :: codec and K :: crypto where
  step_section: "peer_section C K s s' \<Longrightarrow> peer_step C K s s'"
| step_callback: "peer_step C K s (ProcessEnvelope f s)"
| step_route: "RouteEnvelope C K e s = (r, s') \<Longrightarrow> peer_step C K s s'"
| step_slow: "slow_turn C K s = (r, s') \<Longrightarrow> peer_step C K s s'"
| step_pair: "pair_turn C K pair s = (r, s') \<Longrightarrow> peer_step C K s s'"
| step_envelope: "handleAeaEnvelopeStream C K st s = (r, st', s') \<Longrightarrow> peer_step C K s s'"
| step_address: "handleAeaAddressStream C K st s = (r, st', s') \<Longrightarrow> peer_step C K s s'"
| step_register: "handleAeaRegisterStream C K st s = (r, st', s') \<Longrightarrow> peer_step C K s s'"
| step_notif: "handleAeaNotifStream K relayKeys tcpKeys s = (r, s') \<Longrightarrow> peer_step C K s s'"
| step_delegate_register: "delegate_register C K cid s = (r, s') \<Longrightarrow> peer_step C K s s'"
| step_delegate: "delegate_step C addr cid s = (r, s') \<Longrightarrow> peer_step C K s s'"
| step_delegate_serve: "delegate_serve C addr cid s = (r, s') \<Longrightarrow> peer_step C K s s'"
| step_mailbox_register: "\<lbrakk>mailboxServer s = Some mb; peer_apiRegister C K uuid req mb s = (r, mb', s')\<rbrakk> \<Longrightarrow>
    peer_step C K s (s'\<lparr>mailboxServer := Some mb'\<rparr>)"
| step_mailbox_unregister: "mailboxServer s = Some mb \<Longrightarrow>
    peer_step C K s (s\<lparr>mailboxServer := Some (unregister_commit sid addr mb)\<rparr>)"
| step_mailbox_get: "\<lbrakk>mailboxServer s = Some mb; apiGetEnvelope C written req mb = (r, mb')\<rbrakk> \<Longrightarrow>
    peer_step C K s (s\<lparr>mailboxServer := Some mb'\<rparr>)"
| step_mailbox_send: "\<lbrakk>mailboxServer s = Some mb; peer_apiSendEnvelope C K req mb s = (r, mb', s')\<rbrakk> \<Longrightarrow>
    peer_step C K s (s'\<lparr>mailboxServer := Some mb'\<rparr>)"
| step_close: "Close le ce de he fe s = (r, s') \<Longrightarrow> peer_step C K s s'"
| step_net: "peer_step C K s (s\<lparr>net := w\<rparr>)"
| step_conn: "peer_step C K s (s\<lparr>conns := cs\<rparr>)"
| step_agent: "peer_step C K s (s\<lparr>agent := g\<rparr>)"
| step_accept: "accept_loop sig turns started s = (r, s') \<Longrightarrow> peer_step C K s s'"
| step_disk: "peer_step C K s (s\<lparr>storage := (storage s)\<lparr>file_error := fe\<rparr>\<rparr>)"

text \<open>The peers of one store: the first life starts with an empty store, a later one with what the one before
  it left there.\<close>

inductive peer_reachable :: "codec \<Rightarrow> crypto \<Rightarrow> 'g DHTPeer \<Rightarrow> bool" for C :: codec and K :: crypto where
  peer_new: "\<lbrakk>New C K L pn opts g w = Ok s; \<forall>path bs. pn_OpenFile pn path = Inr bs \<longrightarrow> bs = []\<rbrakk> \<Longrightarrow> peer_reachable C K s"
| peer_again: "\<lbrakk>peer_reachable C K s0; New C K L pn opts g w = Ok s;
    \<forall>path bs. pn_OpenFile pn path = Inr bs \<longrightarrow> bs = file_bytes (storage s0)\<rbrakk> \<Longrightarrow> peer_reachable C K s"
| peer_next: "\<lbrakk>peer_reachable C K s; peer_step C K s s'\<rbrakk> \<Longrightarrow> peer_reachable C K s'"

text \<open>Every request to the mailbox server, whatever its path, is a step of the peer or changes nothing.\<close>

lemma mailbox_http_step:
  assumes "mailboxServer s = Some mb" and "mailbox_http C K uuid written path req mb s = (r, mb', s')"
  shows "peer_step C K s (s'\<lparr>mailboxServer := Some mb'\<rparr>) \<or> s'\<lparr>mailboxServer := Some mb'\<rparr> = s"
proof -
  have eta: "s\<lparr>mailboxServer := Some mb\<rparr> = s" using assms(1) by simp
  consider "peer_apiRegister C K uuid req mb s = (r, mb', s')"
    | sid addr where "mb' = unregister_commit sid addr mb" "s' = s"
    | "apiGetEnvelope C written req mb = (r, mb')" "s' = s"
    | "peer_apiSendEnvelope C K req mb s = (r, mb', s')"
    | "mb' = mb" "s' = s"
    using assms(2)
    by (auto simp: mailbox_http_def apiUnregister_def split: if_splits prod.splits res.splits option.splits)
  then show ?thesis
    by cases (auto simp: eta assms(1) intro: step_mailbox_register step_mailbox_unregister step_mailbox_get step_mailbox_send)
qed

section \<open>What registration keeps\<close>

text \<open>What a registration leaves alone.\<close>

definition register_frame :: "'g DHTPeer \<Rightarrow> 'g DHTPeer \<Rightarrow> bool" where
  "register_frame s s' \<longleftrightarrow> cfg s' = cfg s \<and> mailboxServer s' = mailboxServer s \<and> tcpAddresses s' = tcpAddresses s
     \<and> w_NewStream (net s') = w_NewStream (net s) \<and> w_used (net s') = w_used (net s)"

lemma RegisterAgentAddress_register_frame: "register_frame s (snd (RegisterAgentAddress K a s))"
  by (auto simp: register_frame_def RegisterAgentAddress_def setAddressAnnounced_def dht_Provide_def Let_def
      split: sum.splits option.splits prod.splits)

lemma register_stream_frame:
  assumes "handleAeaRegisterStream C K st s = (r, st', s')"
  shows "register_frame s s'"
proof -
  have base: "register_frame s (t :: 'a DHTPeer)"
    if "register_frame (register_relay C r p (register_record r (relayClientsAll_Inc s))) t" for r p t
    using that by (simp add: register_frame_def relayClientsAll_Inc_def section_defs)
  have announced: "register_frame u v" if "RegisterAgentAddress K a u = (q, v)" for a q and u v :: "'a DHTPeer"
    using RegisterAgentAddress_register_frame [of u K a] that by simp
  have refl: "register_frame u u" for u :: "'a DHTPeer" by (simp add: register_frame_def)
  obtain x st1 where rd: "ReadAgentRegistrationMessage C StreamPipe st = (x, st1)"
    by (cases "ReadAgentRegistrationMessage C StreamPipe st")
  show ?thesis
  proof (cases "\<exists>rec. x = Ok (Some rec)")
    case False
    with assms rd refl show ?thesis
      by (auto simp: handleAeaRegisterStream_def split: res.splits option.splits)
  next
    case True
    then obtain rec where x: "x = Ok (Some rec)" by blast
    obtain y st2 where snd_ok: "SendAcnSuccess C StreamPipe st1 = (y, st2)" by (cases "SendAcnSuccess C StreamPipe st1")
    show ?thesis
    proof (cases "\<exists>status. IsValidProofOfRepresentation K (Some rec) (Address rec) (remote_key K st1) = Ok (status, None)
        \<and> Code status = SUCCESS \<and> y = Ok ()")
      case True
      with assms rd x snd_ok show ?thesis
        by (auto simp: handleAeaRegisterStream_def Let_def split: if_splits prod.splits res.splits
            intro!: base intro: refl announced)
    next
      case False
      with assms rd x snd_ok refl show ?thesis
        by (auto simp: handleAeaRegisterStream_def Let_def split: if_splits prod.splits res.splits option.splits)
    qed
  qed
qed

section \<open>The records of a peer\<close>

text \<open>What a store holds that was only written to by the peer: frames of records with a valid proof.\<close>

definition stored :: "codec \<Rightarrow> crypto \<Rightarrow> bytes \<Rightarrow> bool" where
  "stored C K bs \<longleftrightarrow>
     (\<exists>rs fs. bs = concat (map frame fs) \<and> list_all2 (\<lambda>r b. rec_Marshal C r = Inr b \<and> length b \<le> MaxInt32) rs fs
        \<and> (\<forall>r \<in> set rs. valid_proof K r (Address r) (PeerPublicKey r)))"

definition proven :: "codec \<Rightarrow> crypto \<Rightarrow> 'g DHTPeer \<Rightarrow> bool" where
  "proven C K s \<longleftrightarrow>
     (\<forall>a r. peerRecords s a = Some r \<longrightarrow> valid_proof K r a (PeerPublicKey r)) \<and>
     (\<forall>m a r. map_option agentRecords (mailboxServer s) = Some m \<longrightarrow> m a = Some r \<longrightarrow> valid_proof K r a (own_key K s)) \<and>
     (\<forall>r. myAgentRecord (cfg s) = Some r \<longrightarrow> valid_proof K r (myAgentAddress (cfg s)) (own_key K s)) \<and>
     stored C K (file_bytes (storage s))"

text \<open>The steps that touch none of it.\<close>

definition same_records :: "'g DHTPeer \<Rightarrow> 'g DHTPeer \<Rightarrow> bool" where
  "same_records s s' \<longleftrightarrow> peerRecords s' = peerRecords s \<and> cfg s' = cfg s \<and> file_bytes (storage s') = file_bytes (storage s)
     \<and> map_option agentRecords (mailboxServer s') = map_option agentRecords (mailboxServer s)"

named_theorems same_records "operations that leave the records alone"

lemma same_records_refl [simp]: "same_records s s"
  by (simp add: same_records_def)

lemma same_records_trans: "\<lbrakk>same_records s t; same_records t u\<rbrakk> \<Longrightarrow> same_records s u"
  by (simp add: same_records_def)

lemma proven_same: "\<lbrakk>proven C K s; same_records s s'\<rbrakk> \<Longrightarrow> proven C K s'"
  by (simp add: proven_def same_records_def own_key_def)

lemma routing_same: "routing_frame s s' \<Longrightarrow> same_records s s'"
  by (simp add: routing_frame_def same_records_def)

lemma net_same: "net_only s s' \<Longrightarrow> same_records s s'"
  by (auto simp: net_only_def same_records_def)

lemma RouteEnvelope_same [same_records]: "RouteEnvelope C K e s = (r, s') \<Longrightarrow> same_records s s'"
  using RouteEnvelope_frame routing_same by blast

lemma slow_turn_same [same_records]:
  assumes "slow_turn C K s = (r, s')"
  shows "same_records s s'"
proof (cases "chan_buf (slow_queue s)")
  case (Cons e es)
  let ?s = "s\<lparr>slow_queue := (slow_queue s)\<lparr>chan_buf := es\<rparr>\<rparr>"
  obtain x t where t: "routeEnvelopeDHTLookup C K e ?s = (x, t)" by (cases "routeEnvelopeDHTLookup C K e ?s")
  have s: "same_records s ?s" by (simp add: same_records_def)
  then have "same_records s t" using routeDHTLookup_frame [OF t] routing_same same_records_trans by blast
  with s assms Cons t show ?thesis by (auto simp: slow_turn_def Let_def split: if_splits res.splits)
qed (use assms in \<open>simp add: slow_turn_def\<close>)

lemma pair_turn_same [same_records]:
  assumes "pair_turn C K pair s = (r, s')"
  shows "same_records s s'"
proof -
  have "same_records s t" if "RouteEnvelope C K e (s\<lparr>syncMessages := sm\<rparr>) = (x, t)" for e sm x t
    using RouteEnvelope_same [OF that] by (simp add: same_records_def)
  with assms show ?thesis by (auto simp: pair_turn_def split: option.splits list.splits prod.splits res.splits)
qed

lemma HandleAeaEnvelope_same: "HandleAeaEnvelope C e s = (r, s') \<Longrightarrow> same_records s s'"
proof -
  assume h: "HandleAeaEnvelope C e s = (r, s')"
  obtain ok s1 where m: "route_mailbox e s = (ok, s1)" by (cases "route_mailbox e s")
  have "routing_frame s1 s'"
    using h m
    by (auto simp: HandleAeaEnvelope_def Let_def dest!: AwaitAcnStatus_frame
        intro: routing_frame_trans [OF routing_frame_update(2)] routing_frame_agent
        split: bool.splits option.splits sum.splits prod.splits res.splits if_splits)
  then show ?thesis using route_mailbox_frame [OF m] routing_frame_trans routing_same by blast
qed

lemma envelope_stream_same [same_records]:
  assumes "handleAeaEnvelopeStream C K st s = (r, st', s')"
  shows "same_records s s'"
proof (cases "s' = s")
  case False
  with peer.envelope_stream_proven assms obtain e where "s' = snd (HandleAeaEnvelope C e s)"
    by (fastforce simp: handleAeaEnvelopeStream_def peer_handler_def)
  then show ?thesis using HandleAeaEnvelope_same [of C e s, OF surjective_pairing] by simp
qed simp

lemma address_request_same: "HandleAeaAddressRequest C K a s = (r, s') \<Longrightarrow> same_records s s'"
  using HandleAeaAddressRequest_cases [of C K a s r s'] net_same lookupAddressDHT_net [of C K a s, OF surjective_pairing]
  by auto

lemma address_stream_same [same_records]:
  "handleAeaAddressStream C K st s = (r, st', s') \<Longrightarrow> same_records s s'"
  by (auto simp: handleAeaAddressStream_def HandleAeaAddressStream_def peer_handler_def
      dest: address_request_same split: prod.splits res.splits option.splits)

lemma RegisterAgentAddress_same: "RegisterAgentAddress K a s = (r, s') \<Longrightarrow> same_records s s'"
  using RegisterAgentAddress_keeps [of K a s r s'] by (simp add: same_records_def)

lemma announce_all_same: "same_records s (announce_all K as s)"
proof (induction as arbitrary: s)
  case (Cons a as)
  show ?case
    using Cons [of "snd (RegisterAgentAddress K a s)"] RegisterAgentAddress_same [of K a s, OF surjective_pairing]
    by (auto intro: same_records_trans)
qed simp

lemma same_records_update [simp]:
  "same_records s (s\<lparr>enableAddressAnnouncement := b\<rparr>)" "same_records s (s\<lparr>net := n\<rparr>)" "same_records s (s\<lparr>conns := cs\<rparr>)"
  "same_records s (s\<lparr>agent := g\<rparr>)" "same_records s (s\<lparr>acnStatuses := ac\<rparr>)" "same_records s (s\<lparr>syncMessages := sm\<rparr>)"
  "same_records s (delegateClients_add d s)" "same_records s (set_conn cid c s)"
  by (simp_all add: same_records_def delegateClients_add_def set_conn_def)

lemma notif_same [same_records]:
  assumes "handleAeaNotifStream K rk tk s = (r, s')"
  shows "same_records s s'"
proof -
  obtain found s1 where 1: "await_routing_table s = (found, s1)" by (cases "await_routing_table s")
  have s1: "same_records s s1" using 1 by (auto simp: await_routing_table_def split: list.splits)
  let ?x = "if myAgentAddress (cfg s1) \<noteq> [] \<and> \<not> IsAddressAnnounced (myAgentAddress (cfg s1)) s1
    then RegisterAgentAddress K (myAgentAddress (cfg s1)) s1 else (Ok (), s1)"
  obtain y s2 where 2: "?x = (y, s2)" by (cases ?x)
  have s2: "same_records s s2"
    using 2 s1 RegisterAgentAddress_same [of K _ s1] by (auto split: if_splits intro: same_records_trans)
  have later: "same_records s ((if b then announce_all K as t else t))" if "same_records s t" for b as t
    using that announce_all_same [of t] by (auto intro: same_records_trans)
  show ?thesis
  proof (cases "found \<and> y = Ok ()")
    case True
    let ?s3 = "if enableRelay (cfg s2) then announce_all K rk s2 else s2"
    let ?s4 = "if delegatePort (cfg ?s3) \<noteq> 0 then announce_all K tk ?s3 else ?s3"
    have "s' = ?s4\<lparr>enableAddressAnnouncement := True\<rparr>"
      using assms True unfolding handleAeaNotifStream_def 1 by (simp add: 2 Let_def)
    moreover have "same_records s ?s4" by (rule later [OF later [OF s2]])
    ultimately show ?thesis by (simp only: same_records_trans [OF _ same_records_update(1)])
  next
    case False
    then have "s' = s1 \<or> s' = s2"
      using assms unfolding handleAeaNotifStream_def 1 by (cases found; cases y) (simp_all add: 2 Let_def)
    then show ?thesis using s1 s2 by blast
  qed
qed

lemma AddAcnStatusMessage_same: "AddAcnStatusMessage st a s = (r, s') \<Longrightarrow> same_records s s'"
  by (auto simp: AddAcnStatusMessage_def split: prod.splits)

lemma HandleAcnMessage_same:
  assumes "HandleAcnMessageFromPipe C P AddAcnStatusMessage addr p s = (r, p', s')"
  shows "same_records s s'"
proof -
  have "s' = s \<or> (\<exists>st q. AddAcnStatusMessage st addr s = (q, s'))"
    using assms
    by (auto simp: HandleAcnMessageFromPipe_def keep_queue_def Let_def
        split: prod.splits res.splits option.splits if_splits sum.splits)
  then show ?thesis using AddAcnStatusMessage_same by auto
qed

lemma enqueue_pair_same: "enqueue_pair e s = (r, s') \<Longrightarrow> same_records s s'"
  by (auto simp: enqueue_pair_def section_defs same_records_def Let_def split: prod.splits option.splits)

lemma delegate_step_same [same_records]:
  assumes "delegate_step C addr cid s = (r, s')"
  shows "same_records s s'"
proof -
  obtain q c s1 where h: "HandleAcnMessageFromPipe C ConnPipe AddAcnStatusMessage addr (conns s cid) s = (q, c, s1)"
    by (metis prod_cases3)
  let ?s = "set_conn cid c s1"
  have s1: "same_records s ?s" using HandleAcnMessage_same [OF h] same_records_update(8) same_records_trans by blast
  have "s' = ?s \<or> s' = delegateClients_add (- 1) ?s \<or> (\<exists>e x. enqueue_pair e ?s = (x, s'))"
    using assms h by (auto simp: delegate_step_def Let_def split: res.splits option.splits if_splits prod.splits)
  then show ?thesis using s1 enqueue_pair_same same_records_update(7) same_records_trans by metis
qed

lemma Close_same [same_records]: "Close le ce de he fe s = (r, s') \<Longrightarrow> same_records s s'"
  by (auto simp: Close_def close_pairs_def close_slow_queue_def closeAgentRecordPersistentStorage_def same_records_def Let_def
      split: if_splits)

lemma delegate_loop_same: "delegate_loop C addr cid s = (r, s') \<Longrightarrow> same_records s s'"
proof (induction C addr cid s rule: delegate_loop.induct)
  case (1 C addr cid s)
  obtain x s1 where x: "delegate_step C addr cid s = (x, s1)" by (cases "delegate_step C addr cid s")
  have s1: "same_records s s1" by (rule delegate_step_same [OF x])
  show ?case
  proof (cases "x = Ok True")
    case True
    with 1 x show ?thesis using same_records_trans [OF s1] by (simp add: delegate_loop.simps [of C addr cid s])
  next
    case False
    with 1(2) x s1 show ?thesis by (auto simp: delegate_loop.simps [of C addr cid s] split: res.splits bool.splits)
  qed
qed

lemma delegate_serve_same [same_records]:
  assumes "delegate_serve C addr cid s = (r, s')"
  shows "same_records s s'"
proof -
  obtain x s1 where x: "delegate_loop C addr cid s = (x, s1)" by (cases "delegate_loop C addr cid s")
  have "same_records s1 s'"
    using assms x by (auto simp: delegate_serve_def section_defs set_conn_def same_records_def Let_def split: res.splits)
  with delegate_loop_same [OF x] show ?thesis by (rule same_records_trans)
qed

lemma tls_Accept_same: "tls_Accept sig a s = (r, s') \<Longrightarrow> same_records s s'"
  by (auto simp: tls_Accept_def split: sum.splits prod.splits)

lemma accept_loop_same: "accept_loop sig turns started s = (r, s') \<Longrightarrow> same_records s s'"
proof (induction turns arbitrary: started s)
  case (Cons t turns)
  obtain closing accepted where t: "t = (closing, accepted)" by (cases t)
  obtain x s1 where x: "tls_Accept sig accepted s = (x, s1)" by (cases "tls_Accept sig accepted s")
  show ?case
    using Cons.prems Cons.IH tls_Accept_same [OF x] unfolding t
    by (cases x) (auto simp: x split: if_splits intro: same_records_trans)
qed simp

text \<open>The agents that connect at open connections are all served, in order, each with the signature as its first frame.\<close>

lemma accept_loop_serves:
  assumes "distinct cids" and "sig \<noteq> []" and "length sig \<le> MaxInt32" and "\<forall>cid \<in> set cids. wcap (conns s cid) = None"
  shows "\<exists>s'. accept_loop sig (map (\<lambda>cid. (False, Inr cid)) cids @ [(True, a)]) started s = (Ok (started @ cids), s')
    \<and> (\<forall>cid \<in> set cids. tx (conns s' cid) = tx (conns s cid) @ frame sig)
    \<and> (\<forall>cid. cid \<notin> set cids \<longrightarrow> conns s' cid = conns s cid)"
  using assms(1,4)
proof (induction cids arbitrary: started s)
  case (Cons cid cids)
  let ?s = "set_conn cid ((conns s cid)\<lparr>tx := tx (conns s cid) @ frame sig\<rparr>) s"
  have acc: "tls_Accept sig (Inr cid) s = (Ok cid, ?s)"
    using Cons.prems assms(2,3) by (simp add: tls_Accept_def WriteBytesConn_def conn_write_def frame_def Let_def)
  have keep: "conns ?s c = conns s c" if "c \<in> set cids" for c using that Cons.prems by (auto simp: set_conn_def)
  with Cons.IH [of ?s "started @ [cid]"] Cons.prems acc show ?case by (auto simp: set_conn_def)
qed simp

section \<open>Registrations\<close>

lemma stored_append:
  assumes "stored C K bs" and "rec_Marshal C r = Inr b" and "length b \<le> MaxInt32"
    and "valid_proof K r (Address r) (PeerPublicKey r)"
  shows "stored C K (bs @ frame b)"
proof -
  obtain rs fs where "bs = concat (map frame fs)"
      "list_all2 (\<lambda>r b. rec_Marshal C r = Inr b \<and> length b \<le> MaxInt32) rs fs"
      "\<forall>r \<in> set rs. valid_proof K r (Address r) (PeerPublicKey r)"
    using assms(1) by (auto simp: stored_def)
  with assms(2-4) show ?thesis
    unfolding stored_def by (intro exI [of _ "rs @ [r]"] exI [of _ "fs @ [b]"]) (auto intro: list_all2_appendI)
qed

lemma stored_save:
  assumes "stored C K (file_bytes f)" and "\<forall>r b. rec_Marshal C r = Inr b \<longrightarrow> length b \<le> MaxInt32"
    and "valid_proof K r (Address r) (PeerPublicKey r)"
  shows "stored C K (file_bytes (snd (saveAgentRecordToPersistentStorage C r f)))"
  using assms stored_append [OF assms(1) _ _ assms(3)]
  by (auto simp: saveAgentRecordToPersistentStorage_def formatPersistentStorageLine_def frame_def [symmetric] Let_def
      split: sum.splits option.splits)

lemma valid_proof_key: "valid_proof K r a k \<Longrightarrow> k = PeerPublicKey r \<and> a = Address r"
  by (auto simp: valid_proof_def)

text \<open>Adding a proven record to the peer's map.\<close>

lemma proven_add_record:
  assumes "proven C K s" and "valid_proof K rec (Address rec) k" and "peerRecords s' = (peerRecords s)(Address rec \<mapsto> rec)"
    and "cfg s' = cfg s" and "mailboxServer s' = mailboxServer s" and "stored C K (file_bytes (storage s'))"
  shows "proven C K s'"
proof -
  have "own_key K s' = own_key K s" using assms(4) by (simp add: own_key_def)
  moreover have "valid_proof K rec (Address rec) (PeerPublicKey rec)" using assms(2) valid_proof_key [OF assms(2)] by simp
  ultimately show ?thesis
    using assms(1) unfolding proven_def assms(3-5) by (intro conjI assms(6)) auto
qed

lemma register_proven:
  assumes "proven C K s" and "\<forall>r b. rec_Marshal C r = Inr b \<longrightarrow> length b \<le> MaxInt32"
    and "handleAeaRegisterStream C K st s = (x, st', s')"
  shows "proven C K s'"
proof (cases "s' = s")
  case False
  from register_stream_sound [OF assms(3) False] obtain rec k where
      rec: "valid_proof K rec (Address rec) k" "peerRecords s' = (peerRecords s)(Address rec \<mapsto> rec)"
      "storage s' = snd (saveAgentRecordToPersistentStorage C rec (storage s))"
    by blast
  have v: "valid_proof K rec (Address rec) (PeerPublicKey rec)" using rec(1) valid_proof_key [OF rec(1)] by simp
  have "stored C K (file_bytes (storage s'))"
    using stored_save [OF _ assms(2) v, of "storage s"] assms(1) rec(3) by (simp add: proven_def)
  with register_stream_frame [OF assms(3)] show ?thesis
    by (intro proven_add_record [OF assms(1) rec(1,2)]) (simp_all add: register_frame_def)
qed (use assms(1) in simp)

lemma delegate_register_keeps:
  assumes "delegate_register C K cid s = (r, s')"
  shows "cfg s' = cfg s \<and> storage s' = storage s \<and> mailboxServer s' = mailboxServer s \<and> dhtAddresses s' = dhtAddresses s
    \<and> syncMessages s' = syncMessages s \<and> slow_queue s' = slow_queue s \<and> isClosing s' = isClosing s"
  using assms
  by (auto simp: delegate_register_def section_defs set_conn_def delegateClients_add_def delegateClientsAll_Inc_def Let_def
      dest!: RegisterAgentAddress_keeps split: prod.splits res.splits option.splits if_splits)

lemma delegate_register_proven:
  assumes "proven C K s" and "delegate_register C K cid s = (r, s')"
  shows "proven C K s'"
proof (cases "peerRecords s' = peerRecords s")
  case True
  with assms(1) delegate_register_keeps [OF assms(2)] show ?thesis
    by (auto intro: proven_same simp: same_records_def)
next
  case False
  then obtain rec where "valid_proof K rec (Address rec) (own_key K s)" "peerRecords s' = (peerRecords s)(Address rec \<mapsto> rec)"
    using delegate_register_sound [OF assms(2)] by blast
  with delegate_register_keeps [OF assms(2)] assms(1) show ?thesis
    by (intro proven_add_record [OF assms(1)]) (simp_all add: proven_def)
qed

section \<open>The mailbox of a peer\<close>

lemma proven_mailbox:
  assumes "proven C K s" and "same_records s t" and "mailboxServer s = Some mb"
    and "\<forall>a r. agentRecords mb' a = Some r \<longrightarrow> agentRecords mb a = Some r \<or> valid_proof K r a (own_key K s)"
  shows "proven C K (t\<lparr>mailboxServer := Some mb'\<rparr>)"
proof -
  have t: "proven C K t" using proven_same [OF assms(1,2)] .
  have k: "own_key K (t\<lparr>mailboxServer := Some mb'\<rparr>) = own_key K s" "own_key K t = own_key K s"
    using assms(2) by (simp_all add: own_key_def same_records_def)
  have "map_option agentRecords (mailboxServer t) = Some (agentRecords mb)" using assms(2,3) by (simp add: same_records_def)
  then have old: "valid_proof K r a (own_key K s)" if "agentRecords mb a = Some r" for a r
    using t that unfolding proven_def k by blast
  show ?thesis
    using t assms(4) old unfolding proven_def k by auto
qed

lemma CheckPOR_accepted:
  "\<lbrakk>CheckPOR K (Some r) s = Ok (st, e); \<not> (e \<noteq> None \<or> Code st \<noteq> SUCCESS)\<rbrakk> \<Longrightarrow> valid_proof K r (Address r) (own_key K s)"
  by (auto simp: CheckPOR_def own_key_def intro: PoR_accepted)

lemma apiRegister_effect:
  assumes "peer_apiRegister C K uuid req mb s = (x, mb', s')"
  shows "(s' = s \<or> (\<exists>a q. RegisterAgentAddress K a s = (q, s')))
    \<and> (mb' = mb \<or> (\<exists>r. mb' = register_commit r uuid mb \<and> valid_proof K r (Address r) (own_key K s)))"
proof (cases "mb' = mb \<and> s' = s")
  case False
  then obtain body r where body: "http_Method req = ''POST''" "http_Body req = Inr body" "body \<noteq> []" "rec_Unmarshal C body = Inr r"
    using assms by (auto simp: peer_apiRegister_def apiRegister_def split: if_splits sum.splits)
  with False assms obtain st where v: "CheckPOR K (Some r) s = Ok (st, None)" "Code st = SUCCESS"
    by (auto simp: peer_apiRegister_def apiRegister_def split: res.splits if_splits)
  have "valid_proof K r (Address r) (own_key K s)" using CheckPOR_accepted [OF v(1)] v(2) by simp
  moreover have "(mb' = mb \<or> mb' = register_commit r uuid mb) \<and> (s' = s \<or> (\<exists>q. RegisterAgentAddress K (Address r) s = (q, s')))"
    using assms body v by (auto simp: peer_apiRegister_def apiRegister_def split: res.splits if_splits prod.splits)
  ultimately show ?thesis by blast
qed simp

lemma apiRegister_same:
  assumes "peer_apiRegister C K uuid req mb s = (x, mb', s')"
  shows "same_records s s'"
  using apiRegister_effect [OF assms] RegisterAgentAddress_same by (auto simp: same_records_refl)

lemma apiRegister_proven:
  assumes "proven C K s" and "mailboxServer s = Some mb" and "peer_apiRegister C K uuid req mb s = (x, mb', s')"
  shows "proven C K (s'\<lparr>mailboxServer := Some mb'\<rparr>)"
  using apiRegister_effect [OF assms(3)] apiRegister_same [OF assms(3)]
  by (intro proven_mailbox [OF assms(1) _ assms(2)]) (auto simp: register_commit_def split: if_splits)

lemma apiSendEnvelope_cases:
  assumes "mailboxServer s = Some mb" and "peer_apiSendEnvelope C K req mb s = (x, mb', s')"
  shows "s'\<lparr>mailboxServer := Some mb'\<rparr> = s \<or> (\<exists>e r. RouteEnvelope C K e s = (r, s'\<lparr>mailboxServer := Some mb'\<rparr>))"
proof -
  have eta: "s\<lparr>mailboxServer := Some mb\<rparr> = s" using assms(1) by simp
  consider "mb' = mb" "s' = s" | e r where "RouteEnvelope C K e s = (r, s')"
      "mb' = (case mailboxServer s' of Some mb2 \<Rightarrow> mb2 | None \<Rightarrow> mb)"
    using assms(2) unfolding peer_apiSendEnvelope_def apiSendEnvelope_def
    by (auto simp: eta split: if_splits res.splits option.splits sum.splits prod.splits)
  then show ?thesis
  proof cases
    case 1
    with eta show ?thesis by simp
  next
    case 2
    then obtain mb2 where "mailboxServer s' = Some mb2" using RouteEnvelope_same [OF 2(1)] assms(1) by (auto simp: same_records_def)
    then have "s'\<lparr>mailboxServer := Some mb'\<rparr> = s'" using 2(2) by simp
    with 2(1) show ?thesis by metis
  qed
qed

lemma apiSendEnvelope_effect:
  assumes "mailboxServer s = Some mb" and "peer_apiSendEnvelope C K req mb s = (x, mb', s')"
  shows "same_records s (s'\<lparr>mailboxServer := Some mb'\<rparr>)"
  using apiSendEnvelope_cases [OF assms] RouteEnvelope_same same_records_refl by metis

section \<open>Construction and the store\<close>

lemma load_records_from:
  assumes "codec_ok C" and "list_all2 (\<lambda>r b. rec_Marshal C r = Inr b \<and> length b \<le> MaxInt32) rs fs"
    and "load_records C K (concat (map frame fs)) n recs addrs = (x, recs', addrs')" and "recs' a = Some r"
  shows "recs a = Some r \<or> (r \<in> set rs \<and> Address r = a)"
  using assms(2,3,4)
proof (induction rs fs arbitrary: n recs addrs rule: list_all2_induct)
  case Nil
  then show ?case by (simp add: load_records.simps)
next
  case (Cons q rs b fs)
  show ?case
  proof (cases "IDFromFetchAIPublicKey K (PeerPublicKey q)")
    case (Inl e)
    have "take 4 (frame b @ rest) = PutUint32 (of_nat (length b))" "drop 4 (frame b @ rest) = b @ rest" for rest
      by (simp_all add: frame_def)
    then have "recs' = recs(Address q \<mapsto> q)"
      using Cons.prems(1) Cons.hyps(1) Inl codec_rec [OF assms(1), of q b] frame_size [of b]
      by (subst (asm) load_records.simps) (simp add: parsePersistentStorageLine_def Let_def)
    with Cons.prems(2) show ?thesis by (auto split: if_splits)
  next
    case (Inr p)
    have "load_records C K (concat (map frame fs)) (Suc n) (recs(Address q \<mapsto> q)) (addrs(Address q \<mapsto> peer_String K p))
        = (x, recs', addrs')"
      using Cons.prems(1) load_frame [OF assms(1), of q b K p] Cons.hyps(1) Inr by simp
    from Cons.IH [OF this Cons.prems(2)] show ?thesis by (auto split: if_splits)
  qed
qed

lemma storage_init_keeps:
  assumes "initAgentRecordPersistentStorage C K opened s = (x, s')"
  shows "cfg s' = cfg s" "mailboxServer s' = mailboxServer s"
  using assms by (auto simp: initAgentRecordPersistentStorage_def split: sum.splits prod.splits)

lemma storage_init_proven:
  assumes "codec_ok C" and "stored C K bs" and "peerRecords s = Map.empty"
    and "initAgentRecordPersistentStorage C K (Inr bs) s = (x, s')"
  shows "file_bytes (storage s') = bs \<and> (\<forall>a r. peerRecords s' a = Some r \<longrightarrow> valid_proof K r a (PeerPublicKey r))"
proof -
  obtain rs fs where rs: "bs = concat (map frame fs)"
      "list_all2 (\<lambda>r b. rec_Marshal C r = Inr b \<and> length b \<le> MaxInt32) rs fs"
      "\<forall>r \<in> set rs. valid_proof K r (Address r) (PeerPublicKey r)"
    using assms(2) by (auto simp: stored_def)
  obtain y recs addrs where l: "load_records C K bs 0 Map.empty (dhtAddresses s) = (y, recs, addrs)"
    by (metis prod_cases3)
  have "valid_proof K r a (PeerPublicKey r)" if "recs a = Some r" for a r
    using load_records_from [OF assms(1) rs(2) l [unfolded rs(1)] that] rs(3) by auto
  with assms(3,4) l show ?thesis by (auto simp: initAgentRecordPersistentStorage_def)
qed

text \<open>The own record of a configuration is filed under the agent's own address.\<close>

definition own_record_addressed :: "PeerConfig \<Rightarrow> bool" where
  "own_record_addressed c \<longleftrightarrow> (\<forall>r. myAgentRecord c = Some r \<longrightarrow> Address r = myAgentAddress c)"

lemma apply_option_addressed:
  "\<lbrakk>apply_option K L opt c = Ok c'; own_record_addressed c\<rbrakk> \<Longrightarrow> own_record_addressed c'"
  by (auto simp: apply_option_def own_record_addressed_def copy_record_def
      split: PeerOption.splits sum.splits prod.splits)

lemma apply_options_addressed:
  "\<lbrakk>apply_options K L opts c = Ok c'; own_record_addressed c\<rbrakk> \<Longrightarrow> own_record_addressed c'"
  by (induction opts arbitrary: c) (auto dest: apply_option_addressed)

lemma New_checks_proven:
  assumes "New_checks K c = Ok ()" and "own_record_addressed c" and "cfg s = c" and "myAgentRecord c = Some r"
  shows "valid_proof K r (myAgentAddress c) (own_key K s)"
proof -
  obtain st where "IsValidProofOfRepresentation K (Some r) (Address r) (own_key K s) = Ok (st, None)" "Code st = SUCCESS"
    using assms(1,3,4) by (auto simp: New_checks_def own_key_def Let_def split: if_splits res.splits sum.splits)
  with PoR_accepted have "valid_proof K r (Address r) (own_key K s)" by fastforce
  with assms(2,4) show ?thesis by (simp add: own_record_addressed_def)
qed

lemma notify_peers_same: "notify_peers ps s = (r, s') \<Longrightarrow> same_records s s'"
proof (induction ps arbitrary: s)
  case (Cons p ps)
  obtain x s1 where n: "host_NewStream s = (x, s1)" by (cases "host_NewStream s")
  have log: "same_records s (log_stream p AeaNotifStream st s1)" for st
    using n by (auto simp: host_NewStream_def log_stream_def same_records_def split: prod.splits)
  have "same_records s s1" using n by (auto simp: host_NewStream_def same_records_def split: prod.splits)
  with Cons n log show ?case
    by (auto split: sum.splits prod.splits res.splits intro: same_records_trans)
qed simp

lemma New_services_records:
  assumes "New_services K su sig s = (Ok u, s')" and "mailboxServer s = None"
  shows "peerRecords s' = peerRecords s \<and> cfg s' = cfg s \<and> file_bytes (storage s') = file_bytes (storage s)
    \<and> (\<forall>m. map_option agentRecords (mailboxServer s') = Some m \<longrightarrow> m = Map.empty)"
proof -
  let ?t = "s\<lparr>enableAddressAnnouncement := True\<rparr>" and ?me = "myAgentAddress (cfg s)"
  let ?x = "if bootstrapPeers (cfg s) \<noteq> []
    then if ?me \<noteq> [] \<and> \<not> IsAddressAnnounced ?me ?t then RegisterAgentAddress K ?me ?t else (Ok (), ?t) else (Ok (), s)"
  obtain q t where x: "?x = (q, t)" by (cases ?x)
  have "same_records s t"
    using x RegisterAgentAddress_same [of K ?me ?t q t] by (auto simp: same_records_def split: if_splits)
  moreover have "s' = (if mailboxHostPort (cfg t) \<noteq> []
      then t\<lparr>mailboxServer := Some (mailbox_start (mailboxHostPort (cfg t)) sig)\<rparr> else t)"
    using assms(1) unfolding New_services_def Let_def x by (auto simp: launchMailboxService_def split: if_splits res.splits)
  ultimately show ?thesis using assms(2) by (auto simp: same_records_def mailbox_start_def)
qed

text \<open>The stages of a successful construction.\<close>

lemma New_stages:
  assumes "New C K L su opts g w = Ok s"
  obtains c sig s0 n s2 u where "apply_options K L opts zero_config = Ok c" "New_checks K c = Ok ()"
    "notify_peers (bootstrapPeers c) (fresh_peer c g w) = (Ok (), s0)"
    "initAgentRecordPersistentStorage C K (pn_OpenFile su (storage_path K c))
      (s0\<lparr>cfg := c\<lparr>persistentStoragePath := storage_path K c\<rparr>\<rparr>) = (Ok n, s2)"
    "New_services K su sig (if bootstrapPeers c \<noteq> [] then announce_all K (pn_order su) s2 else s2) = (Ok u, s)"
  using assms unfolding New_def
  by (auto simp: Let_def split: option.splits sum.splits prod.splits res.splits if_splits)

lemma New_proven:
  assumes "codec_ok C" and "New C K L su opts g w = Ok s" and "\<forall>path bs. pn_OpenFile su path = Inr bs \<longrightarrow> stored C K bs"
  shows "proven C K s"
  using assms(2)
proof (rule New_stages)
  fix c sig s0 n s2 u
  assume opts: "apply_options K L opts zero_config = Ok c" and checks: "New_checks K c = Ok ()"
    and notified: "notify_peers (bootstrapPeers c) (fresh_peer c g w) = (Ok (), s0)"
    and init: "initAgentRecordPersistentStorage C K (pn_OpenFile su (storage_path K c))
      (s0\<lparr>cfg := c\<lparr>persistentStoragePath := storage_path K c\<rparr>\<rparr>) = (Ok n, s2)" (is "_ = (Ok n, s2)")
    and services: "New_services K su sig (if bootstrapPeers c \<noteq> [] then announce_all K (pn_order su) s2 else s2) = (Ok u, s)"
  let ?s1 = "s0\<lparr>cfg := c\<lparr>persistentStoragePath := storage_path K c\<rparr>\<rparr>"
  let ?s3 = "if bootstrapPeers c \<noteq> [] then announce_all K (pn_order su) s2 else s2"
  have s1: "peerRecords ?s1 = Map.empty" "mailboxServer ?s1 = None"
    using notify_peers_same [OF notified] by (auto simp: same_records_def fresh_peer_def)
  obtain bs where bs: "pn_OpenFile su (storage_path K c) = Inr bs"
    using init by (auto simp: initAgentRecordPersistentStorage_def split: sum.splits)
  have "stored C K bs" using assms(3) bs by blast
  note loaded = storage_init_proven [OF assms(1) this s1(1) init [unfolded bs]]
  have 3: "same_records s2 ?s3" by (simp add: announce_all_same)
  have "mailboxServer ?s3 = None" using 3 storage_init_keeps(2) [OF init] s1(2) by (auto simp: same_records_def)
  note sv = New_services_records [OF services this]
  have cfg: "cfg s = c\<lparr>persistentStoragePath := storage_path K c\<rparr>"
    using sv 3 storage_init_keeps(1) [OF init] by (simp add: same_records_def)
  have "own_record_addressed c"
    using apply_options_addressed [OF opts] by (simp add: own_record_addressed_def zero_config_def)
  from New_checks_proven [OF checks this, of "fresh_peer c g w"] cfg
  have own: "valid_proof K r (myAgentAddress (cfg s)) (own_key K s)" if "myAgentRecord (cfg s) = Some r" for r
    using that by (simp add: own_key_def fresh_peer_def)
  have "peerRecords s = peerRecords s2" "file_bytes (storage s) = bs"
    using sv 3 loaded by (simp_all add: same_records_def)
  with sv own loaded \<open>stored C K bs\<close> show ?thesis by (auto simp: proven_def)
qed

section \<open>Critical sections\<close>

text \<open>The sections that enter a record, by what was checked before them.\<close>

lemma relay_checked:
  assumes "IsValidProofOfRepresentation K (Some rec) (Address rec) k = Ok (status, None)" and "Code status = SUCCESS"
  shows "valid_proof K rec (Address rec) (PeerPublicKey rec)"
  using PoR_accepted [OF assms(1)] assms(2) valid_proof_key [of K rec "Address rec" k] by auto

lemma delegate_checked:
  assumes "CheckPOR K (Some rec) s = Ok (status, None)" and "Code status = SUCCESS"
  shows "valid_proof K rec (Address rec) (own_key K s)" and "valid_proof K rec (Address rec) (PeerPublicKey rec)"
  using CheckPOR_accepted [OF assms(1)] assms(2) valid_proof_key [of K rec "Address rec" "own_key K s"] by auto

lemma register_record_proven:
  "\<lbrakk>proven C K s; valid_proof K rec (Address rec) k\<rbrakk> \<Longrightarrow> proven C K (register_record rec s)"
  by (rule proven_add_record) (simp_all add: section_defs proven_def)

lemma register_relay_proven:
  assumes "proven C K s" and "\<forall>r b. rec_Marshal C r = Inr b \<longrightarrow> length b \<le> MaxInt32"
    and "valid_proof K rec (Address rec) (PeerPublicKey rec)"
  shows "proven C K (register_relay C rec p s)"
  using assms(1) stored_save [OF _ assms(2,3), of "storage s"] by (simp add: section_defs proven_def own_key_def)

text \<open>All the others leave the records alone.\<close>

lemma section_cases:
  assumes "peer_section C K s s'"
  obtains (entered) rec k where "s' = register_record rec s" and "valid_proof K rec (Address rec) k"
  | (relay) rec p where "s' = register_relay C rec p s" and "valid_proof K rec (Address rec) (PeerPublicKey rec)"
      and "peerRecords s (Address rec) \<noteq> None"
  | (mailbox) mb rec uuid where "mailboxServer s = Some mb" and "s' = s\<lparr>mailboxServer := Some (register_commit rec uuid mb)\<rparr>"
      and "valid_proof K rec (Address rec) (own_key K s)"
  | (same) "same_records s s'"
  using assms
proof cases
  case sec_relay_record
  then show ?thesis using entered relay_checked by blast
next
  case sec_relay_entry
  then show ?thesis using relay relay_checked by blast
next
  case sec_delegate_record
  then show ?thesis using entered delegate_checked(2) by blast
next
  case sec_mailbox_register
  then show ?thesis using mailbox delegate_checked(1) by blast
next
  case (sec_status_wait addr r)
  then show ?thesis using same routing_same AwaitAcnStatus_frame by blast
next
  case (sec_mailbox_route mb e ok mb')
  then have "agentRecords mb' = agentRecords mb"
    by (auto simp: mailbox_RouteEnvelope_def Let_def split: option.splits if_splits)
  with sec_mailbox_route show ?thesis by (intro same) (simp add: same_records_def)
next
  case sec_pair_send
  then show ?thesis by (intro same) (auto simp: send_pair_def split: prod.splits)
next
  case sec_status_add
  then show ?thesis using same AddAcnStatusMessage_same by blast
next
  case sec_close_file
  then show ?thesis by (intro same) (auto simp: closeAgentRecordPersistentStorage_def same_records_def)
qed (auto intro!: same simp: section_defs setAddressAnnounced_def close_pairs_def close_slow_queue_def same_records_def)

lemma section_proven:
  assumes "peer_section C K s s'" and "proven C K s" and "\<forall>r b. rec_Marshal C r = Inr b \<longrightarrow> length b \<le> MaxInt32"
  shows "proven C K s'"
  using assms(1)
proof (cases rule: section_cases)
  case (entered rec k)
  then show ?thesis using register_record_proven [OF assms(2)] by blast
next
  case (relay rec p)
  then show ?thesis using register_relay_proven [OF assms(2,3)] by blast
next
  case (mailbox mb rec uuid)
  show ?thesis
    unfolding mailbox(2) by (rule proven_mailbox [OF assms(2) same_records_refl mailbox(1)])
      (use mailbox(3) in \<open>auto simp: register_commit_def\<close>)
qed (rule proven_same [OF assms(2)])

section \<open>Every reachable peer\<close>

lemma apiGetEnvelope_records: "apiGetEnvelope C written req mb = (r, mb') \<Longrightarrow> agentRecords mb' = agentRecords mb"
  by (auto simp: apiGetEnvelope_def split: if_splits res.splits option.splits prod.splits list.splits sum.splits)

lemma peer_step_proven:
  assumes "peer_step C K s s'" and "proven C K s" and "\<forall>r b. rec_Marshal C r = Inr b \<longrightarrow> length b \<le> MaxInt32"
  shows "proven C K s'"
  using assms(1)
proof cases
  case step_section
  then show ?thesis using section_proven assms(2,3) by blast
next
  case step_register
  then show ?thesis using register_proven assms(2,3) by blast
next
  case step_delegate_register
  then show ?thesis using delegate_register_proven assms(2) by blast
next
  case step_mailbox_register
  then show ?thesis using apiRegister_proven [OF assms(2)] by blast
next
  case (step_mailbox_unregister mb sid addr)
  then show ?thesis
    using proven_mailbox [OF assms(2) same_records_refl] by (auto simp: unregister_commit_def split: if_splits)
next
  case (step_mailbox_get mb written req r mb')
  then show ?thesis
    using proven_mailbox [OF assms(2) same_records_refl] apiGetEnvelope_records by metis
next
  case step_mailbox_send
  then show ?thesis using apiSendEnvelope_effect proven_same [OF assms(2)] by blast
qed (auto intro!: proven_same [OF assms(2)] dest: same_records accept_loop_same simp: same_records_def ProcessEnvelope_def)

lemma stored_empty: "stored C K []"
  unfolding stored_def by (intro exI [of _ "[]"]) simp

lemma reachable_proven:
  assumes "peer_reachable C K s" and "codec_ok C" and "\<forall>r b. rec_Marshal C r = Inr b \<longrightarrow> length b \<le> MaxInt32"
  shows "proven C K s"
  using assms(1)
proof induction
  case (peer_new L pn opts g w s)
  then show ?case using New_proven [OF assms(2)] stored_empty by metis
next
  case (peer_again s0 L pn opts g w s)
  then have "stored C K (file_bytes (storage s0))" by (simp add: proven_def)
  with peer_again show ?case using New_proven [OF assms(2)] by metis
next
  case (peer_next s s')
  then show ?case using peer_step_proven assms(3) by blast
qed

section \<open>Properties of a peer's life\<close>

text \<open>C2: Whatever handlers and loops have run, in whatever order, and however often the peer was stopped and
  started again on its store: every record it answers lookups with is filed under its own address and carries
  a valid proof for the peer key it names; every record of its mailbox and the record of its own agent carries
  a proof valid for the peer's own key; and every record that the next start will load from the store is
  proven as well, although loading checks nothing.\<close>

theorem peer_records_proven:
  assumes "peer_reachable C K s" and "codec_ok C" and "\<forall>r b. rec_Marshal C r = Inr b \<longrightarrow> length b \<le> MaxInt32"
  shows "(\<forall>a r. peerRecords s a = Some r \<longrightarrow> valid_proof K r a (PeerPublicKey r))
    \<and> (\<forall>mb a r. mailboxServer s = Some mb \<longrightarrow> agentRecords mb a = Some r \<longrightarrow> valid_proof K r a (own_key K s))
    \<and> (\<forall>r. myAgentRecord (cfg s) = Some r \<longrightarrow> valid_proof K r (myAgentAddress (cfg s)) (own_key K s))
    \<and> (\<forall>t x t' a r. peerRecords t = Map.empty \<longrightarrow>
        initAgentRecordPersistentStorage C K (Inr (file_bytes (storage s))) (t :: 'g DHTPeer) = (x, t') \<longrightarrow>
        peerRecords t' a = Some r \<longrightarrow> valid_proof K r a (PeerPublicKey r))"
proof -
  have p: "proven C K s" by (rule reachable_proven [OF assms])
  then have f: "stored C K (file_bytes (storage s))" by (simp add: proven_def)
  from p have "\<forall>a r. peerRecords s a = Some r \<longrightarrow> valid_proof K r a (PeerPublicKey r)"
    and "\<forall>mb a r. mailboxServer s = Some mb \<longrightarrow> agentRecords mb a = Some r \<longrightarrow> valid_proof K r a (own_key K s)"
    and "\<forall>r. myAgentRecord (cfg s) = Some r \<longrightarrow> valid_proof K r (myAgentAddress (cfg s)) (own_key K s)"
    by (simp_all add: proven_def)
  with storage_init_proven [OF assms(2) f] show ?thesis by blast
qed

definition ex_life_codec :: codec where
  "ex_life_codec = table_codec [(Status (Some \<lparr>Code = SUCCESS, Msgs = []\<rparr>), [4]), (Register (Some (ex_record 66 2)), [6])]
     [] [(ex_record 66 2, [9])]"

definition ex_maddr :: maddr_lib where
  "ex_maddr = \<lparr>NewMultiaddr = Inr, AddrInfoFromP2pAddr = Inr\<rparr>"

definition ex_options :: "PeerOption list" where
  "ex_options = [LocalURI ''127.0.0.1'' 9000, PublicURI ''localhost'' 9000, IdentityFromFetchAIKey (ex_key 7), EnableRelayService,
     RegisterAgentAddressOpt (ex_record 65 7), StoreRecordsTo ''store'', EnableMailboxService ''localhost:8888'']"

definition ex_x509 :: x509_lib where
  "ex_x509 = \<lparr>x_GenerateKey = Inr [1], x_CreateCertificate = Inr, x_pem_Encode = (\<lambda>_. Inr), x_MarshalECPrivateKey = Inr,
     x_X509KeyPair = (\<lambda>_. Inr), x_ECDH = Inr\<rparr>"

definition ex_setup :: "bytes \<Rightarrow> peer_setup" where
  "ex_setup bs = \<lparr>pn_libp2p = None, pn_kaddht = None, pn_x509 = ex_x509, pn_connect = [], pn_found = (\<lambda>_. True), pn_Bootstrap = None,
     pn_OpenFile = (\<lambda>_. Inr bs), pn_order = [], pn_Listen = (\<lambda>_. None)\<rparr>"

lemma ex_key_pair: "KeyPairFromFetchAIKey ex_crypto (ex_key b) = Inr (unat b, 0, unat b)"
  by (simp add: KeyPairFromFetchAIKey_def) (simp add: ex_crypto_def SetBytes_def)

lemma ex_copy_record: "copy_record (ex_record b p) = ex_record b p"
  by (simp add: copy_record_def ex_record_def)

lemma ex_options_accepted:
  "\<exists>c. apply_options ex_crypto ex_maddr ex_options zero_config = Ok c \<and> New_checks ex_crypto c = Ok ()
    \<and> bootstrapPeers c = [] \<and> delegatePort c = 0"
proof -
  have "IsValidProofOfRepresentation ex_crypto (Some (ex_record 65 7)) ''cosmosA'' (ex_key 7)
      = Ok (\<lparr>Code = SUCCESS, Msgs = []\<rparr>, None)"
    using PoR_valid [OF ex_valid [of 65 7]] by simp
  then show ?thesis
    by (simp add: ex_options_def apply_option_def ex_maddr_def ex_key_pair ex_copy_record New_checks_def ex_pubkey
        zero_config_def)
qed

lemma ex_session_signature:
  assumes "New_checks ex_crypto c = Ok ()"
  shows "makeSSLCertifiateAndSignature ex_crypto ex_x509 (peer_key c) = Ok (asn1_Marshal_RS 1 1)"
proof -
  obtain sk where "peer_key c = Some sk" using assms by (cases "peer_key c") (auto simp: New_checks_def)
  then show ?thesis
    by (simp add: makeSSLCertifiateAndSignature_def generate_x509_cert_def makeSessionKeySignature_def ex_x509_def ex_crypto_def)
qed

lemma ex_New:
  assumes "load_records C ex_crypto bs 0 Map.empty Map.empty = (Ok n, recs, addrs)"
  shows "\<exists>s. New C ex_crypto ex_maddr (ex_setup bs) ex_options ([] :: Envelope list) (ex_net [] []) = Ok s
    \<and> peerRecords s = recs \<and> storage s = \<lparr>file_bytes = bs, file_error = None\<rparr>"
proof -
  obtain c where c: "apply_options ex_crypto ex_maddr ex_options zero_config = Ok c" "New_checks ex_crypto c = Ok ()"
      "bootstrapPeers c = []" "delegatePort c = 0"
    using ex_options_accepted by blast
  with assms ex_session_signature [OF c(2)] show ?thesis
    by (simp add: New_def New_services_def launchMailboxService_def ex_setup_def initAgentRecordPersistentStorage_def fresh_peer_def Let_def)
qed

lemma ex_life_codec_ok: "codec_ok ex_life_codec"
  unfolding ex_life_codec_def by (intro codec_ok_table) simp_all

lemma ex_life_codec_laws:
  "\<forall>r b. rec_Marshal ex_life_codec r = Inr b \<longrightarrow> length b \<le> MaxInt32"
  "carries ex_life_codec (Register (Some (ex_record 66 2))) [6]" "success_message ex_life_codec [4]"
  "rec_Marshal ex_life_codec (ex_record 66 2) = Inr [9]" "length [9 :: byte] \<le> MaxInt32"
  by (auto simp: ex_life_codec_def table_codec_def MaxInt32_def carries_def success_message_def
      maxMessageSizeDelegateConnection_def split: if_splits)

lemma ex_life_read:
  "\<exists>st1. ReadAgentRegistrationMessage ex_life_codec StreamPipe (ex_stream [frame [6]] 2) = (Ok (Some (ex_record 66 2)), st1)"
proof -
  have "stream_arriving (ex_stream [frame [6]] 2) [6]" by (simp add: stream_arriving_def)
  from stream_pipe.register_received [OF ex_life_codec_ok ex_life_codec_laws(2) this] show ?thesis by (metis prod.collapse)
qed

text \<open>A client registers with a peer that has just been started; the peer is stopped and started again, and still
  has the record.\<close>

lemma ex_life:
  "\<exists>(s :: Envelope list DHTPeer) st' s' (t :: Envelope list DHTPeer). New ex_life_codec ex_crypto ex_maddr (ex_setup []) ex_options [] (ex_net [] []) = Ok s
    \<and> storage s = \<lparr>file_bytes = [], file_error = None\<rparr>
    \<and> handleAeaRegisterStream ex_life_codec ex_crypto (ex_stream [frame [6]] 2) s = (Ok (), st', s')
    \<and> file_bytes (storage s') = frame [9]
    \<and> New ex_life_codec ex_crypto ex_maddr (ex_setup (frame [9])) ex_options [] (ex_net [] []) = Ok t
    \<and> peerRecords t ''cosmosB'' = Some (ex_record 66 2)"
proof -
  note ok = ex_life_codec_ok and m = ex_life_codec_laws(2,3) and r = ex_life_codec_laws(4,5)
  have "load_records ex_life_codec ex_crypto [] 0 Map.empty Map.empty = (Ok 0, Map.empty, Map.empty)"
    by (simp add: load_records.simps)
  from ex_New [OF this] obtain s where s: "New ex_life_codec ex_crypto ex_maddr (ex_setup []) ex_options ([] :: Envelope list)
      (ex_net [] []) = Ok s" "peerRecords s = Map.empty" "storage s = \<lparr>file_bytes = [], file_error = None\<rparr>"
    by blast
  from register_stream_complete [OF ok m(1) _ _ m(2) ex_proof_2, of "[frame [6]]" "[]" s]
  obtain st' s' where s': "handleAeaRegisterStream ex_life_codec ex_crypto (ex_stream [frame [6]] 2) s = (Ok (), st', s')"
      "peerRecords s' = (peerRecords s)(''cosmosB'' \<mapsto> ex_record 66 2)"
    by auto
  have "s' \<noteq> s" using s'(2) s(2) by (metis fun_upd_same option.distinct(1))
  from register_stream_sound [OF s'(1) this] obtain rec where
      "peerRecords s' = (peerRecords s)(Address rec \<mapsto> rec)" "storage s' = snd (saveAgentRecordToPersistentStorage ex_life_codec rec (storage s))"
    by blast
  moreover from this(1) s'(2) s(2) have "rec = ex_record 66 2" by (metis fun_upd_def option.inject option.distinct(1))
  ultimately have f: "file_bytes (storage s') = frame [9]"
    using s(3) r(1) by (simp add: saveAgentRecordToPersistentStorage_def formatPersistentStorageLine_def frame_def Let_def)
  have "load_records ex_life_codec ex_crypto (frame [9]) 0 Map.empty Map.empty
      = (Ok 1, Map.empty(''cosmosB'' \<mapsto> ex_record 66 2), Map.empty(''cosmosB'' \<mapsto> replicate 2 CHR ''p''))"
    using load_frame [OF ok r, of ex_crypto _ "[]" 0] by (simp add: ex_peer load_records.simps)
  from ex_New [OF this] obtain t where t: "New ex_life_codec ex_crypto ex_maddr (ex_setup (frame [9])) ex_options
      ([] :: Envelope list) (ex_net [] []) = Ok t" "peerRecords t ''cosmosB'' = Some (ex_record 66 2)"
    by auto
  show ?thesis
    by (rule exI [of _ s], rule exI [of _ st'], rule exI [of _ s'], rule exI [of _ t]) (simp add: s(1,3) s'(1) f t)
qed

lemma peer_records_proven_witness:
  "\<exists>s :: Envelope list DHTPeer. peer_reachable ex_life_codec ex_crypto s \<and> peerRecords s ''cosmosB'' = Some (ex_record 66 2)
    \<and> valid_proof ex_crypto (ex_record 66 2) ''cosmosB'' (ex_key 2)"
proof -
  obtain s s' t :: "Envelope list DHTPeer" and st' where
      s: "New ex_life_codec ex_crypto ex_maddr (ex_setup []) ex_options [] (ex_net [] []) = Ok s"
      "handleAeaRegisterStream ex_life_codec ex_crypto (ex_stream [frame [6]] 2) s = (Ok (), st', s')"
      "file_bytes (storage s') = frame [9]"
      "New ex_life_codec ex_crypto ex_maddr (ex_setup (frame [9])) ex_options [] (ex_net [] []) = Ok t"
      "peerRecords t ''cosmosB'' = Some (ex_record 66 2)"
    using ex_life by blast
  have "peer_reachable ex_life_codec ex_crypto s'"
    by (rule peer_next [OF peer_new [OF s(1)] step_register [OF s(2)]]) (simp add: ex_setup_def)
  then have "peer_reachable ex_life_codec ex_crypto t"
    by (rule peer_again [OF _ s(4)]) (simp add: ex_setup_def s(3))
  from this s(5) conjunct1 [OF peer_records_proven [OF this ex_life_codec_ok ex_life_codec_laws(1)]] show ?thesis by fastforce
qed

end
