(* ===== verification/Directory.thy ===== *)
theory Directory
  imports PeerLife
begin

text \<open>
  What a peer is to the agents that register with it, without its queues, streams and connections: a directory of
  records. The directory has three parts: the entries that lookups are answered from, the mailboxes, and the journal
  that survives a restart. A record comes in with a proof only; an entry never goes away while the peer runs;
  a restart forgets the mailboxes and reads the entries back from the journal, a later entry for an address
  replacing an earlier one.

  The theorem is a forward simulation: every step of a peer, a critical section, a whole handler or a turn of a loop, is a
  sequence of steps of the directory, and every construction of a peer is a start of the directory. Since a
  relay registration enters the record and journals it in two critical sections, these are two steps of the
  directory as well: the journal may be behind, and two registrations of one address that run at the same time
  may be journalled in the other order. The abstraction of the store is its sequence of frames.
\<close>

section \<open>The directory\<close>

record directory =
  dir_key :: string
  entries :: "address \<rightharpoonup> AgentRecord"
  mailboxes :: "address \<rightharpoonup> AgentRecord"
  journal :: "AgentRecord list"

text \<open>The entries of a journal.\<close>

definition replay :: "AgentRecord list \<Rightarrow> address \<rightharpoonup> AgentRecord" where
  "replay rs = fold (\<lambda>r m. m(Address r \<mapsto> r)) rs Map.empty"

text \<open>An entry comes with a proof for the key of the peer that vouches for it, a mailbox with a proof for the key of this
  peer. A record is journalled when it is proven and its address has an entry.\<close>

inductive dir_step :: "crypto \<Rightarrow> directory \<Rightarrow> directory \<Rightarrow> bool" for K :: crypto where
  dir_enter: "valid_proof K r (Address r) (PeerPublicKey r) \<Longrightarrow> dir_step K d (d\<lparr>entries := (entries d)(Address r \<mapsto> r)\<rparr>)"
| dir_journal: "\<lbrakk>valid_proof K r (Address r) (PeerPublicKey r); entries d (Address r) \<noteq> None\<rbrakk> \<Longrightarrow>
    dir_step K d (d\<lparr>journal := journal d @ [r]\<rparr>)"
| dir_open: "valid_proof K r (Address r) (dir_key d) \<Longrightarrow> dir_step K d (d\<lparr>mailboxes := (mailboxes d)(Address r \<mapsto> r)\<rparr>)"
| dir_leave: "dir_step K d (d\<lparr>mailboxes := (mailboxes d)(a := None)\<rparr>)"

abbreviation dir_steps :: "crypto \<Rightarrow> directory \<Rightarrow> directory \<Rightarrow> bool" where
  "dir_steps K \<equiv> (dir_step K)\<^sup>*\<^sup>*"

text \<open>A life with an empty journal, or with what the life before left in it.\<close>

inductive dir_reachable :: "crypto \<Rightarrow> directory \<Rightarrow> bool" for K :: crypto where
  dir_new: "dir_reachable K \<lparr>dir_key = k, entries = Map.empty, mailboxes = Map.empty, journal = []\<rparr>"
| dir_again: "dir_reachable K d \<Longrightarrow>
    dir_reachable K \<lparr>dir_key = k, entries = replay (journal d), mailboxes = Map.empty, journal = journal d\<rparr>"
| dir_next: "\<lbrakk>dir_reachable K d; dir_step K d d'\<rbrakk> \<Longrightarrow> dir_reachable K d'"

lemma dir_reachable_steps: "\<lbrakk>dir_steps K d d'; dir_reachable K d\<rbrakk> \<Longrightarrow> dir_reachable K d'"
  by (induction rule: rtranclp_induct) (auto intro: dir_next)

text \<open>A registration that reaches the journal, in one go.\<close>

lemma dir_enter_journal:
  assumes "valid_proof K r (Address r) (PeerPublicKey r)"
  shows "dir_steps K d (d\<lparr>entries := (entries d)(Address r \<mapsto> r), journal := journal d @ [r]\<rparr>)"
proof -
  let ?d = "d\<lparr>entries := (entries d)(Address r \<mapsto> r)\<rparr>"
  have "dir_step K d ?d" by (rule dir_enter [OF assms])
  moreover have "dir_step K ?d (?d\<lparr>journal := journal ?d @ [r]\<rparr>)" by (rule dir_journal [OF assms]) simp
  ultimately show ?thesis by simp
qed

section \<open>A peer as a directory\<close>

text \<open>The frames of a store, one per record.\<close>

definition journalled :: "codec \<Rightarrow> AgentRecord list \<Rightarrow> bytes \<Rightarrow> bool" where
  "journalled C rs bs \<longleftrightarrow>
     (\<exists>fs. bs = concat (map frame fs) \<and> list_all2 (\<lambda>r b. rec_Marshal C r = Inr b \<and> length b \<le> MaxInt32) rs fs)"

definition mailbox_records :: "'g DHTPeer \<Rightarrow> address \<rightharpoonup> AgentRecord" where
  "mailbox_records s = (case mailboxServer s of None \<Rightarrow> Map.empty | Some mb \<Rightarrow> agentRecords mb)"

definition implements :: "codec \<Rightarrow> crypto \<Rightarrow> directory \<Rightarrow> 'g DHTPeer \<Rightarrow> bool" where
  "implements C K d s \<longleftrightarrow>
     dir_key d = own_key K s \<and> entries d = peerRecords s \<and> mailboxes d = mailbox_records s
     \<and> journalled C (journal d) (file_bytes (storage s))"

lemma implements_same:
  assumes "implements C K d s" and "same_records s s'"
  shows "implements C K d s'"
proof -
  have "mailbox_records s' = mailbox_records s"
    using assms(2) by (auto simp: same_records_def mailbox_records_def map_option_case split: option.splits)
  with assms show ?thesis by (simp add: implements_def same_records_def own_key_def)
qed

section \<open>The journal\<close>

lemma journalled_append:
  "\<lbrakk>journalled C rs bs; rec_Marshal C r = Inr b; length b \<le> MaxInt32\<rbrakk> \<Longrightarrow> journalled C (rs @ [r]) (bs @ frame b)"
  unfolding journalled_def by (elim exE conjE, rule_tac x = "fs @ [b]" in exI) (auto intro: list_all2_appendI)

text \<open>What saving a record adds to the journal: the record, if it can be serialised and the disk is working.\<close>

definition saved :: "codec \<Rightarrow> AgentRecord \<Rightarrow> record_file \<Rightarrow> AgentRecord list" where
  "saved C r f = (if file_error f = None \<and> (\<exists>b. rec_Marshal C r = Inr b \<and> b \<noteq> []) then [r] else [])"

lemma journalled_save:
  assumes "journalled C rs (file_bytes f)" and "\<forall>r b. rec_Marshal C r = Inr b \<longrightarrow> length b \<le> MaxInt32"
  shows "journalled C (rs @ saved C r f) (file_bytes (snd (saveAgentRecordToPersistentStorage C r f)))"
  using assms journalled_append [OF assms(1), of r]
  by (auto simp: saveAgentRecordToPersistentStorage_def formatPersistentStorageLine_def saved_def frame_def [symmetric] Let_def
      split: sum.splits option.splits)

text \<open>Reading the store back is replaying the journal.\<close>

lemma load_records_replay:
  assumes "codec_ok C" and "list_all2 (\<lambda>r b. rec_Marshal C r = Inr b \<and> length b \<le> MaxInt32) rs fs"
    and "load_records C K (concat (map frame fs)) n recs addrs = (Ok m, recs', addrs')"
  shows "recs' = fold (\<lambda>r m. m(Address r \<mapsto> r)) rs recs"
  using assms(2,3)
proof (induction rs fs arbitrary: n recs addrs rule: list_all2_induct)
  case Nil
  then show ?case by (simp add: load_records.simps)
next
  case (Cons q rs b fs)
  show ?case
  proof (cases "IDFromFetchAIPublicKey K (PeerPublicKey q)")
    case (Inl e)
    have "take 4 (frame b @ rest) = PutUint32 (of_nat (length b))" "drop 4 (frame b @ rest) = b @ rest" for rest
      by (simp_all add: frame_def)
    then have False
      using Cons.prems(1) Cons.hyps(1) Inl codec_rec [OF assms(1), of q b] frame_size [of b]
      by (subst (asm) load_records.simps) (simp add: parsePersistentStorageLine_def Let_def)
    then show ?thesis ..
  next
    case (Inr p)
    have "load_records C K (concat (map frame fs)) (Suc n) (recs(Address q \<mapsto> q)) (addrs(Address q \<mapsto> peer_String K p))
        = (Ok m, recs', addrs')"
      using Cons.prems(1) load_frame [OF assms(1), of q b K p] Cons.hyps(1) Inr by simp
    from Cons.IH [OF this] show ?thesis by simp
  qed
qed

section \<open>Construction\<close>

lemma New_implements:
  assumes "codec_ok C" and "New C K L su opts g w = Ok s"
    and "\<forall>path bs. pn_OpenFile su path = Inr bs \<longrightarrow> journalled C rs bs"
  shows "implements C K \<lparr>dir_key = own_key K s, entries = replay rs, mailboxes = Map.empty, journal = rs\<rparr> s"
  using assms(2)
proof (rule New_stages)
  fix c sig s0 n s2 u
  assume notified: "notify_peers (bootstrapPeers c) (fresh_peer c g w) = (Ok (), s0)"
    and init: "initAgentRecordPersistentStorage C K (pn_OpenFile su (storage_path K c))
      (s0\<lparr>cfg := c\<lparr>persistentStoragePath := storage_path K c\<rparr>\<rparr>) = (Ok n, s2)"
    and services: "New_services K su sig (if bootstrapPeers c \<noteq> [] then announce_all K (pn_order su) s2 else s2) = (Ok u, s)"
  let ?s1 = "s0\<lparr>cfg := c\<lparr>persistentStoragePath := storage_path K c\<rparr>\<rparr>"
  let ?s3 = "if bootstrapPeers c \<noteq> [] then announce_all K (pn_order su) s2 else s2"
  have s1: "peerRecords ?s1 = Map.empty" "mailboxServer ?s1 = None"
    using notify_peers_same [OF notified] by (auto simp: same_records_def fresh_peer_def)
  obtain bs where bs: "pn_OpenFile su (storage_path K c) = Inr bs"
    using init by (auto simp: initAgentRecordPersistentStorage_def split: sum.splits)
  then obtain fs where fs: "bs = concat (map frame fs)" "list_all2 (\<lambda>r b. rec_Marshal C r = Inr b \<and> length b \<le> MaxInt32) rs fs"
    using assms(3) by (auto simp: journalled_def)
  obtain y recs addrs where l: "load_records C K bs 0 Map.empty (dhtAddresses ?s1) = (y, recs, addrs)" by (metis prod_cases3)
  have s2: "y = Ok n" "peerRecords s2 = recs" "file_bytes (storage s2) = bs"
    using init bs l s1(1) by (auto simp: initAgentRecordPersistentStorage_def)
  have "recs = replay rs"
    using load_records_replay [OF assms(1) fs(2)] l s2(1) fs(1) by (simp add: replay_def)
  have 3: "same_records s2 ?s3" by (simp add: announce_all_same)
  have "mailboxServer ?s3 = None" using 3 storage_init_keeps(2) [OF init] s1(2) by (auto simp: same_records_def)
  note sv = New_services_records [OF services this]
  have "mailbox_records s = Map.empty" using sv by (auto simp: mailbox_records_def split: option.splits)
  moreover have "peerRecords s = replay rs" "file_bytes (storage s) = bs"
    using sv 3 s2 \<open>recs = replay rs\<close> by (simp_all add: same_records_def)
  moreover have "journalled C rs bs" using fs by (auto simp: journalled_def)
  ultimately show ?thesis by (simp add: implements_def)
qed

section \<open>Steps\<close>

lemma implements_entry:
  assumes "implements C K d s" and "peerRecords s' = (peerRecords s)(Address r \<mapsto> r)" and "cfg s' = cfg s"
    and "mailboxServer s' = mailboxServer s" and "journalled C js (file_bytes (storage s'))"
  shows "implements C K (d\<lparr>entries := (entries d)(Address r \<mapsto> r), journal := js\<rparr>) s'"
  using assms by (simp add: implements_def own_key_def mailbox_records_def)

lemma register_implements:
  assumes "implements C K d s" and "\<forall>r b. rec_Marshal C r = Inr b \<longrightarrow> length b \<le> MaxInt32"
    and "ReadAgentRegistrationMessage C StreamPipe st = (Ok (Some rec), st1)"
    and "handleAeaRegisterStream C K st s = (x, st', s')" and "s' \<noteq> s"
  shows "valid_proof K rec (Address rec) (PeerPublicKey rec)"
    and "implements C K (d\<lparr>entries := (entries d)(Address rec \<mapsto> rec), journal := journal d @ saved C rec (storage s)\<rparr>) s'"
proof -
  from register_stream_sound [OF assms(4,5)] assms(3)
  have rec: "valid_proof K rec (Address rec) (remote_key K st)" "peerRecords s' = (peerRecords s)(Address rec \<mapsto> rec)"
      "storage s' = snd (saveAgentRecordToPersistentStorage C rec (storage s))"
    by auto
  show "valid_proof K rec (Address rec) (PeerPublicKey rec)" using rec(1) valid_proof_key [OF rec(1)] by simp
  have "journalled C (journal d @ saved C rec (storage s)) (file_bytes (storage s'))"
    using journalled_save [OF _ assms(2), of "journal d" "storage s" rec] assms(1) rec(3) by (simp add: implements_def)
  then show "implements C K (d\<lparr>entries := (entries d)(Address rec \<mapsto> rec), journal := journal d @ saved C rec (storage s)\<rparr>) s'"
    using register_stream_frame [OF assms(4)]
    by (intro implements_entry [OF assms(1) rec(2)]) (simp_all add: register_frame_def)
qed

lemma dir_enter_saved:
  assumes "valid_proof K r (Address r) (PeerPublicKey r)"
  shows "dir_steps K d (d\<lparr>entries := (entries d)(Address r \<mapsto> r), journal := journal d @ saved C r f\<rparr>)"
proof -
  have "dir_steps K d (d\<lparr>entries := (entries d)(Address r \<mapsto> r), journal := journal d\<rparr>)"
    using dir_enter [OF assms] by (intro r_into_rtranclp) simp
  then show ?thesis using dir_enter_journal [OF assms] by (auto simp: saved_def)
qed

lemma register_simulated:
  assumes "implements C K d s" and "\<forall>r b. rec_Marshal C r = Inr b \<longrightarrow> length b \<le> MaxInt32"
    and "handleAeaRegisterStream C K st s = (x, st', s')"
  shows "\<exists>d'. dir_steps K d d' \<and> implements C K d' s'"
proof (cases "s' = s")
  case False
  then obtain rec st1 where rd: "ReadAgentRegistrationMessage C StreamPipe st = (Ok (Some rec), st1)"
    using register_stream_sound [OF assms(3)] by blast
  from register_implements [OF assms(1,2) rd assms(3) False] show ?thesis using dir_enter_saved by blast
qed (use assms(1) in blast)

lemma delegate_register_simulated:
  assumes "implements C K d s" and "delegate_register C K cid s = (r, s')"
  shows "\<exists>d'. dir_steps K d d' \<and> implements C K d' s'"
proof (cases "peerRecords s' = peerRecords s")
  case True
  with delegate_register_keeps [OF assms(2)] have "same_records s s'" by (simp add: same_records_def)
  then show ?thesis using implements_same [OF assms(1)] by blast
next
  case False
  then obtain rec where rec: "valid_proof K rec (Address rec) (own_key K s)" "peerRecords s' = (peerRecords s)(Address rec \<mapsto> rec)"
    using delegate_register_sound [OF assms(2)] by blast
  have v: "valid_proof K rec (Address rec) (PeerPublicKey rec)" using rec(1) valid_proof_key [OF rec(1)] by simp
  have "implements C K (d\<lparr>entries := (entries d)(Address rec \<mapsto> rec), journal := journal d\<rparr>) s'"
    using delegate_register_keeps [OF assms(2)] assms(1)
    by (intro implements_entry [OF assms(1) rec(2)]) (simp_all add: implements_def)
  then have "implements C K (d\<lparr>entries := (entries d)(Address rec \<mapsto> rec)\<rparr>) s'" by simp
  then show ?thesis using dir_enter [OF v, of d] by blast
qed

lemma implements_mailbox:
  assumes "implements C K d s" and "same_records s t" and "m = agentRecords mb'"
  shows "implements C K (d\<lparr>mailboxes := m\<rparr>) (t\<lparr>mailboxServer := Some mb'\<rparr>)"
  using assms by (simp add: implements_def same_records_def own_key_def mailbox_records_def)

lemma mailbox_register_simulated:
  assumes "implements C K d s" and "mailboxServer s = Some mb" and "peer_apiRegister C K uuid req mb s = (x, mb', s')"
  shows "\<exists>d'. dir_steps K d d' \<and> implements C K d' (s'\<lparr>mailboxServer := Some mb'\<rparr>)"
proof -
  have m: "mailboxes d = agentRecords mb" using assms(1,2) by (simp add: implements_def mailbox_records_def)
  note same = apiRegister_same [OF assms(3)]
  from apiRegister_effect [OF assms(3)] consider "mb' = mb" | r where "mb' = register_commit r uuid mb" "valid_proof K r (Address r) (own_key K s)" by blast
  then show ?thesis
  proof cases
    case 1
    have "implements C K (d\<lparr>mailboxes := mailboxes d\<rparr>) (s'\<lparr>mailboxServer := Some mb'\<rparr>)"
      using m 1 by (intro implements_mailbox [OF assms(1) same]) simp
    then show ?thesis by auto
  next
    case 2
    have "dir_step K d (d\<lparr>mailboxes := (mailboxes d)(Address r \<mapsto> r)\<rparr>)"
      using 2(2) assms(1) by (intro dir_open) (simp add: implements_def)
    moreover have "implements C K (d\<lparr>mailboxes := (mailboxes d)(Address r \<mapsto> r)\<rparr>) (s'\<lparr>mailboxServer := Some mb'\<rparr>)"
      using m 2(1) by (intro implements_mailbox [OF assms(1) same]) (simp add: register_commit_def)
    ultimately show ?thesis by blast
  qed
qed

lemma section_simulated:
  assumes "peer_section C K s s'" and "implements C K d s" and "\<forall>r b. rec_Marshal C r = Inr b \<longrightarrow> length b \<le> MaxInt32"
  shows "\<exists>d'. dir_steps K d d' \<and> implements C K d' s'"
  using assms(1)
proof (cases rule: section_cases)
  case (entered rec k)
  have v: "valid_proof K rec (Address rec) (PeerPublicKey rec)" using entered(2) valid_proof_key [OF entered(2)] by simp
  have "implements C K (d\<lparr>entries := (entries d)(Address rec \<mapsto> rec)\<rparr>) s'"
    using assms(2) entered(1) by (simp add: implements_def section_defs own_key_def mailbox_records_def)
  then show ?thesis using dir_enter [OF v, of d] by blast
next
  case (relay rec p)
  have "implements C K (d\<lparr>journal := journal d @ saved C rec (storage s)\<rparr>) s'"
    using assms(2) relay(1) journalled_save [OF _ assms(3), of "journal d" "storage s" rec]
    by (simp add: implements_def section_defs own_key_def mailbox_records_def)
  moreover have "dir_steps K d (d\<lparr>journal := journal d @ saved C rec (storage s)\<rparr>)"
    using dir_journal [OF relay(2), of d] relay(3) assms(2) by (auto simp: saved_def implements_def)
  ultimately show ?thesis by blast
next
  case (mailbox mb rec uuid)
  have m: "mailboxes d = agentRecords mb" using assms(2) mailbox(1) by (simp add: implements_def mailbox_records_def)
  have "dir_step K d (d\<lparr>mailboxes := (mailboxes d)(Address rec \<mapsto> rec)\<rparr>)"
    using mailbox(3) assms(2) by (intro dir_open) (simp add: implements_def)
  moreover have "implements C K (d\<lparr>mailboxes := (mailboxes d)(Address rec \<mapsto> rec)\<rparr>) s'"
    unfolding mailbox(2) using m by (intro implements_mailbox [OF assms(2) same_records_refl]) (simp add: register_commit_def)
  ultimately show ?thesis by blast
next
  case same
  then show ?thesis using implements_same [OF assms(2)] by blast
qed

text \<open>Every step of a peer is a sequence of steps of the directory.\<close>

lemma peer_step_simulated:
  assumes "peer_step C K s s'" and "implements C K d s" and "\<forall>r b. rec_Marshal C r = Inr b \<longrightarrow> length b \<le> MaxInt32"
  shows "\<exists>d'. dir_steps K d d' \<and> implements C K d' s'"
proof -
  have stay: "\<exists>d'. dir_steps K d d' \<and> implements C K d' t" if "same_records s t" for t
    using implements_same [OF assms(2) that] by blast
  show ?thesis
    using assms(1)
  proof cases
    case step_section
    then show ?thesis using section_simulated assms(2,3) by blast
  next
    case step_register
    then show ?thesis using register_simulated assms(2,3) by blast
  next
    case step_delegate_register
    then show ?thesis using delegate_register_simulated assms(2) by blast
  next
    case step_mailbox_register
    then show ?thesis using mailbox_register_simulated [OF assms(2)] by blast
  next
    case (step_mailbox_unregister mb sid addr)
    have "mailboxes d = agentRecords mb" using assms(2) step_mailbox_unregister(2) by (simp add: implements_def mailbox_records_def)
    then have "implements C K (d\<lparr>mailboxes := (mailboxes d)(addr := None)\<rparr>) s'"
      unfolding step_mailbox_unregister(1)
      by (intro implements_mailbox [OF assms(2) same_records_refl]) (simp add: unregister_commit_def)
    then show ?thesis using dir_leave by blast
  next
    case (step_mailbox_get mb written req r mb')
    then have "same_records s s'" using apiGetEnvelope_records by (auto simp: same_records_def)
    then show ?thesis by (rule stay)
  next
    case step_mailbox_send
    then show ?thesis using apiSendEnvelope_effect stay by blast
  qed (auto intro!: stay dest: same_records accept_loop_same simp: same_records_def ProcessEnvelope_def)
qed

lemma journalled_Nil: "journalled C [] []"
  by (simp add: journalled_def)

lemma reachable_implements:
  assumes "peer_reachable C K s" and "codec_ok C" and "\<forall>r b. rec_Marshal C r = Inr b \<longrightarrow> length b \<le> MaxInt32"
  shows "\<exists>d. dir_reachable K d \<and> implements C K d s"
  using assms(1)
proof induction
  case (peer_new L pn opts g w s)
  then have "implements C K \<lparr>dir_key = own_key K s, entries = replay [], mailboxes = Map.empty, journal = []\<rparr> s"
    using New_implements [OF assms(2)] journalled_Nil by metis
  then show ?case using dir_new [of K "own_key K s"] by (auto simp: replay_def)
next
  case (peer_again s0 L pn opts g w s)
  then obtain d where d: "dir_reachable K d" "implements C K d s0" by blast
  then have "implements C K \<lparr>dir_key = own_key K s, entries = replay (journal d), mailboxes = Map.empty, journal = journal d\<rparr> s"
    using New_implements [OF assms(2) peer_again.hyps(2), of "journal d"] peer_again.hyps(3) d(2)
    by (auto simp only: implements_def)
  then show ?case using dir_again [OF d(1)] by blast
next
  case (peer_next s s')
  then obtain d d' where "dir_reachable K d" "dir_steps K d d'" "implements C K d' s'"
    using peer_step_simulated [OF peer_next.hyps(2) _ assms(3)] by blast
  then show ?case using dir_reachable_steps by blast
qed

section \<open>What a directory promises\<close>

lemma replay_Some: "replay rs a = Some r \<Longrightarrow> r \<in> set rs \<and> Address r = a"
proof (induction rs rule: rev_induct)
  case (snoc q rs)
  then show ?case by (auto simp: replay_def split: if_splits)
qed (simp add: replay_def)

lemma replay_None: "replay rs a = None \<longleftrightarrow> (\<forall>r \<in> set rs. Address r \<noteq> a)"
  by (induction rs rule: rev_induct) (auto simp: replay_def)

lemma dir_reachable_proven:
  "dir_reachable K d \<Longrightarrow> (\<forall>a r. entries d a = Some r \<longrightarrow> valid_proof K r a (PeerPublicKey r))
    \<and> (\<forall>r \<in> set (journal d). valid_proof K r (Address r) (PeerPublicKey r))"
proof (induction rule: dir_reachable.induct)
  case (dir_again d k)
  then show ?case using replay_Some by fastforce
next
  case (dir_next d d')
  from dir_next.hyps(2) dir_next.IH show ?case
    by cases auto
qed simp

text \<open>An address that is in the journal and has an entry keeps both, over every step and every restart.\<close>

definition listed :: "address \<Rightarrow> directory \<Rightarrow> bool" where
  "listed a d \<longleftrightarrow> (\<exists>r \<in> set (journal d). Address r = a) \<and> entries d a \<noteq> None"

lemma listed_step: "\<lbrakk>dir_step K d d'; listed a d\<rbrakk> \<Longrightarrow> listed a d'"
  by (cases rule: dir_step.cases) (auto simp: listed_def)

lemma listed_steps: "\<lbrakk>dir_steps K d d'; listed a d\<rbrakk> \<Longrightarrow> listed a d'"
  by (induction rule: rtranclp_induct) (auto intro: listed_step)

lemma listed_again: "listed a d \<Longrightarrow> listed a \<lparr>dir_key = k, entries = replay (journal d), mailboxes = m, journal = journal d\<rparr>"
  using replay_None [of "journal d" a] by (auto simp: listed_def)

section \<open>Later lives\<close>

text \<open>What a peer becomes, by its own steps and by being stopped at any time and constructed again on its store.\<close>

inductive peer_later :: "codec \<Rightarrow> crypto \<Rightarrow> 'g DHTPeer \<Rightarrow> 'g DHTPeer \<Rightarrow> bool"
  for C :: codec and K :: crypto and s :: "'g DHTPeer" where
  later_now: "peer_later C K s s"
| later_step: "\<lbrakk>peer_later C K s t; peer_step C K t t'\<rbrakk> \<Longrightarrow> peer_later C K s t'"
| later_again: "\<lbrakk>peer_later C K s t; New C K L pn opts g w = Ok t';
    \<forall>path bs. pn_OpenFile pn path = Inr bs \<longrightarrow> bs = file_bytes (storage t)\<rbrakk> \<Longrightarrow> peer_later C K s t'"

lemma later_listed:
  assumes "peer_later C K s t" and "dir_reachable K d" and "implements C K d s" and "listed a d"
    and "codec_ok C" and "\<forall>r b. rec_Marshal C r = Inr b \<longrightarrow> length b \<le> MaxInt32"
  shows "\<exists>d'. dir_reachable K d' \<and> implements C K d' t \<and> listed a d'"
  using assms(1)
proof induction
  case later_now
  show ?case using assms(2-4) by blast
next
  case (later_step t t')
  then obtain d' where d': "dir_reachable K d'" "implements C K d' t" "listed a d'" by blast
  obtain e where "dir_steps K d' e" "implements C K e t'" using peer_step_simulated [OF later_step.hyps(2) d'(2) assms(6)] by blast
  with d' show ?case using dir_reachable_steps listed_steps by blast
next
  case (later_again t L pn opts g w t')
  then obtain d' where d': "dir_reachable K d'" "implements C K d' t" "listed a d'" by blast
  let ?e = "\<lparr>dir_key = own_key K t', entries = replay (journal d'), mailboxes = Map.empty, journal = journal d'\<rparr>"
  have "implements C K ?e t'"
    using New_implements [OF assms(5) later_again.hyps(2), of "journal d'"] later_again.hyps(3) d'(2)
    by (auto simp only: implements_def)
  then show ?case using dir_again [OF d'(1)] listed_again [OF d'(3)] by blast
qed

lemma register_listed:
  assumes "implements C K d s" and "dir_reachable K d" and "\<forall>r b. rec_Marshal C r = Inr b \<longrightarrow> length b \<le> MaxInt32"
    and "handleAeaRegisterStream C K st s = (x, st', s')"
    and "ReadAgentRegistrationMessage C StreamPipe st = (Ok (Some rec), st1)"
    and "file_bytes (storage s') \<noteq> file_bytes (storage s)"
  shows "\<exists>d'. dir_reachable K d' \<and> implements C K d' s' \<and> listed (Address rec) d'"
proof -
  have ne: "s' \<noteq> s" using assms(6) by auto
  have "saved C rec (storage s) = [rec]"
  proof (rule ccontr)
    assume "saved C rec (storage s) \<noteq> [rec]"
    then have "file_bytes (snd (saveAgentRecordToPersistentStorage C rec (storage s))) = file_bytes (storage s)"
      by (auto simp: saved_def saveAgentRecordToPersistentStorage_def formatPersistentStorageLine_def Let_def
          split: if_splits sum.splits option.splits)
    moreover have "storage s' = snd (saveAgentRecordToPersistentStorage C rec (storage s))"
      using register_stream_sound [OF assms(4) ne] assms(5) by auto
    ultimately show False using assms(6) by simp
  qed
  with register_implements [OF assms(1,3,5,4) ne]
  have v: "valid_proof K rec (Address rec) (PeerPublicKey rec)"
    and i: "implements C K (d\<lparr>entries := (entries d)(Address rec \<mapsto> rec), journal := journal d @ [rec]\<rparr>) s'"
    by simp_all
  have "dir_reachable K (d\<lparr>entries := (entries d)(Address rec \<mapsto> rec), journal := journal d @ [rec]\<rparr>)"
    by (rule dir_reachable_steps [OF dir_enter_journal [OF v] assms(2)])
  with i show ?thesis
    by (intro exI [of _ "d\<lparr>entries := (entries d)(Address rec \<mapsto> rec), journal := journal d @ [rec]\<rparr>"]) (simp add: listed_def)
qed

section \<open>Properties of the directory\<close>

text \<open>C3: A peer implements a directory. Every peer that critical sections, handlers, loops, crashes and restarts lead to is
  related to a directory state, its map of records being the entries, its mailbox records the mailboxes and its
  store the journal; whatever step the peer takes next, the directory can take steps of its own to the state that
  the peer is then related to; and a relay registration that changes the peer is exactly the entry of the
  registered record together with its journal entry, unless the disk is failing or the record
  cannot be serialised.\<close>

theorem peer_refines_directory:
  assumes "peer_reachable C K s" and "codec_ok C" and "\<forall>r b. rec_Marshal C r = Inr b \<longrightarrow> length b \<le> MaxInt32"
  shows "\<exists>d. dir_reachable K d \<and> implements C K d s
    \<and> (\<forall>s'. peer_step C K s s' \<longrightarrow> (\<exists>d'. (dir_step K)\<^sup>*\<^sup>* d d' \<and> implements C K d' s'))
    \<and> (\<forall>st rec st1 x st' s'. ReadAgentRegistrationMessage C StreamPipe st = (Ok (Some rec), st1) \<and>
        handleAeaRegisterStream C K st s = (x, st', s') \<and> s' \<noteq> s \<longrightarrow>
        implements C K (d\<lparr>entries := (entries d)(Address rec \<mapsto> rec),
          journal := (if file_error (storage s) = None \<and> (\<exists>b. rec_Marshal C rec = Inr b \<and> b \<noteq> [])
            then journal d @ [rec] else journal d)\<rparr>) s')"
proof -
  obtain d where d: "dir_reachable K d" "implements C K d s" using reachable_implements [OF assms] by blast
  have j: "journal d @ saved C rec (storage s) = (if file_error (storage s) = None \<and> (\<exists>b. rec_Marshal C rec = Inr b \<and> b \<noteq> [])
      then journal d @ [rec] else journal d)" for rec
    by (simp add: saved_def)
  show ?thesis
  proof (rule exI [of _ d], intro conjI allI impI d)
    show "\<exists>d'. dir_steps K d d' \<and> implements C K d' s'" if "peer_step C K s s'" for s'
      by (rule peer_step_simulated [OF that d(2) assms(3)])
    show "implements C K (d\<lparr>entries := (entries d)(Address rec \<mapsto> rec),
          journal := (if file_error (storage s) = None \<and> (\<exists>b. rec_Marshal C rec = Inr b \<and> b \<noteq> [])
            then journal d @ [rec] else journal d)\<rparr>) s'"
      if "ReadAgentRegistrationMessage C StreamPipe st = (Ok (Some rec), st1) \<and> handleAeaRegisterStream C K st s = (x, st', s') \<and> s' \<noteq> s"
      for st rec st1 x st' s'
      using register_implements(2) [OF d(2) assms(3)] that unfolding j by blast
  qed
qed

lemma peer_refines_directory_witness:
  "\<exists>(s :: Envelope list DHTPeer) (s' :: Envelope list DHTPeer) d. peer_reachable ex_life_codec ex_crypto s \<and> dir_reachable ex_crypto d
    \<and> implements ex_life_codec ex_crypto d s
    \<and> implements ex_life_codec ex_crypto (d\<lparr>entries := (entries d)(''cosmosB'' \<mapsto> ex_record 66 2), journal := journal d @ [ex_record 66 2]\<rparr>) s'"
proof -
  obtain s s' :: "Envelope list DHTPeer" and st' where
      s: "New ex_life_codec ex_crypto ex_maddr (ex_setup []) ex_options [] (ex_net [] []) = Ok s"
      "storage s = \<lparr>file_bytes = [], file_error = None\<rparr>"
      "handleAeaRegisterStream ex_life_codec ex_crypto (ex_stream [frame [6]] 2) s = (Ok (), st', s')"
      "file_bytes (storage s') = frame [9]"
    using ex_life by blast
  have r: "peer_reachable ex_life_codec ex_crypto s" by (rule peer_new [OF s(1)]) (simp add: ex_setup_def)
  have ne: "s' \<noteq> s" using s(2,4) by (auto simp: frame_def)
  obtain st1 where rd: "ReadAgentRegistrationMessage ex_life_codec StreamPipe (ex_stream [frame [6]] 2) = (Ok (Some (ex_record 66 2)), st1)"
    using ex_life_read by blast
  have b: "\<exists>b. rec_Marshal ex_life_codec (ex_record 66 2) = Inr b \<and> b \<noteq> []" using ex_life_codec_laws(4) by auto
  obtain d where d: "dir_reachable ex_crypto d" "implements ex_life_codec ex_crypto d s"
      "\<forall>st rec st1 x st' s'. ReadAgentRegistrationMessage ex_life_codec StreamPipe st = (Ok (Some rec), st1) \<and>
        handleAeaRegisterStream ex_life_codec ex_crypto st s = (x, st', s') \<and> s' \<noteq> s \<longrightarrow>
        implements ex_life_codec ex_crypto (d\<lparr>entries := (entries d)(Address rec \<mapsto> rec),
          journal := (if file_error (storage s) = None \<and> (\<exists>b. rec_Marshal ex_life_codec rec = Inr b \<and> b \<noteq> [])
            then journal d @ [rec] else journal d)\<rparr>) s'"
    using peer_refines_directory [OF r ex_life_codec_ok ex_life_codec_laws(1)] by blast
  have "implements ex_life_codec ex_crypto (d\<lparr>entries := (entries d)(''cosmosB'' \<mapsto> ex_record 66 2), journal := journal d @ [ex_record 66 2]\<rparr>) s'"
    using d(3) [rule_format, OF conjI [OF rd conjI [OF s(3) ne]]] s(2) b by auto
  with r d(1,2) show ?thesis by blast
qed

text \<open>C7: A registration over a relay stream that reached the store is never lost: whatever the peer does afterwards,
  and however often it is stopped, also in the middle of something, and started again on that store, it
  has a record for the address to answer lookups with, and that record is proven.\<close>

theorem registration_durable:
  assumes "peer_reachable C K s" and "codec_ok C" and "\<forall>r b. rec_Marshal C r = Inr b \<longrightarrow> length b \<le> MaxInt32"
    and "ReadAgentRegistrationMessage C StreamPipe st = (Ok (Some rec), st1)"
    and "handleAeaRegisterStream C K st s = (x, st', s')" and "file_bytes (storage s') \<noteq> file_bytes (storage s)"
    and "peer_later C K s' t"
  shows "\<exists>r. peerRecords t (Address rec) = Some r \<and> valid_proof K r (Address rec) (PeerPublicKey r)"
proof -
  obtain d where "dir_reachable K d" "implements C K d s" using reachable_implements [OF assms(1-3)] by blast
  with register_listed [OF _ _ assms(3,5,4,6)] obtain d1 where "dir_reachable K d1" "implements C K d1 s'" "listed (Address rec) d1"
    by blast
  with later_listed [OF assms(7) _ _ _ assms(2,3)] obtain d2 where
      d2: "dir_reachable K d2" "implements C K d2 t" "listed (Address rec) d2"
    by blast
  then show ?thesis using dir_reachable_proven [OF d2(1)] by (auto simp: listed_def implements_def)
qed

lemma registration_durable_witness:
  "\<exists>(s :: Envelope list DHTPeer) (s' :: Envelope list DHTPeer) t. peer_reachable ex_life_codec ex_crypto s \<and> peer_later ex_life_codec ex_crypto s' t
    \<and> file_bytes (storage s) = [] \<and> file_bytes (storage s') = frame [9]
    \<and> (\<exists>r. peerRecords t ''cosmosB'' = Some r \<and> valid_proof ex_crypto r ''cosmosB'' (PeerPublicKey r))"
proof -
  obtain s s' t :: "Envelope list DHTPeer" and st' where
      s: "New ex_life_codec ex_crypto ex_maddr (ex_setup []) ex_options [] (ex_net [] []) = Ok s"
      "storage s = \<lparr>file_bytes = [], file_error = None\<rparr>"
      "handleAeaRegisterStream ex_life_codec ex_crypto (ex_stream [frame [6]] 2) s = (Ok (), st', s')"
      "file_bytes (storage s') = frame [9]"
      "New ex_life_codec ex_crypto ex_maddr (ex_setup (frame [9])) ex_options [] (ex_net [] []) = Ok t"
    using ex_life by blast
  have r: "peer_reachable ex_life_codec ex_crypto s" by (rule peer_new [OF s(1)]) (simp add: ex_setup_def)
  have l: "peer_later ex_life_codec ex_crypto s' t"
    by (rule later_again [OF later_now s(5)]) (simp add: ex_setup_def s(4))
  have w: "file_bytes (storage s') \<noteq> file_bytes (storage s)" using s(2,4) by (simp add: frame_def)
  obtain st1 where rd: "ReadAgentRegistrationMessage ex_life_codec StreamPipe (ex_stream [frame [6]] 2) = (Ok (Some (ex_record 66 2)), st1)"
    using ex_life_read by blast
  with registration_durable [OF r ex_life_codec_ok ex_life_codec_laws(1) rd s(3) w l] have
    "\<exists>r. peerRecords t ''cosmosB'' = Some r \<and> valid_proof ex_crypto r ''cosmosB'' (PeerPublicKey r)" by simp
  moreover have "file_bytes (storage s) = []" using s(2) by simp
  ultimately show ?thesis using r l s(4) by blast
qed

end
