(* ===== verification/PeerTypes.thy ===== *)
theory PeerTypes
  imports PeerLife
begin

text \<open>
  What is well formed about a peer's state, and that it stays so: the capacities and lengths of its queues, what the
  queues hold, which addresses have a record, and that a channel is closed only when the peer is. All of it holds between
  any two critical sections. What does not hold between them is shown as well: the connection and the status
  queue of a delegate client come and go under different locks, and a connection can be left without its queue.
\<close>

section \<open>Well-formed peers\<close>

definition slow_queue_wf :: "'g DHTPeer \<Rightarrow> bool" where
  "slow_queue_wf s \<longleftrightarrow> chan_cap (slow_queue s) = 100 \<and> length (chan_buf (slow_queue s)) \<le> 100
     \<and> (chan_closed (slow_queue s) \<longrightarrow> isClosing s)"

definition pairs_wf :: "'g DHTPeer \<Rightarrow> bool" where
  "pairs_wf s \<longleftrightarrow>
     (\<forall>p ch. syncMessages s p = Some ch \<longrightarrow>
        chan_cap ch = 1000 \<and> length (chan_buf ch) \<le> 1000 \<and> (\<forall>e \<in> set (chan_buf ch). To e @ Sender e = p)
        \<and> (chan_closed ch \<longrightarrow> isClosing s))"

definition clients_wf :: "'g DHTPeer \<Rightarrow> bool" where
  "clients_wf s \<longleftrightarrow>
     dom (acnStatuses s) \<subseteq> dom (peerRecords s) \<and> dom (tcpAddresses s) \<subseteq> dom (peerRecords s)
     \<and> dom (dhtAddresses s) \<subseteq> dom (peerRecords s)
     \<and> (\<forall>a ch. acnStatuses s a = Some ch \<longrightarrow> chan_cap ch = 1000 \<and> \<not> chan_closed ch)"

definition mailbox_wf :: "'g DHTPeer \<Rightarrow> bool" where
  "mailbox_wf s \<longleftrightarrow> (\<forall>mb. mailboxServer s = Some mb \<longrightarrow> mb_inv (\<lambda>_. True) mb)"

definition peer_wf :: "'g DHTPeer \<Rightarrow> bool" where
  "peer_wf s \<longleftrightarrow> slow_queue_wf s \<and> pairs_wf s \<and> clients_wf s \<and> mailbox_wf s"

lemmas wf_defs = peer_wf_def slow_queue_wf_def pairs_wf_def clients_wf_def mailbox_wf_def

text \<open>The fields that it does not speak of.\<close>

lemma peer_wf_update [simp]:
  "peer_wf (s\<lparr>net := n\<rparr>) = peer_wf s" "peer_wf (s\<lparr>conns := cs\<rparr>) = peer_wf s" "peer_wf (s\<lparr>agent := g\<rparr>) = peer_wf s"
  "peer_wf (s\<lparr>addressAnnouncedMap := A\<rparr>) = peer_wf s" "peer_wf (s\<lparr>enableAddressAnnouncement := b\<rparr>) = peer_wf s"
  "peer_wf (s\<lparr>storage := f\<rparr>) = peer_wf s" "peer_wf (s\<lparr>processEnvelope := h\<rparr>) = peer_wf s" "peer_wf (s\<lparr>cfg := c\<rparr>) = peer_wf s"
  "peer_wf (s\<lparr>metric := m\<rparr>) = peer_wf s"
  by (simp_all add: wf_defs)

lemma peer_wf_metrics [simp]:
  "peer_wf (routeCount_add d s) = peer_wf s" "peer_wf (routeCountAll_Inc s) = peer_wf s"
  "peer_wf (routeCountSuccess_Inc s) = peer_wf s" "peer_wf (delegateClients_add d s) = peer_wf s"
  "peer_wf (delegateClientsAll_Inc s) = peer_wf s" "peer_wf (relayClientsAll_Inc s) = peer_wf s"
  "peer_wf (set_conn cid c s) = peer_wf s"
  by (simp_all add: routeCount_add_def routeCountAll_Inc_def routeCountSuccess_Inc_def delegateClients_add_def
      delegateClientsAll_Inc_def relayClientsAll_Inc_def set_conn_def)

lemma wf_net: "\<lbrakk>net_only s s'; peer_wf s\<rbrakk> \<Longrightarrow> peer_wf s'"
  by (auto simp: net_only_def)

lemma wf_announced: "\<lbrakk>RegisterAgentAddress K a s = (r, s'); peer_wf s\<rbrakk> \<Longrightarrow> peer_wf s'"
  using RegisterAgentAddress_frame [of K a s] by (metis peer_wf_update(1,4) snd_conv)

section \<open>Routing\<close>

named_theorems keeps_wf "operations that keep a peer well formed"

lemma wf_mailbox_update:
  assumes "peer_wf s" and "mb_inv (\<lambda>_. True) mb"
  shows "peer_wf (s\<lparr>mailboxServer := Some mb\<rparr>)"
  using assms by (simp add: wf_defs)

lemma wf_route_mailbox: "\<lbrakk>route_mailbox e s = (ok, s'); peer_wf s\<rbrakk> \<Longrightarrow> peer_wf s'"
proof -
  assume r: "route_mailbox e s = (ok, s')" and s: "peer_wf s"
  have "s' = s \<or> (\<exists>mb. mailboxServer s = Some mb \<and> s' = s\<lparr>mailboxServer := Some (snd (mailbox_RouteEnvelope e mb))\<rparr>)"
    using r by (auto simp: route_mailbox_def split: option.splits prod.splits)
  moreover have "mb_inv (\<lambda>_. True) mb" if "mailboxServer s = Some mb" for mb using s that by (simp add: wf_defs)
  ultimately show "peer_wf s'" using wf_mailbox_update [OF s mb_inv_route] s by blast
qed

lemma wf_status_update:
  assumes "peer_wf s"
    and "map_option (\<lambda>c. (chan_cap c, chan_closed c)) ch = map_option (\<lambda>c. (chan_cap c, chan_closed c)) (acnStatuses s a)"
  shows "peer_wf (s\<lparr>acnStatuses := (acnStatuses s)(a := ch)\<rparr>)"
proof -
  have "dom ((acnStatuses s)(a := ch)) = dom (acnStatuses s)"
    using assms(2) by (auto simp: dom_def split: option.splits)
  moreover have "chan_cap c = 1000 \<and> \<not> chan_closed c" if "ch = Some c" for c
    using assms that by (cases "acnStatuses s a") (auto simp: peer_wf_def clients_wf_def)
  ultimately show ?thesis
    using assms(1) by (simp add: peer_wf_def slow_queue_wf_def pairs_wf_def mailbox_wf_def clients_wf_def)
qed

lemma wf_AwaitAcnStatus:
  assumes "AwaitAcnStatus a s = (r, s')" and "peer_wf s"
  shows "peer_wf s'"
proof -
  obtain arr s1 where 1: "status_arrivals s = (arr, s1)" by (cases "status_arrivals s")
  have s1: "peer_wf s1" using 1 assms(2) by (auto simp: status_arrivals_def split: prod.splits)
  obtain x ch where x: "WaitForStatus (chan_arrive arr (acnStatuses s1 a)) = (x, ch)"
    by (cases "WaitForStatus (chan_arrive arr (acnStatuses s1 a))")
  have "map_option (\<lambda>c. (chan_cap c, chan_closed c)) ch = map_option (\<lambda>c. (chan_cap c, chan_closed c)) (acnStatuses s1 a)"
    using x by (cases "acnStatuses s1 a") (auto simp: WaitForStatus_def chan_arrive_def split: list.splits)
  from wf_status_update [OF s1 this] show ?thesis
    using assms(1) 1 x by (auto simp: AwaitAcnStatus_def Let_def split: res.splits)
qed

lemma wf_route_local:
  assumes "route_local e s = (r, s')" and "peer_wf s"
  shows "peer_wf s'"
proof -
  obtain y s1 where 1: "await_ready s = (y, s1)" by (cases "await_ready s")
  have "peer_wf s1" using 1 assms(2) by (auto simp: await_ready_def split: list.splits if_splits)
  then show ?thesis
    using assms(1) 1 by (cases y; cases "processEnvelope s1") (auto simp: route_local_def split: prod.splits res.splits)
qed

lemma wf_route_delegate: "\<lbrakk>route_delegate C e cid s = (r, s'); peer_wf s\<rbrakk> \<Longrightarrow> peer_wf s'"
  by (auto simp: route_delegate_def Let_def split: sum.splits prod.splits res.splits elim!: wf_AwaitAcnStatus)

lemma wf_WithNewStream: "\<lbrakk>routeEnvelopeWithNewStream C e p rec s = (r, s'); peer_wf s\<rbrakk> \<Longrightarrow> peer_wf s'"
  using routeWithNewStream_effect [of C e p rec s r s'] by (auto simp: net_only_def split: if_splits)

lemma wf_DHTLookup:
  assumes "routeEnvelopeDHTLookup C K e s = (r, s')" and "peer_wf s"
  shows "peer_wf s'"
proof -
  obtain y s1 where y: "lookupAddressDHT C K (To e) s = (y, s1)" by (cases "lookupAddressDHT C K (To e) s")
  have "peer_wf s1" using wf_net [OF lookupAddressDHT_net [OF y] assms(2)] .
  with assms y show ?thesis
    by (auto simp: routeEnvelopeDHTLookup_def split: res.splits elim: wf_WithNewStream)
qed

lemma wf_route_slow:
  assumes "route_slow e s = (r, s')" and "peer_wf s"
  shows "peer_wf s'"
proof -
  let ?q = "slow_queue s"
  have "peer_wf (s\<lparr>slow_queue := ?q\<lparr>chan_buf := chan_buf ?q @ [e]\<rparr>\<rparr>)" if "length (chan_buf ?q) < 99"
    using that assms(2) by (simp add: wf_defs)
  with assms show ?thesis
    by (auto simp: route_slow_def routeCount_add_def chan_send_def SlowQueueSize_def Let_def split: if_splits)
      (simp add: wf_defs)
qed

lemma wf_RouteEnvelope [keeps_wf]:
  assumes "RouteEnvelope C K e s = (r, s')" and "peer_wf s"
  shows "peer_wf s'"
proof -
  have begun: "peer_wf (route_begun s)" using assms(2) by simp
  note mailbox = wf_route_mailbox [OF _ begun]
  from assms(1) show ?thesis
    by (rule RouteEnvelope_cases)
      (auto simp: assms(2) dest: mailbox wf_route_local wf_route_delegate wf_WithNewStream wf_DHTLookup wf_route_slow)
qed

lemma wf_HandleAeaEnvelope:
  assumes "HandleAeaEnvelope C e s = (r, s')" and "peer_wf s"
  shows "peer_wf s'"
proof -
  obtain ok s1 where m: "route_mailbox e s = (ok, s1)" by (cases "route_mailbox e s")
  have "peer_wf s1" using wf_route_mailbox [OF m assms(2)] .
  with assms(1) m show ?thesis
    by (auto simp: HandleAeaEnvelope_def Let_def elim!: wf_AwaitAcnStatus
        split: bool.splits option.splits sum.splits prod.splits res.splits if_splits)
qed

lemma wf_envelope_stream [keeps_wf]:
  assumes "handleAeaEnvelopeStream C K st s = (r, st', s')" and "peer_wf s"
  shows "peer_wf s'"
proof (cases "s' = s")
  case False
  with peer.envelope_stream_proven assms(1) obtain e where "s' = snd (HandleAeaEnvelope C e s)"
    by (fastforce simp: handleAeaEnvelopeStream_def peer_handler_def)
  then show ?thesis using wf_HandleAeaEnvelope [OF surjective_pairing assms(2)] by simp
qed (use assms(2) in simp)

lemma wf_slow_turn [keeps_wf]:
  assumes "slow_turn C K s = (r, s')" and "peer_wf s"
  shows "peer_wf s'"
proof (cases "chan_buf (slow_queue s)")
  case (Cons e es)
  let ?s = "s\<lparr>slow_queue := (slow_queue s)\<lparr>chan_buf := es\<rparr>\<rparr>"
  have "peer_wf ?s" using assms(2) Cons by (simp add: wf_defs)
  with assms(1) Cons show ?thesis
    by (auto simp: slow_turn_def Let_def split: if_splits res.splits prod.splits elim: wf_DHTLookup)
qed (use assms in \<open>simp add: slow_turn_def\<close>)

lemma wf_pair_turn [keeps_wf]:
  assumes "pair_turn C K pair s = (r, s')" and "peer_wf s"
  shows "peer_wf s'"
proof (cases "syncMessages s pair")
  case (Some ch)
  show ?thesis
  proof (cases "chan_buf ch")
    case (Cons e es)
    let ?s = "s\<lparr>syncMessages := (syncMessages s)(pair \<mapsto> ch\<lparr>chan_buf := es\<rparr>)\<rparr>"
    have "length (chan_buf ch) \<le> 1000 \<and> (\<forall>e \<in> set (chan_buf ch). To e @ Sender e = pair)"
      using assms(2) Some by (simp add: wf_defs)
    then have "peer_wf ?s" using assms(2) Some Cons by (auto simp: wf_defs)
    with assms(1) Some Cons show ?thesis by (auto simp: pair_turn_def split: res.splits prod.splits elim: wf_RouteEnvelope)
  qed (use assms Some in \<open>simp add: pair_turn_def\<close>)
qed (use assms in \<open>simp add: pair_turn_def\<close>)

section \<open>Serving\<close>

lemma wf_address_stream [keeps_wf]:
  assumes "handleAeaAddressStream C K st s = (r, st', s')" and "peer_wf s"
  shows "peer_wf s'"
proof -
  have "peer_wf t" if "HandleAeaAddressRequest C K a s = (x, t)" for a x t
    using HandleAeaAddressRequest_cases [OF that] wf_net [OF lookupAddressDHT_net [of C K a s, OF surjective_pairing] assms(2)]
      assms(2)
    by auto
  with assms show ?thesis
    by (auto simp: handleAeaAddressStream_def HandleAeaAddressStream_def peer_handler_def
        split: prod.splits res.splits option.splits)
qed

text \<open>The critical sections.\<close>

lemma wf_register_record: "peer_wf s \<Longrightarrow> peer_wf (register_record rec s)"
  by (auto simp: wf_defs register_record_def)

lemma wf_register_relay: "\<lbrakk>peer_wf s; peerRecords s (Address rec) \<noteq> None\<rbrakk> \<Longrightarrow> peer_wf (register_relay C rec p s)"
  by (auto simp: wf_defs register_relay_def)

lemma wf_set_tcp: "\<lbrakk>peer_wf s; peerRecords s addr \<noteq> None\<rbrakk> \<Longrightarrow> peer_wf (set_tcp addr cid s)"
  by (auto simp: wf_defs set_tcp_def)

lemma wf_set_statuses: "\<lbrakk>peer_wf s; peerRecords s addr \<noteq> None\<rbrakk> \<Longrightarrow> peer_wf (set_statuses addr s)"
  by (auto simp: wf_defs set_statuses_def make_chan_def AcnStatusesQueueSize_def)

lemma wf_delegate_end: "peer_wf s \<Longrightarrow> peer_wf (delete_tcp addr s)" "peer_wf s \<Longrightarrow> peer_wf (delete_statuses addr s)"
  by (auto simp: wf_defs delete_tcp_def delete_statuses_def)

lemma wf_make_pair: "peer_wf s \<Longrightarrow> peer_wf (make_pair pair s)"
  by (auto simp: wf_defs make_pair_def make_chan_def)

lemma wf_register_stream [keeps_wf]:
  assumes "handleAeaRegisterStream C K st s = (r, st', s')" and "peer_wf s"
  shows "peer_wf s'"
proof (cases "s' = s")
  case False
  let ?t = "\<lambda>rec p. register_relay C rec p (register_record rec (relayClientsAll_Inc s))"
  have "\<exists>rec p. s' = ?t rec p \<or> (\<exists>a q. RegisterAgentAddress K a (?t rec p) = (q, s'))"
    using assms(1) False
    by (auto simp: handleAeaRegisterStream_def Let_def split: prod.splits res.splits option.splits if_splits)
  moreover have "peer_wf (?t rec p)" for rec p
    using assms(2) by (intro wf_register_relay wf_register_record) (simp_all add: register_record_def)
  ultimately show ?thesis using wf_announced by blast
qed (use assms(2) in simp)

lemma wf_delegate_register [keeps_wf]:
  assumes "delegate_register C K cid s = (r, s')" and "peer_wf s"
  shows "peer_wf s'"
proof (cases "peerRecords s' = peerRecords s \<and> tcpAddresses s' = tcpAddresses s \<and> acnStatuses s' = acnStatuses s")
  case True
  with delegate_register_keeps [OF assms(1)] assms(2) show ?thesis by (simp add: wf_defs)
next
  case False
  then obtain rec where "peerRecords s' = (peerRecords s)(Address rec \<mapsto> rec)" "tcpAddresses s' = (tcpAddresses s)(Address rec \<mapsto> cid)"
      "acnStatuses s' = (acnStatuses s)(Address rec \<mapsto> make_chan AcnStatusesQueueSize)"
    using delegate_register_sound [OF assms(1)] by blast
  with delegate_register_keeps [OF assms(1)] assms(2) show ?thesis
    by (auto simp: wf_defs make_chan_def AcnStatusesQueueSize_def)
qed

lemma wf_AddAcnStatus:
  assumes "AddAcnStatusMessage st addr s = (q, t)" and "peer_wf s"
  shows "peer_wf t"
proof -
  obtain x ch where x: "chan_send st (acnStatuses s addr) = (x, ch)" by (cases "chan_send st (acnStatuses s addr)")
  have "map_option (\<lambda>c. (chan_cap c, chan_closed c)) ch = map_option (\<lambda>c. (chan_cap c, chan_closed c)) (acnStatuses s addr)"
  proof (cases "acnStatuses s addr")
    case (Some c)
    show ?thesis using x unfolding Some by (auto simp: chan_send_def split: if_splits)
  qed (use x in \<open>simp add: chan_send_def\<close>)
  from wf_status_update [OF assms(2) this] assms(1) x show ?thesis by (simp add: AddAcnStatusMessage_def)
qed

lemma wf_HandleAcnMessage:
  assumes "HandleAcnMessageFromPipe C P AddAcnStatusMessage addr p s = (r, p', s')" and "peer_wf s"
  shows "peer_wf s'"
proof -
  have "s' = s \<or> (\<exists>st q. AddAcnStatusMessage st addr s = (q, s'))"
    using assms(1)
    by (auto simp: HandleAcnMessageFromPipe_def keep_queue_def Let_def
        split: prod.splits res.splits option.splits if_splits sum.splits)
  then show ?thesis using assms(2) wf_AddAcnStatus by blast
qed

lemma wf_send_pair:
  assumes "send_pair (pair_key e) e s = (r, s')" and "peer_wf s"
  shows "peer_wf s'"
proof (cases "syncMessages s (pair_key e)")
  case None
  then have "s' = s" using assms(1) by (auto simp: send_pair_def chan_try_send_def chan_send_def fun_upd_idem)
  with assms(2) show ?thesis by simp
next
  case (Some c)
  obtain x ch where x: "chan_try_send e (Some c) = (x, ch)" by (cases "chan_try_send e (Some c)")
  have s': "s' = s\<lparr>syncMessages := (syncMessages s)(pair_key e := ch)\<rparr>"
    using assms(1) x Some by (simp add: send_pair_def)
  have "chan_cap c = 1000 \<and> length (chan_buf c) \<le> 1000 \<and> (\<forall>e' \<in> set (chan_buf c). To e' @ Sender e' = pair_key e)
      \<and> (chan_closed c \<longrightarrow> isClosing s)"
    using assms(2) Some by (simp add: wf_defs)
  moreover have "ch = Some c \<or> (ch = Some (c\<lparr>chan_buf := chan_buf c @ [e]\<rparr>) \<and> length (chan_buf c) < chan_cap c)"
    using x by (auto simp: chan_try_send_def chan_send_def split: if_splits)
  ultimately have ch: "chan_cap c' = 1000 \<and> length (chan_buf c') \<le> 1000 \<and> (\<forall>e' \<in> set (chan_buf c'). To e' @ Sender e' = pair_key e)
      \<and> (chan_closed c' \<longrightarrow> isClosing s)" if "ch = Some c'" for c'
    using that by (auto simp: pair_key_def)
  have "pairs_wf s'"
    using assms(2) ch unfolding s' peer_wf_def pairs_wf_def by auto
  with assms(2) show ?thesis unfolding s' by (simp add: peer_wf_def slow_queue_wf_def clients_wf_def mailbox_wf_def)
qed

lemma wf_enqueue_pair: "\<lbrakk>enqueue_pair e s = (r, s'); peer_wf s\<rbrakk> \<Longrightarrow> peer_wf s'"
  by (auto simp: enqueue_pair_def Let_def split: option.splits elim: wf_send_pair intro: wf_make_pair)

lemma wf_delegate_step [keeps_wf]:
  assumes "delegate_step C addr cid s = (r, s')" and "peer_wf s"
  shows "peer_wf s'"
proof -
  obtain q c s1 where h: "HandleAcnMessageFromPipe C ConnPipe AddAcnStatusMessage addr (conns s cid) s = (q, c, s1)"
    by (metis prod_cases3)
  let ?s = "set_conn cid c s1"
  have s1: "peer_wf ?s" using wf_HandleAcnMessage [OF h assms(2)] by simp
  have "s' = ?s \<or> s' = delegateClients_add (- 1) ?s \<or> (\<exists>e x. enqueue_pair e ?s = (x, s'))"
    using assms(1) h by (auto simp: delegate_step_def Let_def split: res.splits option.splits if_splits prod.splits)
  then show ?thesis using s1 wf_enqueue_pair [OF _ s1] by auto
qed

lemma wf_delegate_loop: "\<lbrakk>delegate_loop C addr cid s = (r, s'); peer_wf s\<rbrakk> \<Longrightarrow> peer_wf s'"
proof (induction C addr cid s rule: delegate_loop.induct)
  case (1 C addr cid s)
  obtain x s1 where x: "delegate_step C addr cid s = (x, s1)" by (cases "delegate_step C addr cid s")
  have s1: "peer_wf s1" by (rule wf_delegate_step [OF x 1(3)])
  show ?case
  proof (cases "x = Ok True")
    case True
    with 1(1) [OF x [symmetric]] 1(2) x s1 show ?thesis by (simp add: delegate_loop.simps [of C addr cid s])
  next
    case False
    with 1(2) x s1 show ?thesis by (auto simp: delegate_loop.simps [of C addr cid s] split: res.splits bool.splits)
  qed
qed

lemma wf_delegate_serve [keeps_wf]: "\<lbrakk>delegate_serve C addr cid s = (r, s'); peer_wf s\<rbrakk> \<Longrightarrow> peer_wf s'"
  by (auto simp: delegate_serve_def Let_def split: prod.splits res.splits dest!: wf_delegate_loop intro!: wf_delegate_end)

lemma wf_closing: "peer_wf s \<Longrightarrow> peer_wf (s\<lparr>isClosing := True\<rparr>)"
  by (auto simp: wf_defs)

lemma wf_close_pairs: "\<lbrakk>peer_wf s; isClosing s\<rbrakk> \<Longrightarrow> peer_wf (close_pairs s)"
  by (auto simp: wf_defs close_pairs_def)

lemma wf_close_slow: "\<lbrakk>peer_wf s; isClosing s\<rbrakk> \<Longrightarrow> peer_wf (close_slow_queue s)"
  by (auto simp: wf_defs close_slow_queue_def)

lemma wf_Close [keeps_wf]:
  assumes "Close le ce de he fe s = (r, s')" and "peer_wf s"
  shows "peer_wf s'"
proof (cases "isClosing s")
  case False
  let ?t = "\<lambda>cs st. s\<lparr>isClosing := True, conns := cs, storage := st\<rparr>"
  have "s' = close_slow_queue (close_pairs (?t (conns s') (storage s')))"
    using assms(1) False
    by (auto simp: Close_def closeAgentRecordPersistentStorage_def close_pairs_def close_slow_queue_def Let_def)
  moreover have "peer_wf (close_slow_queue (close_pairs (?t cs st)))" for cs st
    using assms(2) by (intro wf_close_slow wf_close_pairs) (simp_all add: wf_closing close_pairs_def)
  ultimately show ?thesis by metis
qed (use assms in \<open>simp add: Close_def\<close>)

lemma wf_announce_all: "peer_wf s \<Longrightarrow> peer_wf (announce_all K as s)"
proof (induction as arbitrary: s)
  case (Cons a as)
  show ?case using Cons.IH [OF wf_announced [OF surjective_pairing Cons.prems]] by (simp add: Let_def Cons.prems Cons.IH)
qed simp

lemma wf_notif [keeps_wf]:
  assumes "handleAeaNotifStream K rk tk s = (r, s')" and "peer_wf s"
  shows "peer_wf s'"
proof -
  obtain found s1 where 1: "await_routing_table s = (found, s1)" by (cases "await_routing_table s")
  have s1: "peer_wf s1" using 1 assms(2) by (auto simp: await_routing_table_def split: list.splits)
  let ?x = "if myAgentAddress (cfg s1) \<noteq> [] \<and> \<not> IsAddressAnnounced (myAgentAddress (cfg s1)) s1
    then RegisterAgentAddress K (myAgentAddress (cfg s1)) s1 else (Ok (), s1)"
  obtain y s2 where 2: "?x = (y, s2)" by (cases ?x)
  have s2: "peer_wf s2" using 2 s1 wf_announced by (auto split: if_splits)
  show ?thesis
    using assms(1) s1 s2 unfolding handleAeaNotifStream_def 1
    by (cases found; cases y) (auto simp: 2 Let_def wf_announce_all split: if_splits)
qed

lemma wf_accept_loop [keeps_wf]: "\<lbrakk>accept_loop sig turns started s = (r, s'); peer_wf s\<rbrakk> \<Longrightarrow> peer_wf s'"
proof (induction turns arbitrary: started s)
  case (Cons t turns)
  obtain closing accepted where t: "t = (closing, accepted)" by (cases t)
  obtain x s1 where x: "tls_Accept sig accepted s = (x, s1)" by (cases "tls_Accept sig accepted s")
  have "peer_wf s1" using x Cons.prems(2) by (auto simp: tls_Accept_def split: sum.splits prod.splits)
  with Cons show ?case unfolding t by (cases x) (auto simp: x split: if_splits)
qed simp

section \<open>Construction\<close>

lemma load_records_dom:
  "\<lbrakk>load_records C K bs n recs addrs = (r, recs', addrs'); dom addrs \<subseteq> dom recs\<rbrakk> \<Longrightarrow> dom addrs' \<subseteq> dom recs'"
proof (induction C K bs n recs addrs rule: load_records.induct)
  case (1 C K bs n recs addrs)
  let ?size = "unat (Uint32 (take 4 bs))"
  show ?case
  proof (cases "\<exists>q p. bs \<noteq> [] \<and> \<not> length bs < 4 \<and> \<not> length (drop 4 bs) < ?size
      \<and> parsePersistentStorageLine C (take ?size (drop 4 bs)) = Inr q \<and> IDFromFetchAIPublicKey K (PeerPublicKey q) = Inr p")
    case True
    then obtain q p where q: "bs \<noteq> []" "\<not> length bs < 4" "\<not> length (drop 4 bs) < ?size"
      "parsePersistentStorageLine C (take ?size (drop 4 bs)) = Inr q" "IDFromFetchAIPublicKey K (PeerPublicKey q) = Inr p" by blast
    have "load_records C K (drop ?size (drop 4 bs)) (Suc n) (recs(Address q \<mapsto> q)) (addrs(Address q \<mapsto> peer_String K p)) = (r, recs', addrs')"
      using 1(2) q by (simp add: load_records.simps [of C K bs n recs addrs] Let_def)
    moreover have "dom (addrs(Address q \<mapsto> peer_String K p)) \<subseteq> dom (recs(Address q \<mapsto> q))" using 1(3) by (simp add: subset_insertI2)
    ultimately show ?thesis by (rule 1(1) [OF q(1,2) refl refl refl q(3,4) refl q(5)])
  next
    case False
    with 1(2) have "addrs' = addrs \<and> dom recs \<subseteq> dom recs'"
      by (auto simp: load_records.simps [of C K bs n recs addrs] Let_def split: if_splits sum.splits)
    with 1(3) show ?thesis by blast
  qed
qed

lemma wf_notify_peers: "\<lbrakk>notify_peers ps s = (r, s'); peer_wf s\<rbrakk> \<Longrightarrow> peer_wf s'"
proof (induction ps arbitrary: s)
  case (Cons p ps)
  obtain x s1 where n: "host_NewStream s = (x, s1)" by (cases "host_NewStream s")
  have s1: "peer_wf s1" using wf_net [OF host_NewStream_net [OF n] Cons.prems(2)] .
  then have "peer_wf (log_stream p AeaNotifStream st s1)" for st using wf_net [OF log_stream_net] by blast
  with Cons n s1 show ?case by (auto split: sum.splits prod.splits res.splits)
qed simp

lemma wf_New_services:
  assumes "New_services K su sig s = (r, s')" and "peer_wf s"
  shows "peer_wf s'"
proof -
  let ?t = "s\<lparr>enableAddressAnnouncement := True\<rparr>" and ?me = "myAgentAddress (cfg s)"
  let ?x = "if bootstrapPeers (cfg s) \<noteq> []
    then if ?me \<noteq> [] \<and> \<not> IsAddressAnnounced ?me ?t then RegisterAgentAddress K ?me ?t else (Ok (), ?t) else (Ok (), s)"
  obtain q t where x: "?x = (q, t)" by (cases ?x)
  have t: "peer_wf t" using x assms(2) wf_announced [of K ?me ?t q t] by (auto split: if_splits)
  have "s' = t \<or> s' = t\<lparr>mailboxServer := Some (mailbox_start (mailboxHostPort (cfg t)) sig)\<rparr>"
    using assms(1) unfolding New_services_def Let_def x by (auto simp: launchMailboxService_def split: if_splits res.splits)
  then show ?thesis using t wf_mailbox_update [OF t mb_inv_start] by blast
qed

lemma wf_New:
  assumes "New C K L su opts g w = Ok s"
  shows "peer_wf s"
  using assms
proof (rule New_stages)
  fix c sig s0 n s2 u
  assume notified: "notify_peers (bootstrapPeers c) (fresh_peer c g w) = (Ok (), s0)"
    and init: "initAgentRecordPersistentStorage C K (pn_OpenFile su (storage_path K c))
      (s0\<lparr>cfg := c\<lparr>persistentStoragePath := storage_path K c\<rparr>\<rparr>) = (Ok n, s2)" (is "_ = (Ok n, s2)")
    and services: "New_services K su sig (if bootstrapPeers c \<noteq> [] then announce_all K (pn_order su) s2 else s2) = (Ok u, s)"
  let ?s1 = "s0\<lparr>cfg := c\<lparr>persistentStoragePath := storage_path K c\<rparr>\<rparr>"
  have "peer_wf (fresh_peer c g w)" by (simp add: wf_defs fresh_peer_def make_chan_def SlowQueueSize_def)
  then have s1: "peer_wf ?s1" using wf_notify_peers [OF notified] by simp
  have none: "peerRecords ?s1 = Map.empty" using notify_peers_same [OF notified] by (simp add: same_records_def fresh_peer_def)
  obtain bs where bs: "pn_OpenFile su (storage_path K c) = Inr bs"
    using init by (auto simp: initAgentRecordPersistentStorage_def split: sum.splits)
  obtain y recs addrs where l: "load_records C K bs 0 Map.empty (dhtAddresses ?s1) = (y, recs, addrs)" by (metis prod_cases3)
  have s2: "s2 = ?s1\<lparr>storage := \<lparr>file_bytes = bs, file_error = None\<rparr>, peerRecords := recs, dhtAddresses := addrs\<rparr>"
    using init bs l none by (simp add: initAgentRecordPersistentStorage_def)
  have "dom addrs \<subseteq> dom recs" using load_records_dom [OF l] s1 none by (auto simp: wf_defs)
  then have "peer_wf s2"
    using s1 none unfolding s2 by (simp add: wf_defs)
  then have "peer_wf (if bootstrapPeers c \<noteq> [] then announce_all K (pn_order su) s2 else s2)" by (simp add: wf_announce_all)
  then show ?thesis using wf_New_services [OF services] by blast
qed

section \<open>Every reachable peer\<close>

lemma section_wf:
  assumes "peer_section C K s s'" and "peer_wf s"
  shows "peer_wf s'"
  using assms(1)
proof cases
  case (sec_pair_take pair ch e es)
  have "chan_cap ch = 1000 \<and> length (chan_buf ch) \<le> 1000 \<and> (\<forall>e \<in> set (chan_buf ch). To e @ Sender e = pair)
      \<and> (chan_closed ch \<longrightarrow> isClosing s)"
    using assms(2) sec_pair_take(2) by (simp add: wf_defs)
  then show ?thesis using assms(2) sec_pair_take by (auto simp: wf_defs)
next
  case (sec_slow_send e r q)
  then show ?thesis using assms(2) by (auto simp: wf_defs chan_send_def split: if_splits)
next
  case (sec_slow_take e es)
  then show ?thesis using assms(2) by (simp add: wf_defs)
next
  case (sec_mailbox_register mb rec status uuid)
  then have "mb_inv (\<lambda>_. True) (register_commit rec uuid mb)" using assms(2) by (intro mb_inv_register) (simp_all add: wf_defs)
  then show ?thesis unfolding sec_mailbox_register(1) by (rule wf_mailbox_update [OF assms(2)])
next
  case (sec_mailbox_route mb e ok mb')
  then have "mb_inv (\<lambda>_. True) mb'" using assms(2) mb_inv_route [of "\<lambda>_. True" mb e] by (simp add: wf_defs)
  then show ?thesis unfolding sec_mailbox_route(1) by (rule wf_mailbox_update [OF assms(2)])
next
  case sec_close_file
  then show ?thesis using assms(2) by (auto simp: closeAgentRecordPersistentStorage_def)
qed (use assms(2) in \<open>auto intro: wf_register_record wf_register_relay wf_set_tcp wf_set_statuses wf_delegate_end wf_make_pair
      wf_send_pair wf_AddAcnStatus wf_AwaitAcnStatus wf_closing wf_close_pairs wf_close_slow simp: setAddressAnnounced_def\<close>)

lemma peer_step_wf:
  assumes "peer_step C K s s'" and "peer_wf s"
  shows "peer_wf s'"
  using assms(1)
proof cases
  case step_section
  then show ?thesis using section_wf assms(2) by blast
next
  case (step_mailbox_register mb uuid req r mb' t)
  have "peer_wf t" using apiRegister_effect [OF step_mailbox_register(3)] assms(2) wf_announced by blast
  moreover have "mb_inv (\<lambda>_. True) mb'"
    using apiRegister_effect [OF step_mailbox_register(3)] assms(2) step_mailbox_register(2) mb_inv_register by (fastforce simp: wf_defs)
  ultimately show ?thesis unfolding step_mailbox_register(1) by (rule wf_mailbox_update)
next
  case (step_mailbox_unregister mb sid addr)
  with assms(2) have "mb_inv (\<lambda>_. True) mb" by (simp add: wf_defs)
  then show ?thesis unfolding step_mailbox_unregister(1) by (intro wf_mailbox_update [OF assms(2)] mb_inv_unregister)
next
  case (step_mailbox_get mb written req r mb')
  with assms(2) have "mb_inv (\<lambda>_. True) mb'" using mb_inv_get [of "\<lambda>_. True" mb C written req] by (simp add: wf_defs)
  then show ?thesis unfolding step_mailbox_get(1) by (rule wf_mailbox_update [OF assms(2)])
next
  case step_mailbox_send
  then show ?thesis using apiSendEnvelope_cases wf_RouteEnvelope assms(2) by metis
qed (use assms(2) in \<open>auto intro: keeps_wf simp: ProcessEnvelope_def\<close>)

lemma reachable_wf: "peer_reachable C K s \<Longrightarrow> peer_wf s"
  by (induction rule: peer_reachable.induct) (auto intro: wf_New peer_step_wf)

text \<open>C6: The state of every reachable peer is well formed, also between the critical sections of its goroutines: the slow
  queue has capacity 100 and the queue of every pair 1000, none holds more, a pair's queue holds only
  envelopes of that receiver and sender, and no queue is closed before the peer is closing; every status queue has
  capacity 1000 and is open; every address that the peer speaks for, by a delegate connection, a status queue or a
  relay entry, has a record; a mailbox has a queue of at most 1000 envelopes for exactly the addresses that it
  has records of.\<close>

theorem peer_state_well_formed:
  assumes "peer_reachable C K s"
  shows "chan_cap (slow_queue s) = 100 \<and> length (chan_buf (slow_queue s)) \<le> 100 \<and> (chan_closed (slow_queue s) \<longrightarrow> isClosing s)
    \<and> (\<forall>p ch. syncMessages s p = Some ch \<longrightarrow> chan_cap ch = 1000 \<and> length (chan_buf ch) \<le> 1000
        \<and> (\<forall>e \<in> set (chan_buf ch). To e @ Sender e = p) \<and> (chan_closed ch \<longrightarrow> isClosing s))
    \<and> (\<forall>a ch. acnStatuses s a = Some ch \<longrightarrow> chan_cap ch = 1000 \<and> \<not> chan_closed ch)
    \<and> dom (acnStatuses s) \<union> dom (tcpAddresses s) \<union> dom (dhtAddresses s) \<subseteq> dom (peerRecords s)
    \<and> (\<forall>mb. mailboxServer s = Some mb \<longrightarrow> dom (envelopes mb) = dom (agentRecords mb)
        \<and> (\<forall>a es. envelopes mb a = Some es \<longrightarrow> length es \<le> 1000 \<and> (\<forall>e \<in> set es. To e = a)))"
proof -
  have wf: "slow_queue_wf s" "pairs_wf s" "clients_wf s" "mailbox_wf s"
    using reachable_wf [OF assms] by (simp_all add: peer_wf_def)
  have "\<forall>mb. mailboxServer s = Some mb \<longrightarrow> dom (envelopes mb) = dom (agentRecords mb)
        \<and> (\<forall>a es. envelopes mb a = Some es \<longrightarrow> length es \<le> 1000 \<and> (\<forall>e \<in> set es. To e = a))"
    using wf(4) unfolding mailbox_wf_def mb_inv_def by metis
  then show ?thesis
    using wf(1,2,3) unfolding slow_queue_wf_def pairs_wf_def clients_wf_def by blast
qed

lemma peer_state_well_formed_witness:
  "\<exists>s :: Envelope list DHTPeer. peer_reachable ex_life_codec ex_crypto s \<and> chan_cap (slow_queue s) = 100
    \<and> dom (dhtAddresses s) \<subseteq> dom (peerRecords s)"
proof -
  obtain s :: "Envelope list DHTPeer" where
      s: "New ex_life_codec ex_crypto ex_maddr (ex_setup []) ex_options [] (ex_net [] []) = Ok s"
    using ex_life by blast
  have r: "peer_reachable ex_life_codec ex_crypto s" by (rule peer_new [OF s]) (simp add: ex_setup_def)
  note wf = peer_state_well_formed [OF r]
  have "chan_cap (slow_queue s) = 100" by (rule conjunct1 [OF wf])
  moreover have "dom (acnStatuses s) \<union> dom (tcpAddresses s) \<union> dom (dhtAddresses s) \<subseteq> dom (peerRecords s)"
    using wf by (elim conjE) assumption
  ultimately show ?thesis using r by (intro exI [of _ s]) simp
qed

section \<open>A connection without its status queue\<close>

text \<open>The clean-up of an old connection and the registration of a new one for the same address, interleaved: the first
  deletes the connection, the second enters record, connection and status queue, the first deletes the status
  queue. The new connection is there and its status queue is not, so a status from the agent is sent on
  a nil channel and its reading loop never goes on.\<close>

lemma delegate_sections_race:
  assumes "peer_reachable C K (s :: 'g DHTPeer)" and "CheckPOR K (Some rec) s = Ok (status, None)" and "Code status = SUCCESS"
  shows "\<exists>t :: 'g DHTPeer. peer_reachable C K t \<and> tcpAddresses t (Address rec) = Some cid \<and> acnStatuses t (Address rec) = None
    \<and> fst (AddAcnStatusMessage st (Address rec) t) = Block"
proof -
  let ?a = "Address rec"
  let ?s1 = "delete_tcp ?a s"
  let ?s2 = "register_record rec ?s1"
  let ?s3 = "set_tcp ?a cid ?s2"
  let ?s4 = "set_statuses ?a ?s3"
  let ?t = "delete_statuses ?a ?s4"
  note next_section = peer_next [OF _ step_section]
  have 1: "peer_reachable C K ?s1" by (rule next_section [OF assms(1) sec_delegate_tcp_end])
  have 2: "peer_reachable C K ?s2"
    by (rule next_section [OF 1 sec_delegate_record [OF _ assms(3)]]) (use assms(2) in \<open>simp add: CheckPOR_def delete_tcp_def\<close>)
  have 3: "peer_reachable C K ?s3" by (rule next_section [OF 2 sec_delegate_tcp]) (simp add: register_record_def)
  have 4: "peer_reachable C K ?s4"
    by (rule next_section [OF 3 sec_delegate_statuses]) (simp add: set_tcp_def register_record_def)
  have 5: "peer_reachable C K ?t" by (rule next_section [OF 4 sec_delegate_statuses_end])
  show ?thesis
    by (rule exI [of _ ?t]) (simp add: 5, simp add: section_defs AddAcnStatusMessage_def chan_send_def)
qed

end
