(* ===== verification/DhtClient.thy ===== *)
theory DhtClient
  imports Aea Handlers
begin

text \<open>
  \<open>dht/dhtclient/dhtclient.go\<close>: a node without a public address, which reaches the network through a
  relay peer.

  The two loops that wait for a stream or for the bootstrap peers have a deadline that they do not
  honour: when it has passed, they set an error and go round again, since they leave the loop only
  without an error. They are partial functions here; \<open>None\<close> is a loop that never ends. The answers of
  the network are scripts in the state, as for the peer.

  The facts: the client keeps the contract \<open>dht_handler\<close>; whatever the outcome, it only sends under its
  own address and only to proven peers; a stream loop returns exactly when a stream is opened before the deadline.
\<close>

section \<open>State\<close>

text \<open>The answers of the network, and the streams that were opened, each with the peer and the protocol it was opened
  for and the state in which the client has left it. An answer of \<open>NewStream\<close> is an error or a stream, which may
  be nil (\<open>None\<close>).\<close>

record client_world =
  cw_NewStream :: "(err + stream option) list"
  cw_turns :: "nat list"
  cw_Connect :: "err option list"
  cw_ready :: "bool list"
  cw_NewMultiaddr :: "string \<Rightarrow> err + string"
  cw_used :: "(peerID \<times> string \<times> stream) list"

record 'g DHTClient =
  cl_bootstrapPeers :: "peerID list"
  relayPeer :: peerID
  cl_key :: "privkey option"
  cl_publicKey :: pubkey
  cl_myAgentAddress :: address
  cl_myAgentRecord :: "AgentRecord option"
  cl_processEnvelope :: "(Envelope \<Rightarrow> 'g \<Rightarrow> unit res \<times> 'g) option"
  cl_agent :: 'g
  cl_closed :: bool
  cl_net :: client_world

section \<open>Bootstrap\<close>

text \<open>\<open>bootstrapLoopUntilTimeout\<close>: \<open>answers\<close> are the results of the \<open>BootstrapConnect\<close> calls after the first,
  \<open>n\<close> the turns before the deadline.\<close>

partial_function (option) bootstrap_loop :: "nat \<Rightarrow> err option \<Rightarrow> err option list \<Rightarrow> unit option" where
  "bootstrap_loop n e answers =
     (case e of
        None \<Rightarrow> Some ()
      | Some x \<Rightarrow>
          (case n of
             0 \<Rightarrow> bootstrap_loop 0 (Some (ErrMsg ''bootstrap connect timeout reached'')) answers
           | Suc m \<Rightarrow>
               (case answers of
                  [] \<Rightarrow> bootstrap_loop m (Some DeadlineExceeded) []
                | a # as \<Rightarrow> bootstrap_loop m a as)))"

section \<open>Streams\<close>

definition cl_log :: "peerID \<Rightarrow> string \<Rightarrow> stream \<Rightarrow> 'g DHTClient \<Rightarrow> 'g DHTClient" where
  "cl_log p proto st s = s\<lparr>cl_net := (cl_net s)\<lparr>cw_used := cw_used (cl_net s) @ [(p, proto, st)]\<rparr>\<rparr>"

definition cl_NewStream :: "'g DHTClient \<Rightarrow> (err + stream option) \<times> 'g DHTClient" where
  "cl_NewStream s =
     (case script_pop (Inl DeadlineExceeded) (cw_NewStream (cl_net s)) of
        (r, rest) \<Rightarrow> (r, s\<lparr>cl_net := (cl_net s)\<lparr>cw_NewStream := rest\<rparr>\<rparr>))"

definition cl_Connect :: "'g DHTClient \<Rightarrow> err option \<times> 'g DHTClient" where
  "cl_Connect s =
     (case script_pop (Some DeadlineExceeded) (cw_Connect (cl_net s)) of
        (r, rest) \<Rightarrow> (r, s\<lparr>cl_net := (cl_net s)\<lparr>cw_Connect := rest\<rparr>\<rparr>))"

definition cl_deadline :: "'g DHTClient \<Rightarrow> nat \<times> 'g DHTClient" where
  "cl_deadline s =
     (case script_pop 0 (cw_turns (cl_net s)) of
        (n, rest) \<Rightarrow> (n, s\<lparr>cl_net := (cl_net s)\<lparr>cw_turns := rest\<rparr>\<rparr>))"

text \<open>A nil stream is written to or closed on every path, which panics.\<close>

definition cl_registerAgentAddress :: "codec \<Rightarrow> 'g DHTClient \<Rightarrow> unit res \<times> 'g DHTClient" where
  "cl_registerAgentAddress C s =
     (case cl_NewStream s of
        (Inl e, s1) \<Rightarrow> (Err e, s1)
      | (Inr None, s1) \<Rightarrow> (Panic, s1)
      | (Inr (Some stream), s1) \<Rightarrow>
          (case SendAgentRegisterMessage C StreamPipe stream (cl_myAgentRecord s1) of
             (r, st) \<Rightarrow> (r, cl_log (relayPeer s1) AeaRegisterRelayStream (stream_Close st) s1)))"

text \<open>The loop of \<open>newStreamLoopUntilTimeout\<close>, \<open>n\<close> turns before the deadline; whether it had to retry.\<close>

partial_function (option) stream_loop ::
  "nat \<Rightarrow> err + stream option \<Rightarrow> bool \<Rightarrow> 'g DHTClient \<Rightarrow> (stream option \<times> bool \<times> 'g DHTClient) option" where
  "stream_loop n r disconnected s =
     (case r of
        Inr st \<Rightarrow> Some (st, disconnected, s)
      | Inl e \<Rightarrow>
          (case n of
             0 \<Rightarrow> stream_loop 0 (Inl (ErrMsg ''new stream loop timeout reached'')) True s
           | Suc m \<Rightarrow> stream_loop m (fst (cl_NewStream s)) True (snd (cl_NewStream s))))"

text \<open>The caller gets the stream and logs it when it is done with it. When the registration that follows a retry fails, the
  caller gets only its error: the stream is neither used nor closed any more, and is logged here.\<close>

definition newStreamLoopUntilTimeout :: "codec \<Rightarrow> peerID \<Rightarrow> string \<Rightarrow> 'g DHTClient \<Rightarrow> stream res \<times> 'g DHTClient" where
  "newStreamLoopUntilTimeout C peerID streamType s =
     (case cl_deadline s of
        (n, s1) \<Rightarrow>
          (case cl_NewStream s1 of
             (r, s2) \<Rightarrow>
               (case stream_loop n r False s2 of
                  None \<Rightarrow> (Block, s2)
                | Some (None, disconnected, s3) \<Rightarrow> (Err (ErrMsg ''stream nil and err nil''), s3)
                | Some (Some st, disconnected, s3) \<Rightarrow>
                    if disconnected
                    then then_do (cl_registerAgentAddress C s3) (\<lambda>_ s4. (Ok st, s4)) (cl_log peerID streamType st)
                    else (Ok st, s3))))"

section \<open>Routing\<close>

text \<open>\<open>for !dhtClient.myAgentReady() { sleep }\<close>.\<close>

definition cl_await_ready :: "'g DHTClient \<Rightarrow> unit res \<times> 'g DHTClient" where
  "cl_await_ready s =
     (case dropWhile Not (cw_ready (cl_net s)) of
        [] \<Rightarrow> (Block, s\<lparr>cl_net := (cl_net s)\<lparr>cw_ready := []\<rparr>\<rparr>)
      | _ # rest \<Rightarrow> (Ok (), s\<lparr>cl_net := (cl_net s)\<lparr>cw_ready := rest\<rparr>\<rparr>))"

text \<open>An envelope for the client's own agent: \<open>None\<close> when \<open>RouteEnvelope\<close> goes on with the network,
  which it does after a successful local delivery too.\<close>

definition cl_route_local :: "Envelope \<Rightarrow> 'g DHTClient \<Rightarrow> unit res option \<times> 'g DHTClient" where
  "cl_route_local envel s =
     (case cl_await_ready s of
        (Ok _, s1) \<Rightarrow>
          (case cl_processEnvelope s1 of
             None \<Rightarrow> (Some (Ok ()), s1)
           | Some f \<Rightarrow>
               (case f envel (cl_agent s1) of
                  (Ok _, g) \<Rightarrow> (None, s1\<lparr>cl_agent := g\<rparr>)
                | (Err e, g) \<Rightarrow> (Some (Err e), s1\<lparr>cl_agent := g\<rparr>)
                | (Panic, g) \<Rightarrow> (Some Panic, s1\<lparr>cl_agent := g\<rparr>)
                | (Block, g) \<Rightarrow> (Some Block, s1\<lparr>cl_agent := g\<rparr>)))
      | (r, s1) \<Rightarrow> (Some r, s1))"

text \<open>The record of the target, from the relay: checked against the target's address.\<close>

definition cl_lookup :: "codec \<Rightarrow> crypto \<Rightarrow> address \<Rightarrow> 'g DHTClient \<Rightarrow> peerID res \<times> 'g DHTClient" where
  "cl_lookup C K target s =
     and_then (newStreamLoopUntilTimeout C (relayPeer s) AeaAddressStream s) (\<lambda>stream s1.
       case PerformAddressLookup C StreamPipe stream target of
         (r, st) \<Rightarrow>
           (let s2 = cl_log (relayPeer s1) AeaAddressStream st s1 in
            case r of
              Panic \<Rightarrow> (Panic, s2)
            | Block \<Rightarrow> (Block, s2)
            | Err e \<Rightarrow> (Err e, s2)
            | Ok None \<Rightarrow> (Panic, s2)
            | Ok (Some record) \<Rightarrow>
                (case IsValidProofOfRepresentation K (Some record) target (PeerPublicKey record) of
                   Panic \<Rightarrow> (Panic, s2)
                 | Block \<Rightarrow> (Block, s2)
                 | Err e \<Rightarrow> (Err e, s2)
                 | Ok (valid, err) \<Rightarrow>
                     (let errMsg = StatusCode_String (Code valid) @ '' : '' @ Join (Msgs valid) '':'' in
                      if err \<noteq> None \<or> Code valid \<noteq> SUCCESS
                      then (Err (case err of None \<Rightarrow> ErrMsg errMsg | Some e \<Rightarrow> Wrapped e errMsg), s2)
                      else
                        let s3 = cl_log (relayPeer s1) AeaAddressStream (stream_Close st) s1 in
                        case IDFromFetchAIPublicKey K (PeerPublicKey record) of
                          Inl e \<Rightarrow>
                            (Err (ErrMsg (''CRITICAL route - couldn't get peer ID from record peerID:'' @ Error e)), s3)
                        | Inr peerID \<Rightarrow> (Ok peerID, s3)))))"

text \<open>The connection to the target: through the own relay, and if that fails by discovery.\<close>

definition cl_connect_target :: "crypto \<Rightarrow> peerID \<Rightarrow> 'g DHTClient \<Rightarrow> unit res \<times> 'g DHTClient" where
  "cl_connect_target K peerID s =
     (case cw_NewMultiaddr (cl_net s)
            (''/p2p/'' @ peer_String K (relayPeer s) @ ''/p2p-circuit/p2p/'' @ peer_String K peerID) of
        Inl e \<Rightarrow> (Err e, s)
      | Inr relayMultiaddr \<Rightarrow>
          (case cl_Connect s of
             (None, s1) \<Rightarrow> (Ok (), s1)
           | (Some _, s1) \<Rightarrow>
               (case cl_Connect s1 of (None, s2) \<Rightarrow> (Ok (), s2) | (Some e, s2) \<Rightarrow> (Err e, s2))))"

definition cl_send :: "codec \<Rightarrow> Envelope \<Rightarrow> peerID \<Rightarrow> 'g DHTClient \<Rightarrow> unit res \<times> 'g DHTClient" where
  "cl_send C envel peerID s =
     and_then (newStreamLoopUntilTimeout C peerID AeaEnvelopeStream s) (\<lambda>stream s1.
       case env_Marshal C envel of
         Inl e \<Rightarrow> (Err e, cl_log peerID AeaEnvelopeStream (stream_Reset stream) s1)
       | Inr envelBytes \<Rightarrow>
           (case SendEnvelopeMessage C StreamPipe stream envelBytes (cl_myAgentRecord s1) of
              (Panic, st) \<Rightarrow> (Panic, cl_log peerID AeaEnvelopeStream st s1)
            | (Block, st) \<Rightarrow> (Block, cl_log peerID AeaEnvelopeStream st s1)
            | (Err e, st) \<Rightarrow> (Err e, cl_log peerID AeaEnvelopeStream (stream_Reset st) s1)
            | (Ok _, st) \<Rightarrow>
                (case ReadAcnStatus C StreamPipe st of
                   (Panic, st1) \<Rightarrow> (Panic, cl_log peerID AeaEnvelopeStream st1 s1)
                 | (Block, st1) \<Rightarrow> (Block, cl_log peerID AeaEnvelopeStream st1 s1)
                 | (Err e, st1) \<Rightarrow> (Err e, cl_log peerID AeaEnvelopeStream (stream_Reset st1) s1)
                 | (Ok status, st1) \<Rightarrow>
                     (let s2 = cl_log peerID AeaEnvelopeStream (stream_Close st1) s1 in
                      case status of
                        None \<Rightarrow> (Panic, s2)
                      | Some stb \<Rightarrow>
                          if Code stb \<noteq> SUCCESS
                          then (Err (ErrMsg (StatusCode_String (Code stb) @ '' : '' @ Join (Msgs stb) '':'')), s2)
                          else (Ok (), s2)))))"

definition cl_RouteEnvelope :: "codec \<Rightarrow> crypto \<Rightarrow> Envelope \<Rightarrow> 'g DHTClient \<Rightarrow> unit res \<times> 'g DHTClient" where
  "cl_RouteEnvelope C K envel s =
     (if Sender envel \<noteq> cl_myAgentAddress s
      then (Err (ErrMsg (''Sender ('' @ Sender envel @ '') must match registered address'')), s)
      else
        let target = To envel;
            (r, s1) = (if target = cl_myAgentAddress s then cl_route_local envel s else (None, s))
        in case r of
          Some x \<Rightarrow> (x, s1)
        | None \<Rightarrow>
            and_then (cl_lookup C K target s1) (\<lambda>peerID s2.
              and_then (cl_connect_target K peerID s2) (\<lambda>_ s3. cl_send C envel peerID s3)))"

section \<open>Handlers\<close>

definition cl_HandleAeaEnvelope :: "Envelope \<Rightarrow> 'g DHTClient \<Rightarrow> unit res \<times> 'g DHTClient" where
  "cl_HandleAeaEnvelope envel s =
     (case (if To envel = cl_myAgentAddress s then cl_processEnvelope s else None) of
        Some f \<Rightarrow>
          (case f envel (cl_agent s) of
             (Ok _, g) \<Rightarrow> (Ok (), s\<lparr>cl_agent := g\<rparr>)
           | (Err e, g) \<Rightarrow>
               (Err (ACNError ERROR_AGENT_NOT_READY (ErrMsg ''agent is not ready'')), s\<lparr>cl_agent := g\<rparr>)
           | (Panic, g) \<Rightarrow> (Panic, s\<lparr>cl_agent := g\<rparr>)
           | (Block, g) \<Rightarrow> (Block, s\<lparr>cl_agent := g\<rparr>))
      | None \<Rightarrow> (Err (ACNError ERROR_UNKNOWN_AGENT_ADDRESS (ErrMsg ''unknown agent address'')), s))"

definition cl_HandleAeaAddressRequest ::
  "string \<Rightarrow> 'g DHTClient \<Rightarrow> AgentRecord option res \<times> 'g DHTClient" where
  "cl_HandleAeaAddressRequest reqAddress s =
     (if reqAddress \<noteq> cl_myAgentAddress s
      then (Err (ACNError ERROR_UNKNOWN_AGENT_ADDRESS (ErrMsg ''unknown agent address'')), s)
      else (Ok (cl_myAgentRecord s), s))"

definition client_handler :: "'g DHTClient DHTHandler" where
  "client_handler = \<lparr>handle_envelope = cl_HandleAeaEnvelope, handle_address = cl_HandleAeaAddressRequest\<rparr>"

definition cl_handleAeaEnvelopeStream ::
  "codec \<Rightarrow> crypto \<Rightarrow> stream \<Rightarrow> 'g DHTClient \<Rightarrow> unit res \<times> stream \<times> 'g DHTClient" where
  "cl_handleAeaEnvelopeStream C K st s = HandleAeaEnvelopeStream C K client_handler st s"

definition cl_handleAeaAddressStream ::
  "codec \<Rightarrow> stream \<Rightarrow> 'g DHTClient \<Rightarrow> unit res \<times> stream \<times> 'g DHTClient" where
  "cl_handleAeaAddressStream C st s = HandleAeaAddressStream C client_handler st s"

section \<open>Configuration\<close>

text \<open>The checks of \<open>New\<close> before any network is touched.\<close>

definition cl_New_checks :: "crypto \<Rightarrow> 'g DHTClient \<Rightarrow> unit res" where
  "cl_New_checks K s =
     (if cl_key s = None then Err (ErrMsg ''private key must be provided'')
      else if cl_myAgentAddress s = [] then Err (ErrMsg ''missing agent address'')
      else case cl_myAgentRecord s of
        None \<Rightarrow> Err (ErrMsg ''missing agent record'')
      | Some r \<Rightarrow>
          (let k = FetchAIPublicKeyFromPubKey K (cl_publicKey s);
               myPublicKey = (case k of Inl _ \<Rightarrow> [] | Inr x \<Rightarrow> x)
           in case IsValidProofOfRepresentation K (Some r) (Address r) myPublicKey of
                Panic \<Rightarrow> Panic
              | Block \<Rightarrow> Block
              | Err e \<Rightarrow> Err e
              | Ok (status, errPoR) \<Rightarrow>
                  if (\<exists>e. k = Inl e) \<or> errPoR \<noteq> None \<or> Code status \<noteq> SUCCESS
                  then Err (ErrMsg (''Invalid AgentRecord''
                    @ (case k of Inl e \<Rightarrow> '' - '' @ Error e | Inr _ \<Rightarrow> [])
                    @ (case errPoR of Some e \<Rightarrow> '' - '' @ Error e | None \<Rightarrow> [])))
                  else if length (cl_bootstrapPeers s) < 1
                  then Err (ErrMsg ''at least one boostrap peer should be provided'')
                  else Ok ()))"

definition cl_ProcessEnvelope :: "(Envelope \<Rightarrow> 'g \<Rightarrow> unit res \<times> 'g) \<Rightarrow> 'g DHTClient \<Rightarrow> 'g DHTClient" where
  "cl_ProcessEnvelope f s = s\<lparr>cl_processEnvelope := Some f\<rparr>"

definition cl_PeerID :: "crypto \<Rightarrow> 'g DHTClient \<Rightarrow> string" where
  "cl_PeerID K s = peer_String K (case IDFromPublicKey K (cl_publicKey s) of Inl _ \<Rightarrow> [] | Inr i \<Rightarrow> i)"

definition cl_MultiAddr :: "'g DHTClient \<Rightarrow> string" where
  "cl_MultiAddr s = []"

definition cl_Close :: "err option \<Rightarrow> err option \<Rightarrow> 'g DHTClient \<Rightarrow> err list res \<times> 'g DHTClient" where
  "cl_Close dht_err host_err s =
     (if cl_closed s then (Panic, s)
      else (Ok (concat (map (case_option [] (\<lambda>e. [e])) [dht_err, host_err])), s\<lparr>cl_closed := True\<rparr>))"

text \<open>\<open>waitForCircuitAddress\<close>: the polls of the host's addresses before the deadline; an address is the list of
  its protocols, each only as whether its code is \<open>P_CIRCUIT\<close>.\<close>

fun waitForCircuitAddress :: "bool list list list \<Rightarrow> err option" where
  "waitForCircuitAddress [] = Some (ErrMsg ''timed out waiting for /p2p-circuit address from auto-relay'')"
| "waitForCircuitAddress (addrs # polls) = (if list_ex (list_ex id) addrs then None else waitForCircuitAddress polls)"

text \<open>What the libraries answer while \<open>New\<close> sets the node up: \<open>libp2p.New\<close>, \<open>kaddht.New\<close>, the
  \<open>BootstrapConnect\<close> calls (the first, the others, the turns before the deadline), \<open>dht.Bootstrap\<close>, the
  polled addresses.\<close>

record client_setup =
  su_libp2p :: "err option"
  su_kaddht :: "err option"
  su_connect :: "err option"
  su_connects :: "err option list"
  su_turns :: nat
  su_Bootstrap :: "err option"
  su_Addrs :: "bool list list list"

text \<open>\<open>New\<close>, from the options' configuration to the client that can be used; \<open>index\<close> is the random number for the relay.\<close>

text \<open>The end of \<open>New\<close>: the reservation at a relay is waited for, then the own address is registered there. The handlers
  that follow are the functions below.\<close>

definition cl_New_register :: "codec \<Rightarrow> client_setup \<Rightarrow> 'g DHTClient \<Rightarrow> unit res \<times> 'g DHTClient" where
  "cl_New_register C su s =
     (case waitForCircuitAddress (su_Addrs su) of
        Some e \<Rightarrow> (Err (Wrapped e ''auto-relay reservation never completed''), snd (cl_Close None None s))
      | None \<Rightarrow>
          (case cl_registerAgentAddress C s of
             (Err e, t) \<Rightarrow> (Err e, snd (cl_Close None None t))
           | r \<Rightarrow> r))"

definition cl_New :: "codec \<Rightarrow> crypto \<Rightarrow> nat \<Rightarrow> client_setup \<Rightarrow> 'g DHTClient \<Rightarrow> unit res \<times> 'g DHTClient" where
  "cl_New C K index su s0 =
     and_then (cl_New_checks K s0, s0) (\<lambda>_ s1.
       let s = s1\<lparr>relayPeer := cl_bootstrapPeers s1 ! (index mod length (cl_bootstrapPeers s1))\<rparr>
       in case su_libp2p su of
            Some e \<Rightarrow> (Err e, s)
          | None \<Rightarrow>
        (case su_kaddht su of
            Some e \<Rightarrow> (Err e, s)
          | None \<Rightarrow>
        (case bootstrap_loop (su_turns su) (su_connect su) (su_connects su) of
            None \<Rightarrow> (Block, s)
          | Some _ \<Rightarrow>
        (case su_Bootstrap su of
            Some e \<Rightarrow> (Err e, snd (cl_Close None None s))
          | None \<Rightarrow> cl_New_register C su s))))"

text \<open>\<open>Notifee.Disconnected\<close>: the turns of the reconnection loop, each with whether \<open>closing\<close> is closed and the
  answer of \<open>Connect\<close>.\<close>

fun reconnect_loop :: "(bool \<times> err option) list \<Rightarrow> unit res" where
  "reconnect_loop [] = Block"
| "reconnect_loop ((closing, e) # turns) =
     (if closing then Ok () else case e of None \<Rightarrow> Ok () | Some _ \<Rightarrow> reconnect_loop turns)"

definition cl_Disconnected :: "crypto \<Rightarrow> peerID \<Rightarrow> peerID \<Rightarrow> (bool \<times> err option) list \<Rightarrow> unit res" where
  "cl_Disconnected K myRelayPeer remote turns =
     (if peer_String K remote \<noteq> peer_String K myRelayPeer then Ok () else reconnect_loop turns)"

section \<open>The loops\<close>

lemma stream_loop_after_deadline:
  assumes "stream_loop n r d s = Some y"
  shows "n = 0 \<longrightarrow> r = Inr (fst y)"
proof (rule stream_loop.raw_induct [where P = "\<lambda>n r d s y. n = 0 \<longrightarrow> r = Inr (fst y)", OF _ assms], goal_cases)
  case (1 f n r d s y)
  show ?case
  proof (cases r)
    case (Inl e)
    have "r = Inr (fst y)" if "n = 0"
      using 1(1) [of 0 "Inl (ErrMsg ''new stream loop timeout reached'')" True s y] 1(2) that Inl by simp
    then show ?thesis by blast
  qed (use 1(2) in auto)
qed

lemma stream_loop_timeout: "stream_loop 0 (Inl e) d s = None"
  using stream_loop_after_deadline [of 0 "Inl e" d s] by (cases "stream_loop 0 (Inl e) d s") auto

lemma bootstrap_loop_after_deadline:
  assumes "bootstrap_loop n e answers = Some y"
  shows "n = 0 \<longrightarrow> e = None"
proof (rule bootstrap_loop.raw_induct [where P = "\<lambda>n e as y. n = 0 \<longrightarrow> e = None", OF _ assms], goal_cases)
  case (1 f n e as y)
  show ?case
  proof (cases e)
    case (Some x)
    have "e = None" if "n = 0"
      using 1(1) [of 0 "Some (ErrMsg ''bootstrap connect timeout reached'')" as y] 1(2) that Some by simp
    then show ?thesis by blast
  qed simp
qed

lemma bootstrap_loop_timeout: "bootstrap_loop 0 (Some e) answers = None"
  using bootstrap_loop_after_deadline [of 0 "Some e" answers] by (cases "bootstrap_loop 0 (Some e) answers") auto

text \<open>The loop returns exactly when one of the attempts before the deadline opens a stream.\<close>

lemma stream_loop_returns:
  "(\<exists>y. stream_loop n r d s = Some y) \<longleftrightarrow>
    (\<exists>st. r = Inr st) \<or> (\<exists>x \<in> set (take n (cw_NewStream (cl_net s))). \<exists>st. x = Inr st)"
proof (induction n arbitrary: r d s)
  case 0
  show ?case by (cases r) (simp_all add: stream_loop_timeout stream_loop.simps [of _ "Inr st" for st])
next
  case (Suc n)
  show ?case
  proof (cases r)
    case (Inl e)
    have step: "stream_loop (Suc n) (Inl e) d s = stream_loop n (fst (cl_NewStream s)) True (snd (cl_NewStream s))"
      by (simp add: stream_loop.simps [of "Suc n"])
    show ?thesis
    proof (cases "cw_NewStream (cl_net s)")
      case Nil
      with Inl step Suc.IH [of "fst (cl_NewStream s)" True "snd (cl_NewStream s)"] show ?thesis
        by (simp add: cl_NewStream_def script_pop_def)
    next
      case (Cons x xs)
      with Inl step Suc.IH [of "fst (cl_NewStream s)" True "snd (cl_NewStream s)"] show ?thesis
        by (simp add: cl_NewStream_def script_pop_def)
    qed
  qed (simp add: stream_loop.simps [of "Suc n"])
qed

section \<open>The client as a handler\<close>

definition client_inv :: "'g DHTClient \<Rightarrow> bool" where
  "client_inv s \<longleftrightarrow> (\<exists>r. cl_myAgentRecord s = Some r \<and> Address r = cl_myAgentAddress s)"

interpretation client: dht_handler client_handler client_inv
  by (unfold_locales, auto simp: client_handler_def cl_HandleAeaEnvelope_def cl_HandleAeaAddressRequest_def
      client_inv_def split: if_splits option.splits prod.splits res.splits) metis

section \<open>Retrying\<close>

text \<open>The state after \<open>k\<close> answers of \<open>NewStream\<close> have been used up.\<close>

abbreviation asked :: "nat \<Rightarrow> 'g DHTClient \<Rightarrow> 'g DHTClient" where
  "asked k s \<equiv> s\<lparr>cl_net := (cl_net s)\<lparr>cw_NewStream := drop k (cw_NewStream (cl_net s))\<rparr>\<rparr>"

lemma cl_NewStream_next: "cw_NewStream (cl_net s) = x # xs \<Longrightarrow> cl_NewStream s = (x, asked 1 s)"
  by (simp add: cl_NewStream_def script_pop_def)

lemma stream_loop_run:
  "\<lbrakk>cw_NewStream (cl_net s) = map Inl es @ Inr st # rest; length es < n\<rbrakk> \<Longrightarrow>
    stream_loop n (Inl e) d s = Some (st, True, asked (Suc (length es)) s)"
proof (induction es arbitrary: n e d s)
  case Nil
  then show ?case
    by (cases n) (simp_all add: stream_loop.simps [of "Suc m" for m] stream_loop.simps [of _ "Inr st"]
        cl_NewStream_next)
next
  case (Cons x es)
  then obtain m where m: "n = Suc m" "length es < m" by (cases n) auto
  let ?t = "asked 1 s"
  have "stream_loop m (Inl x) True ?t = Some (st, True, asked (Suc (length es)) ?t)"
    using Cons.IH [of ?t m x True] Cons.prems(1) m(2) by simp
  then show ?case
    using m(1) Cons.prems(1) cl_NewStream_next [of s "Inl x"]
    by (simp add: stream_loop.simps [of "Suc m"])
qed

section \<open>Routing\<close>

lemma cl_lookup_proven:
  assumes "cl_lookup C K target s = (Ok p, s')"
  shows "\<exists>r. valid_proof K r target (PeerPublicKey r) \<and> IDFromFetchAIPublicKey K (PeerPublicKey r) = Inr p"
proof -
  obtain st s1 where "newStreamLoopUntilTimeout C (relayPeer s) AeaAddressStream s = (Ok st, s1)"
    using assms by (auto simp: cl_lookup_def then_do_Ok)
  moreover obtain r st1 where "PerformAddressLookup C StreamPipe st target = (r, st1)"
    by (cases "PerformAddressLookup C StreamPipe st target")
  ultimately obtain rec valid where
      "IsValidProofOfRepresentation K (Some rec) target (PeerPublicKey rec) = Ok (valid, None)"
      "IDFromFetchAIPublicKey K (PeerPublicKey rec) = Inr p"
    using assms
    by (auto simp: cl_lookup_def Let_def split: res.splits option.splits if_splits sum.splits)
  then show ?thesis using PoR_success_iff [of K rec target "PeerPublicKey rec"] by blast
qed

lemma cl_send_acknowledged:
  assumes "cl_send C e p s = (Ok (), s')"
  shows "\<exists>st st1 stb eb. env_Marshal C e = Inr eb
    \<and> SendEnvelopeMessage C StreamPipe st eb (cl_myAgentRecord (snd (newStreamLoopUntilTimeout C p AeaEnvelopeStream s))) = (Ok (), st1)
    \<and> fst (ReadAcnStatus C StreamPipe st1) = Ok (Some stb) \<and> Code stb = SUCCESS
    \<and> last (cw_used (cl_net s')) = (p, AeaEnvelopeStream, stream_Close (snd (ReadAcnStatus C StreamPipe st1)))"
proof -
  obtain st s1 where st: "newStreamLoopUntilTimeout C p AeaEnvelopeStream s = (Ok st, s1)"
    using assms by (auto simp: cl_send_def then_do_Ok)
  obtain eb where eb: "env_Marshal C e = Inr eb"
    using assms st by (auto simp: cl_send_def split: sum.splits)
  obtain st1 where st1: "SendEnvelopeMessage C StreamPipe st eb (cl_myAgentRecord s1) = (Ok (), st1)"
    using assms st eb by (auto simp: cl_send_def split: prod.splits res.splits)
  obtain r st2 where st2: "ReadAcnStatus C StreamPipe st1 = (r, st2)" by (cases "ReadAcnStatus C StreamPipe st1")
  have "\<exists>stb. r = Ok (Some stb) \<and> Code stb = SUCCESS \<and> s' = cl_log p AeaEnvelopeStream (stream_Close st2) s1"
    using assms st eb st1 st2
    by (auto simp: cl_send_def Let_def split: res.splits option.splits if_splits)
  then show ?thesis
    using st eb st1 st2 by (intro exI [of _ st] exI [of _ st1]) (auto simp: cl_log_def)
qed

section \<open>What routing changes\<close>

text \<open>Only the network and, by the callback, the agent. Of the streams that are used in addition, those that do not carry
  an envelope go to the relay.\<close>

definition cl_confined :: "peerID \<Rightarrow> (peerID \<times> string \<times> stream) list \<Rightarrow> (peerID \<times> string \<times> stream) list \<Rightarrow> bool" where
  "cl_confined relay before after \<longleftrightarrow>
     (\<exists>more. after = before @ more \<and> (\<forall>(p, proto, st) \<in> set more. proto = AeaEnvelopeStream \<or> p = relay))"

definition cl_frame :: "'g DHTClient \<Rightarrow> 'g DHTClient \<Rightarrow> bool" where
  "cl_frame s s' \<longleftrightarrow>
     (\<exists>n g. s' = s\<lparr>cl_net := n, cl_agent := g\<rparr> \<and> delivered (cl_processEnvelope s) (cl_agent s) g
        \<and> cl_confined (relayPeer s) (cw_used (cl_net s)) (cw_used n))"

lemma cl_confined_refl [simp]: "cl_confined relay used used"
  by (simp add: cl_confined_def)

lemma cl_confined_trans: "\<lbrakk>cl_confined relay a b; cl_confined relay b c\<rbrakk> \<Longrightarrow> cl_confined relay a c"
  by (auto simp: cl_confined_def)

lemma cl_confined_more: "proto = AeaEnvelopeStream \<or> p = relay \<Longrightarrow> cl_confined relay used (used @ [(p, proto, st)])"
  by (simp add: cl_confined_def)

lemma cl_frame_net [simp]: "cl_confined (relayPeer s) (cw_used (cl_net s)) (cw_used n) \<Longrightarrow> cl_frame s (s\<lparr>cl_net := n\<rparr>)"
  unfolding cl_frame_def by (intro exI [of _ n] exI [of _ "cl_agent s"]) simp

lemma cl_frame_agent: "\<lbrakk>cl_processEnvelope s = Some f; f e (cl_agent s) = (r, g)\<rbrakk> \<Longrightarrow> cl_frame s (s\<lparr>cl_agent := g\<rparr>)"
  unfolding cl_frame_def by (intro exI [of _ "cl_net s"] exI [of _ g]) (simp add: delivered_call)

lemma cl_frame_refl [simp]: "cl_frame s s"
  using cl_frame_net [of s "cl_net s"] by simp

lemma cl_frame_trans:
  assumes "cl_frame s s'" and "cl_frame s' s''"
  shows "cl_frame s s''"
proof -
  obtain n g where 1: "s' = s\<lparr>cl_net := n, cl_agent := g\<rparr>" "delivered (cl_processEnvelope s) (cl_agent s) g"
      "cl_confined (relayPeer s) (cw_used (cl_net s)) (cw_used n)"
    using assms(1) by (auto simp: cl_frame_def)
  moreover obtain n' g' where "s'' = s'\<lparr>cl_net := n', cl_agent := g'\<rparr>" "delivered (cl_processEnvelope s') (cl_agent s') g'"
      "cl_confined (relayPeer s') (cw_used (cl_net s')) (cw_used n')"
    using assms(2) by (auto simp: cl_frame_def)
  ultimately have "s'' = s\<lparr>cl_net := n', cl_agent := g'\<rparr> \<and> delivered (cl_processEnvelope s) (cl_agent s) g'
      \<and> cl_confined (relayPeer s) (cw_used (cl_net s)) (cw_used n')"
    by (auto intro: delivered_trans cl_confined_trans)
  then show ?thesis unfolding cl_frame_def by blast
qed

lemma cl_frame_fields:
  "cl_frame s s' \<Longrightarrow> cl_myAgentRecord s' = cl_myAgentRecord s \<and> cl_myAgentAddress s' = cl_myAgentAddress s
    \<and> relayPeer s' = relayPeer s \<and> cl_closed s' = cl_closed s \<and> cl_processEnvelope s' = cl_processEnvelope s
    \<and> cl_bootstrapPeers s' = cl_bootstrapPeers s \<and> cl_publicKey s' = cl_publicKey s"
  by (auto simp: cl_frame_def)

lemma cl_frame_delivered: "cl_frame s s' \<Longrightarrow> delivered (cl_processEnvelope s) (cl_agent s) (cl_agent s')"
  by (auto simp: cl_frame_def)

lemma cl_log_frame [simp]: "proto = AeaEnvelopeStream \<or> p = relayPeer s \<Longrightarrow> cl_frame s (cl_log p proto st s)"
  by (simp add: cl_log_def cl_confined_more)

lemma cl_NewStream_frame [simp]: "cl_frame s (snd (cl_NewStream s))"
  by (simp add: cl_NewStream_def split: prod.splits)

lemma cl_NewStream_frame': "cl_NewStream s = (r, s') \<Longrightarrow> cl_frame s s'"
  using cl_NewStream_frame [of s] by simp

lemma stream_loop_frame:
  assumes "stream_loop n r d s = Some y"
  shows "cl_frame s (snd (snd y))"
proof (rule stream_loop.raw_induct [where P = "\<lambda>n r d s y. cl_frame s (snd (snd y))", OF _ assms], goal_cases)
  case (1 f n r d s y)
  show ?case
  proof (cases r)
    case (Inl e)
    show ?thesis
    proof (cases n)
      case 0
      with 1(2) Inl show ?thesis by (intro 1(1)) simp
    next
      case (Suc m)
      with 1(2) Inl have "cl_frame (snd (cl_NewStream s)) (snd (snd y))"
        by (intro 1(1) [of m "fst (cl_NewStream s)" True]) simp
      then show ?thesis by (rule cl_frame_trans [OF cl_NewStream_frame])
    qed
  qed (use 1(2) in auto)
qed

lemma cl_registerAgentAddress_frame: "cl_registerAgentAddress C s = (r, s') \<Longrightarrow> cl_frame s s'"
  by (auto simp: cl_registerAgentAddress_def split: prod.splits sum.splits option.splits
      dest: cl_NewStream_frame' intro: cl_frame_trans [OF cl_NewStream_frame' cl_log_frame])

text \<open>The ways in which the wait for a stream ends.\<close>

lemma newStream_cases:
  assumes "newStreamLoopUntilTimeout C p proto s = (r, s')"
  obtains (waits) n s1 x where "cl_deadline s = (n, s1)" and "cl_NewStream s1 = (x, s')" and "r = Block"
  | (opened) n s1 x s2 st d where "cl_deadline s = (n, s1)" and "cl_NewStream s1 = (x, s2)"
      and "stream_loop n x False s2 = Some (st, d, s')"
  | (registered) n s1 x s2 st s3 where "cl_deadline s = (n, s1)" and "cl_NewStream s1 = (x, s2)"
      and "stream_loop n x False s2 = Some (Some st, True, s3)" and "cl_registerAgentAddress C s3 = (Ok (), s')"
  | (unregistered) n s1 x s2 st s3 y s4 where "cl_deadline s = (n, s1)" and "cl_NewStream s1 = (x, s2)"
      and "stream_loop n x False s2 = Some (Some st, True, s3)" and "cl_registerAgentAddress C s3 = (y, s4)"
      and "s' = cl_log p proto st s4"
proof -
  obtain n s1 where 1: "cl_deadline s = (n, s1)" by (cases "cl_deadline s")
  obtain x s2 where 2: "cl_NewStream s1 = (x, s2)" by (cases "cl_NewStream s1")
  show thesis
  proof (cases "stream_loop n x False s2")
    case None
    with assms 1 2 waits show thesis by (simp add: newStreamLoopUntilTimeout_def)
  next
    case (Some y)
    obtain st d s3 where y: "y = (st, d, s3)" by (cases y)
    obtain z s4 where z: "cl_registerAgentAddress C s3 = (z, s4)" by (cases "cl_registerAgentAddress C s3")
    from assms 1 2 Some y z opened [OF 1 2] registered [OF 1 2] unregistered [OF 1 2] show thesis
      by (cases st; cases d; cases z) (auto simp: newStreamLoopUntilTimeout_def)
  qed
qed

lemma cl_deadline_frame: "cl_deadline s = (n, s') \<Longrightarrow> cl_frame s s'"
  by (auto simp: cl_deadline_def split: prod.splits)

lemma newStream_frame:
  assumes "newStreamLoopUntilTimeout C p proto s = (r, s')" and "proto = AeaEnvelopeStream \<or> p = relayPeer s"
  shows "cl_frame s s'"
  using assms(1)
proof (cases rule: newStream_cases)
  case waits
  then show ?thesis by (blast intro: cl_frame_trans cl_deadline_frame cl_NewStream_frame')
next
  case (opened n s1 x s2 st d)
  then show ?thesis
    using stream_loop_frame [OF opened(3)] cl_frame_trans [OF cl_deadline_frame cl_NewStream_frame'] cl_frame_trans by fastforce
next
  case (registered n s1 x s2 st s3)
  have "cl_frame s s3"
    using stream_loop_frame [OF registered(3)] cl_frame_trans [OF cl_deadline_frame [OF registered(1)] cl_NewStream_frame' [OF registered(2)]]
      cl_frame_trans by fastforce
  then show ?thesis using cl_registerAgentAddress_frame [OF registered(4)] by (rule cl_frame_trans)
next
  case (unregistered n s1 x s2 st s3 y s4)
  have "cl_frame s s3"
    using stream_loop_frame [OF unregistered(3)]
      cl_frame_trans [OF cl_deadline_frame [OF unregistered(1)] cl_NewStream_frame' [OF unregistered(2)]] cl_frame_trans by fastforce
  then have f: "cl_frame s s4" using cl_registerAgentAddress_frame [OF unregistered(4)] by (rule cl_frame_trans)
  then have "cl_frame s4 s'" using assms(2) cl_frame_fields [OF f] unregistered(5) by simp
  with f show ?thesis by (rule cl_frame_trans)
qed

lemma cl_lookup_frame: "cl_lookup C K a s = (r, s') \<Longrightarrow> cl_frame s s'"
proof -
  assume "cl_lookup C K a s = (r, s')"
  moreover obtain x s1 where 1: "newStreamLoopUntilTimeout C (relayPeer s) AeaAddressStream s = (x, s1)"
    by (cases "newStreamLoopUntilTimeout C (relayPeer s) AeaAddressStream s")
  ultimately have "s' = s1 \<or> (\<exists>st. s' = cl_log (relayPeer s1) AeaAddressStream st s1)"
    by (cases x)
      (auto simp: cl_lookup_def Let_def split: prod.splits sum.splits res.splits option.splits if_splits)
  with newStream_frame [OF 1] show ?thesis by (auto intro: cl_frame_trans)
qed

lemma cl_connect_target_frame: "cl_connect_target K p s = (r, s') \<Longrightarrow> cl_frame s s'"
  by (auto simp: cl_connect_target_def cl_Connect_def split: prod.splits sum.splits option.splits)

lemma cl_await_ready_frame: "cl_await_ready s = (r, s') \<Longrightarrow> cl_frame s s'"
  by (auto simp: cl_await_ready_def split: list.splits)

lemma cl_route_local_frame:
  assumes "cl_route_local e s = (r, s')"
  shows "cl_frame s s' \<and> (r = Some (Ok ()) \<longrightarrow> cl_processEnvelope s = None)"
proof -
  obtain x s1 where 1: "cl_await_ready s = (x, s1)" by (cases "cl_await_ready s")
  have f: "cl_frame s s1" using cl_await_ready_frame [OF 1] .
  have x: "x = Ok () \<or> x = Block" using 1 by (auto simp: cl_await_ready_def split: list.splits)
  have "cl_processEnvelope s1 = cl_processEnvelope s" using cl_frame_fields [OF f] by simp
  then have "cl_frame s (s1\<lparr>cl_agent := g\<rparr>)" if "cl_processEnvelope s = Some h" "h e (cl_agent s1) = (y, g)" for h y g
    using that cl_frame_trans [OF f cl_frame_agent] by simp
  with \<open>cl_processEnvelope s1 = cl_processEnvelope s\<close> assms 1 x f show ?thesis
    by (cases "cl_processEnvelope s") (auto simp: cl_route_local_def split: prod.splits res.splits)
qed

lemma cl_send_frame: "cl_send C e p s = (r, s') \<Longrightarrow> cl_frame s s'"
proof -
  assume "cl_send C e p s = (r, s')"
  moreover obtain x s1 where 1: "newStreamLoopUntilTimeout C p AeaEnvelopeStream s = (x, s1)"
    by (cases "newStreamLoopUntilTimeout C p AeaEnvelopeStream s")
  ultimately have "s' = s1 \<or> (\<exists>st. s' = cl_log p AeaEnvelopeStream st s1)"
    by (cases x) (auto simp: cl_send_def Let_def split: prod.splits sum.splits res.splits option.splits if_splits)
  with newStream_frame [OF 1] show ?thesis by (auto intro: cl_frame_trans)
qed

lemma cl_RouteEnvelope_frame:
  assumes "cl_RouteEnvelope C K e s = (r, s')"
  shows "cl_frame s s'"
proof (cases "Sender e = cl_myAgentAddress s")
  case True
  let ?x = "if To e = cl_myAgentAddress s then cl_route_local e s else (None, s)"
  obtain x s1 where 1: "?x = (x, s1)" by (cases ?x)
  have f1: "cl_frame s s1" using 1 cl_route_local_frame [of e s] by (auto split: if_splits)
  obtain y s2 where 2: "cl_lookup C K (To e) s1 = (y, s2)" by (cases "cl_lookup C K (To e) s1")
  have f2: "cl_frame s s2" using f1 cl_lookup_frame [OF 2] by (rule cl_frame_trans)
  have f3: "cl_frame s s3" if "cl_connect_target K p s2 = (z, s3)" for p z s3
    using f2 cl_connect_target_frame [OF that] by (rule cl_frame_trans)
  have f4: "cl_frame s t" if "cl_connect_target K p s2 = (z, s3)" "cl_send C e p s3 = (u, t)" for p z s3 u t
    using f3 [OF that(1)] cl_send_frame [OF that(2)] by (rule cl_frame_trans)
  consider "s' = s1" | "s' = s2" | p z where "cl_connect_target K p s2 = (z, s')"
    | p z s3 u where "cl_connect_target K p s2 = (z, s3)" "cl_send C e p s3 = (u, s')"
    using assms True 1 2 unfolding cl_RouteEnvelope_def
    by (cases x; cases y; cases "cl_connect_target K (case y of Ok p \<Rightarrow> p) s2"; cases "fst (cl_connect_target K (case y of Ok p \<Rightarrow> p) s2)") auto
  then show ?thesis using f1 f2 f3 f4 by cases auto
qed (use assms in \<open>auto simp: cl_RouteEnvelope_def\<close>)

text \<open>The streams that an operation opens, by peer and protocol.\<close>

definition cl_opens :: "(peerID \<times> string) set \<Rightarrow> 'g DHTClient \<Rightarrow> 'g DHTClient \<Rightarrow> bool" where
  "cl_opens A s s' \<longleftrightarrow>
     (\<exists>opened. cw_used (cl_net s') = cw_used (cl_net s) @ opened \<and> (\<forall>(p, proto, st) \<in> set opened. (p, proto) \<in> A))"

lemma cl_opens_same: "cw_used (cl_net s') = cw_used (cl_net s) \<Longrightarrow> cl_opens A s s'"
  by (simp add: cl_opens_def)

lemma cl_opens_trans: "\<lbrakk>cl_opens A s t; cl_opens A t u\<rbrakk> \<Longrightarrow> cl_opens A s u"
  by (auto simp: cl_opens_def)

lemma cl_opens_mono: "\<lbrakk>cl_opens A s t; A \<subseteq> B\<rbrakk> \<Longrightarrow> cl_opens B s t"
  by (fastforce simp: cl_opens_def)

lemma cl_opens_log: "(p, proto) \<in> A \<Longrightarrow> cl_opens A s (cl_log p proto st s)"
  by (simp add: cl_opens_def cl_log_def)

lemma stream_loop_used:
  assumes "stream_loop n r d s = Some y"
  shows "cw_used (cl_net (snd (snd y))) = cw_used (cl_net s)"
proof (rule stream_loop.raw_induct [where P = "\<lambda>n r d s y. cw_used (cl_net (snd (snd y))) = cw_used (cl_net s)", OF _ assms], goal_cases)
  case (1 f n r d s y)
  have "cw_used (cl_net (snd (cl_NewStream s))) = cw_used (cl_net s)" by (simp add: cl_NewStream_def split: prod.splits)
  with 1(2) show ?case
    by (cases r; cases n) (auto dest!: 1(1))
qed

lemma cl_registerAgentAddress_opens:
  "cl_registerAgentAddress C s = (r, s') \<Longrightarrow> cl_opens {(relayPeer s, AeaRegisterRelayStream)} s s'"
  by (auto simp: cl_registerAgentAddress_def cl_NewStream_def cl_opens_def cl_log_def split: prod.splits sum.splits option.splits)

lemma newStream_opens:
  assumes "newStreamLoopUntilTimeout C p proto s = (r, s')" and "(relayPeer s, AeaRegisterRelayStream) \<in> A" and "(p, proto) \<in> A"
  shows "cl_opens A s s'"
proof -
  have used: "cw_used (cl_net s2) = cw_used (cl_net s) \<and> relayPeer s2 = relayPeer s"
    if "cl_deadline s = (n, s1)" "cl_NewStream s1 = (x, s2)" for n s1 x s2
    using that by (auto simp: cl_deadline_def cl_NewStream_def split: prod.splits)
  have reg: "cl_opens A s s4" if "cl_deadline s = (n, s1)" "cl_NewStream s1 = (x, s2)"
      "stream_loop n x False s2 = Some (st, d, s3)" "cl_registerAgentAddress C s3 = (y, s4)" for n s1 x s2 st d s3 y s4
  proof -
    have "cw_used (cl_net s3) = cw_used (cl_net s)" "relayPeer s3 = relayPeer s"
      using used [OF that(1,2)] stream_loop_used [OF that(3)] cl_frame_fields [OF stream_loop_frame [OF that(3)]] by simp_all
    then have "cl_opens A s s3" and "cl_opens A s3 s4"
      using cl_opens_mono [OF cl_registerAgentAddress_opens [OF that(4)]] assms(2) cl_opens_same by auto
    then show ?thesis by (rule cl_opens_trans)
  qed
  from assms(1) show ?thesis
  proof (cases rule: newStream_cases)
    case (waits n s1 x)
    then show ?thesis using used by (intro cl_opens_same) blast
  next
    case (opened n s1 x s2 st d)
    then show ?thesis using used stream_loop_used [OF opened(3)] by (intro cl_opens_same) simp
  next
    case (registered n s1 x s2 st s3)
    then show ?thesis using reg by blast
  next
    case (unregistered n s1 x s2 st s3 y s4)
    then have "cl_opens A s s4" using reg by blast
    moreover have "cl_opens A s4 s'" using cl_opens_log [OF assms(3)] unregistered(5) by simp
    ultimately show ?thesis by (rule cl_opens_trans)
  qed
qed

lemma cl_lookup_opens:
  assumes "cl_lookup C K a s = (r, s')"
  shows "cl_opens {(relayPeer s, AeaRegisterRelayStream), (relayPeer s, AeaAddressStream)} s s'"
proof -
  obtain x s1 where 1: "newStreamLoopUntilTimeout C (relayPeer s) AeaAddressStream s = (x, s1)"
    by (cases "newStreamLoopUntilTimeout C (relayPeer s) AeaAddressStream s")
  have "s' = s1 \<or> (\<exists>st. s' = cl_log (relayPeer s1) AeaAddressStream st s1)"
    using assms 1 by (cases x)
      (auto simp: cl_lookup_def Let_def split: prod.splits sum.splits res.splits option.splits if_splits)
  moreover have "relayPeer s1 = relayPeer s" using cl_frame_fields [OF newStream_frame [OF 1]] by simp
  ultimately show ?thesis
    using newStream_opens [OF 1, of "{(relayPeer s, AeaRegisterRelayStream), (relayPeer s, AeaAddressStream)}"]
    by (auto intro: cl_opens_trans cl_opens_log)
qed

lemma cl_send_opens:
  assumes "cl_send C e p s = (r, s')"
  shows "cl_opens {(relayPeer s, AeaRegisterRelayStream), (p, AeaEnvelopeStream)} s s'"
proof -
  obtain x s1 where 1: "newStreamLoopUntilTimeout C p AeaEnvelopeStream s = (x, s1)"
    by (cases "newStreamLoopUntilTimeout C p AeaEnvelopeStream s")
  have "s' = s1 \<or> (\<exists>st. s' = cl_log p AeaEnvelopeStream st s1)"
    using assms 1 by (cases x) (auto simp: cl_send_def Let_def split: prod.splits sum.splits res.splits option.splits if_splits)
  then show ?thesis
    using newStream_opens [OF 1, of "{(relayPeer s, AeaRegisterRelayStream), (p, AeaEnvelopeStream)}"]
    by (auto intro: cl_opens_trans cl_opens_log)
qed

lemma cl_route_local_used: "cl_route_local e s = (r, s') \<Longrightarrow> cw_used (cl_net s') = cw_used (cl_net s)"
  by (auto simp: cl_route_local_def cl_await_ready_def split: list.splits option.splits prod.splits res.splits)

lemma cl_connect_target_used: "cl_connect_target K p s = (r, s') \<Longrightarrow> cw_used (cl_net s') = cw_used (cl_net s)"
  by (auto simp: cl_connect_target_def cl_Connect_def split: prod.splits sum.splits option.splits)

text \<open>The streams of routing.\<close>

definition route_streams :: "crypto \<Rightarrow> Envelope \<Rightarrow> 'g DHTClient \<Rightarrow> (peerID \<times> string) set" where
  "route_streams K e s =
     {(relayPeer s, AeaRegisterRelayStream), (relayPeer s, AeaAddressStream)} \<union>
     {(p, proto). proto = AeaEnvelopeStream \<and> Sender e = cl_myAgentAddress s \<and>
       (\<exists>r. valid_proof K r (To e) (PeerPublicKey r) \<and> IDFromFetchAIPublicKey K (PeerPublicKey r) = Inr p)}"

lemma cl_RouteEnvelope_streams:
  assumes "cl_RouteEnvelope C K e s = (r, s')"
  shows "cl_opens (route_streams K e s) s s'"
proof (cases "Sender e = cl_myAgentAddress s")
  case True
  let ?x = "if To e = cl_myAgentAddress s then cl_route_local e s else (None, s)"
  obtain x s1 where 1: "?x = (x, s1)" by (cases ?x)
  have s1: "cl_frame s s1" "cw_used (cl_net s1) = cw_used (cl_net s)"
    using 1 cl_route_local_frame [of e s] cl_route_local_used [of e s] by (auto split: if_splits)
  obtain y s2 where 2: "cl_lookup C K (To e) s1 = (y, s2)" by (cases "cl_lookup C K (To e) s1")
  have relay: "relayPeer s1 = relayPeer s" "relayPeer s2 = relayPeer s"
    using cl_frame_fields [OF s1(1)] cl_frame_fields [OF cl_lookup_frame [OF 2]] by simp_all
  have o1: "cl_opens (route_streams K e s) s s1" using s1(2) by (rule cl_opens_same)
  have o2: "cl_opens (route_streams K e s) s s2"
    using cl_opens_mono [OF cl_lookup_opens [OF 2], of "route_streams K e s"] relay
    by (intro cl_opens_trans [OF o1]) (auto simp: route_streams_def)
  have o3: "cl_opens (route_streams K e s) s s3" if "cl_connect_target K p s2 = (z, s3)" for p z s3
    using cl_connect_target_used [OF that] by (intro cl_opens_trans [OF o2] cl_opens_same)
  have o4: "cl_opens (route_streams K e s) s t"
    if "y = Ok p" "cl_connect_target K p s2 = (z, s3)" "cl_send C e p s3 = (u, t)" for p z s3 u t
  proof -
    have "relayPeer s3 = relayPeer s" using cl_frame_fields [OF cl_connect_target_frame [OF that(2)]] relay by simp
    moreover have "(p, AeaEnvelopeStream) \<in> route_streams K e s"
      using cl_lookup_proven [of C K "To e" s1 p s2] 2 that(1) True by (auto simp: route_streams_def)
    ultimately have "cl_opens (route_streams K e s) s3 t"
      using cl_opens_mono [OF cl_send_opens [OF that(3)], of "route_streams K e s"] by (auto simp: route_streams_def)
    then show ?thesis by (rule cl_opens_trans [OF o3 [OF that(2)]])
  qed
  consider "s' = s1" | "s' = s2" | p z where "cl_connect_target K p s2 = (z, s')"
    | p z s3 u where "y = Ok p" "cl_connect_target K p s2 = (z, s3)" "cl_send C e p s3 = (u, s')"
    using assms True 1 2 unfolding cl_RouteEnvelope_def
    by (cases x; cases y; cases "cl_connect_target K (case y of Ok p \<Rightarrow> p) s2"; cases "fst (cl_connect_target K (case y of Ok p \<Rightarrow> p) s2)") auto
  then show ?thesis using o1 o2 o3 o4 by cases auto
qed (use assms in \<open>auto simp: cl_RouteEnvelope_def intro: cl_opens_same\<close>)

lemma cl_RouteEnvelope_opens:
  assumes "cl_RouteEnvelope C K e s = (x, s')"
  shows "\<exists>opened. cw_used (cl_net s') = cw_used (cl_net s) @ opened \<and> (\<forall>(p, proto, st) \<in> set opened.
      proto \<in> {AeaRegisterRelayStream, AeaAddressStream} \<and> p = relayPeer s \<or>
      proto = AeaEnvelopeStream \<and> Sender e = cl_myAgentAddress s \<and>
      (\<exists>r. valid_proof K r (To e) (PeerPublicKey r) \<and> IDFromFetchAIPublicKey K (PeerPublicKey r) = Inr p))"
proof -
  obtain opened where o: "cw_used (cl_net s') = cw_used (cl_net s) @ opened"
      "\<forall>(p, proto, st) \<in> set opened. (p, proto) \<in> route_streams K e s"
    using cl_RouteEnvelope_streams [OF assms] by (auto simp: cl_opens_def)
  then show ?thesis by (intro exI [of _ opened]) (auto simp: route_streams_def)
qed

text \<open>What a successful routing has done.\<close>

lemma cl_RouteEnvelope_Ok:
  assumes "cl_RouteEnvelope C K e s = (Ok (), s')"
  shows "Sender e = cl_myAgentAddress s \<and>
    (To e = cl_myAgentAddress s \<and> cl_processEnvelope s = None \<or>
     (\<exists>r p eb st st1 stb. valid_proof K r (To e) (PeerPublicKey r) \<and> IDFromFetchAIPublicKey K (PeerPublicKey r) = Inr p
       \<and> env_Marshal C e = Inr eb \<and> SendEnvelopeMessage C StreamPipe st eb (cl_myAgentRecord s) = (Ok (), st1)
       \<and> fst (ReadAcnStatus C StreamPipe st1) = Ok (Some stb) \<and> Code stb = SUCCESS
       \<and> last (cw_used (cl_net s')) = (p, AeaEnvelopeStream, stream_Close (snd (ReadAcnStatus C StreamPipe st1)))))"
proof -
  have sender: "Sender e = cl_myAgentAddress s" using assms by (auto simp: cl_RouteEnvelope_def split: if_splits)
  obtain x s1 where 1: "(if To e = cl_myAgentAddress s then cl_route_local e s else (None, s)) = (x, s1)"
    by (cases "if To e = cl_myAgentAddress s then cl_route_local e s else (None, s)")
  have f1: "cl_frame s s1" and local: "x = Some (Ok ()) \<longrightarrow> To e = cl_myAgentAddress s \<and> cl_processEnvelope s = None"
    using 1 cl_route_local_frame [of e s] by (auto split: if_splits)
  show ?thesis
  proof (cases x)
    case (Some y)
    with assms 1 sender local show ?thesis by (auto simp: cl_RouteEnvelope_def Let_def)
  next
    case None
    with assms 1 sender obtain p s2 s3 where 2: "cl_lookup C K (To e) s1 = (Ok p, s2)"
        "cl_connect_target K p s2 = (Ok (), s3)" "cl_send C e p s3 = (Ok (), s')"
      by (auto simp: cl_RouteEnvelope_def Let_def then_do_Ok)
    have f3: "cl_frame s s3"
      using f1 cl_lookup_frame [OF 2(1)] cl_connect_target_frame [OF 2(2)] by (blast intro: cl_frame_trans)
    then have "cl_frame s (snd (newStreamLoopUntilTimeout C p AeaEnvelopeStream s3))"
      using newStream_frame [of C p AeaEnvelopeStream s3, OF surjective_pairing] by (blast intro: cl_frame_trans)
    with cl_frame_fields [OF this] cl_lookup_proven [OF 2(1)] cl_send_acknowledged [OF 2(3)] sender
    show ?thesis by metis
  qed
qed

text \<open>When the first attempt opens a stream, there is no wait and no registration.\<close>

lemma newStream_first:
  "cw_NewStream (cl_net s) = Inr (Some st) # rest \<Longrightarrow>
    newStreamLoopUntilTimeout C p proto s = (Ok st, asked 1 (snd (cl_deadline s)))"
  by (cases "script_pop 0 (cw_turns (cl_net s))")
    (simp add: newStreamLoopUntilTimeout_def cl_deadline_def cl_NewStream_def script_pop_def [of _ "Inr (Some st) # rest"]
      stream_loop.simps [of _ "Inr (Some st)"])

lemma cl_deadline_net [simp]:
  "cw_NewStream (cl_net (snd (cl_deadline s))) = cw_NewStream (cl_net s)"
  "cw_used (cl_net (snd (cl_deadline s))) = cw_used (cl_net s)"
  "cw_Connect (cl_net (snd (cl_deadline s))) = cw_Connect (cl_net s)"
  "cw_NewMultiaddr (cl_net (snd (cl_deadline s))) = cw_NewMultiaddr (cl_net s)"
  "relayPeer (snd (cl_deadline s)) = relayPeer s" "cl_myAgentRecord (snd (cl_deadline s)) = cl_myAgentRecord s"
  by (simp_all add: cl_deadline_def split: prod.splits)

lemma cl_lookup_found:
  assumes "codec_ok C" and "carries C (LookupRequest a) rq" and "carries C (LookupResponse (Some r)) rs"
    and "cw_NewStream (cl_net s) = Inr (Some st) # rest" and "wcap st = None" and "concat (rx st) = frame rs @ more_bytes"
    and "valid_proof K r a (PeerPublicKey r)" and "IDFromFetchAIPublicKey K (PeerPublicKey r) = Inr pid"
  shows "\<exists>st'. tx st' = tx st @ frame rq \<and> cl_lookup C K a s
    = (Ok pid, cl_log (relayPeer s) AeaAddressStream st' (asked 1 (snd (cl_deadline s))))"
proof -
  have "stream_arriving st rs" using assms(6) by (auto simp: stream_arriving_def)
  then obtain st1 where st1: "PerformAddressLookup C StreamPipe st a = (Ok (Some r), st1)" "tx st1 = tx st @ frame rq"
    using stream_pipe.lookup_exchange [OF assms(1) _ assms(2,3), of st] assms(5) by blast
  show ?thesis
    using st1 newStream_first [OF assms(4), of C] PoR_valid [OF assms(7)] assms(8)
    by (intro exI [of _ "stream_Close st1"]) (simp add: cl_lookup_def Let_def stream_Close_def)
qed

lemma cl_send_delivers:
  assumes "codec_ok C" and "env_Marshal C e = Inr eb"
    and "carries C (AeaEnvelope \<lparr>ape_Envelope = eb, ape_Record = cl_myAgentRecord s\<rparr>) b"
    and "cw_NewStream (cl_net s) = Inr (Some st) # rest" and "wcap st = None"
    and "carries C (Status (Some \<lparr>Code = SUCCESS, Msgs = []\<rparr>)) a" and "concat (rx st) = frame a @ more_bytes"
  shows "\<exists>st'. tx st' = tx st @ frame b \<and> cl_send C e p s
    = (Ok (), cl_log p AeaEnvelopeStream st' (asked 1 (snd (cl_deadline s))))"
proof -
  note b = carries_laws [OF assms(1,3)] and a = carries_laws [OF assms(1,6)]
  let ?st = "st\<lparr>tx := tx st @ frame b\<rparr>"
  have send: "SendEnvelopeMessage C StreamPipe st eb (cl_myAgentRecord s) = (Ok (), ?st)"
    using stream_Write_open [OF assms(5) b(3,5)] b(1)
    by (cases "cl_myAgentRecord s") (simp_all add: SendEnvelopeMessage_def EncodeAcnEnvelope_def)
  have "concat (rx ?st) = frame a @ more_bytes" using assms(7) by simp
  from stream_Read_frame [OF this a(4)] obtain pieces where
      "pipe_Read StreamPipe ?st = (Ok a, ?st\<lparr>rx := pieces\<rparr>)" by blast
  then have "ReadAcnStatus C StreamPipe ?st = (Ok (Some \<lparr>Code = SUCCESS, Msgs = []\<rparr>), ?st\<lparr>rx := pieces\<rparr>)"
    using a(2) by (simp add: ReadAcnStatus_def)
  then show ?thesis
    using newStream_first [OF assms(4), of C] send assms(2)
    by (intro exI [of _ "stream_Close (?st\<lparr>rx := pieces\<rparr>)"]) (simp add: cl_send_def Let_def stream_Close_def)
qed

lemma cl_RouteEnvelope_delivers:
  assumes "codec_ok C" and "Sender e = cl_myAgentAddress s" and "To e \<noteq> cl_myAgentAddress s"
    and "cw_NewStream (cl_net s) = Inr (Some st1) # Inr (Some st2) # rest" and "wcap st1 = None" and "wcap st2 = None"
    and "carries C (LookupRequest (To e)) rq" and "carries C (LookupResponse (Some r)) rs"
    and "concat (rx st1) = frame rs @ rest1" and "valid_proof K r (To e) (PeerPublicKey r)"
    and "IDFromFetchAIPublicKey K (PeerPublicKey r) = Inr pid"
    and "cw_NewMultiaddr (cl_net s) (''/p2p/'' @ peer_String K (relayPeer s) @ ''/p2p-circuit/p2p/'' @ peer_String K pid) = Inr ma"
    and "cw_Connect (cl_net s) = None # cs" and "env_Marshal C e = Inr eb"
    and "carries C (AeaEnvelope \<lparr>ape_Envelope = eb, ape_Record = cl_myAgentRecord s\<rparr>) b"
    and "carries C (Status (Some \<lparr>Code = SUCCESS, Msgs = []\<rparr>)) ok" and "concat (rx st2) = frame ok @ rest2"
  shows "\<exists>st1' st2' s'. cl_RouteEnvelope C K e s = (Ok (), s') \<and> tx st1' = tx st1 @ frame rq \<and> tx st2' = tx st2 @ frame b
    \<and> cw_used (cl_net s') = cw_used (cl_net s) @ [(relayPeer s, AeaAddressStream, st1'), (pid, AeaEnvelopeStream, st2')]"
proof -
  obtain st1' where 1: "tx st1' = tx st1 @ frame rq" "cl_lookup C K (To e) s
      = (Ok pid, cl_log (relayPeer s) AeaAddressStream st1' (asked 1 (snd (cl_deadline s))))"
    using cl_lookup_found [OF assms(1,7,8,4,5,9,10,11)] by blast
  define s1 where "s1 = cl_log (relayPeer s) AeaAddressStream st1' (asked 1 (snd (cl_deadline s)))"
  have s1: "cw_NewMultiaddr (cl_net s1) = cw_NewMultiaddr (cl_net s)" "cw_Connect (cl_net s1) = None # cs"
      "relayPeer s1 = relayPeer s" "cl_myAgentRecord s1 = cl_myAgentRecord s" "cw_NewStream (cl_net s1) = Inr (Some st2) # rest"
      "cw_used (cl_net s1) = cw_used (cl_net s) @ [(relayPeer s, AeaAddressStream, st1')]"
    using assms(4,13) by (simp_all add: s1_def cl_log_def)
  define s2 where "s2 = s1\<lparr>cl_net := (cl_net s1)\<lparr>cw_Connect := cs\<rparr>\<rparr>"
  have 2: "cl_connect_target K pid s1 = (Ok (), s2)"
    using s1 assms(12) by (simp add: cl_connect_target_def cl_Connect_def script_pop_def s2_def)
  obtain st2' where 3: "tx st2' = tx st2 @ frame b" "cl_send C e pid s2
      = (Ok (), cl_log pid AeaEnvelopeStream st2' (asked 1 (snd (cl_deadline s2))))"
    using cl_send_delivers [OF assms(1,14), of s2 b st2 rest ok rest2 pid] assms(6,15-17) s1 by (auto simp: s2_def)
  have "cl_RouteEnvelope C K e s = cl_send C e pid s2"
    using 1(2) [folded s1_def] 2 assms(2,3) by (simp add: cl_RouteEnvelope_def)
  with 1(1) 3 s1(6) show ?thesis
    by (intro exI [of _ st1'] exI [of _ st2'] exI [of _ "cl_log pid AeaEnvelopeStream st2' (asked 1 (snd (cl_deadline s2)))"])
      (simp add: cl_log_def s2_def)
qed

section \<open>Example messages\<close>

definition ex_client_codec :: codec where
  "ex_client_codec =
     table_codec
       [(LookupRequest ''cosmosB'', [1]), (LookupResponse (Some (ex_record 66 2)), [2]),
        (AeaEnvelope \<lparr>ape_Envelope = [5], ape_Record = Some (ex_record 65 7)\<rparr>, [3]),
        (Status (Some \<lparr>Code = SUCCESS, Msgs = []\<rparr>), [4]), (Register (Some (ex_record 65 7)), [6])]
       [(ex_env ''cosmosB'' ''cosmosA'', [5])] []"

definition ex_client_stream :: "bytes list \<Rightarrow> stream" where
  "ex_client_stream pieces = \<lparr>rx = pieces, rx_end = None, tx = [], wcap = None, remotePublicKey = (0, 2),
     remotePeer = replicate 2 CHR ''p'', streamClosed = False, streamReset = False\<rparr>"

definition ex_client :: "(err + stream option) list \<Rightarrow> nat list \<Rightarrow> Envelope list DHTClient" where
  "ex_client streams turns =
     \<lparr>cl_bootstrapPeers = [''r''], relayPeer = ''r'', cl_key = Some 7, cl_publicKey = (0, 7),
      cl_myAgentAddress = ''cosmosA'', cl_myAgentRecord = Some (ex_record 65 7),
      cl_processEnvelope = Some (\<lambda>e g. (Ok (), g @ [e])), cl_agent = [], cl_closed = False,
      cl_net = \<lparr>cw_NewStream = streams, cw_turns = turns, cw_Connect = [None], cw_ready = [True],
        cw_NewMultiaddr = (\<lambda>_. Inr ''ma''), cw_used = []\<rparr>\<rparr>"

lemma ex_client_codec_ok: "codec_ok ex_client_codec"
  unfolding ex_client_codec_def by (intro codec_ok_table) simp_all

lemma ex_client_messages:
  "carries ex_client_codec (LookupRequest ''cosmosB'') [1]"
  "carries ex_client_codec (LookupResponse (Some (ex_record 66 2))) [2]"
  "carries ex_client_codec (AeaEnvelope \<lparr>ape_Envelope = [5], ape_Record = Some (ex_record 65 7)\<rparr>) [3]"
  "carries ex_client_codec (Status (Some \<lparr>Code = SUCCESS, Msgs = []\<rparr>)) [4]"
  "env_Marshal ex_client_codec (ex_env ''cosmosB'' ''cosmosA'') = Inr [5]"
  by (simp_all add: carries_def ex_client_codec_def table_codec_def maxMessageSizeDelegateConnection_def)

section \<open>Properties of the client\<close>

text \<open>C27: The stream loop with \<open>n\<close> turns before its deadline: a stream that opens at once is returned as it is; one
  that opens at a retry before the deadline is returned after the client has registered again with its
  relay, and when that fails its error is returned and the stream is left open; when the first \<open>n + 1\<close> attempts
  fail, the call never returns, although a later attempt would succeed: the deadline ends the retries but
  not the loop. A nil stream is an error in every case in which a stream would be returned.\<close>

theorem client_stream_loop:
  assumes "cw_turns (cl_net s) = n # ts" and "cw_NewStream (cl_net s) = map Inl es @ Inr x # rest"
    and "t = s\<lparr>cl_net := (cl_net s)\<lparr>cw_turns := ts, cw_NewStream := rest\<rparr>\<rparr>"
  shows "(es = [] \<and> x = Some st \<longrightarrow> newStreamLoopUntilTimeout C p proto s = (Ok st, t))
    \<and> (es \<noteq> [] \<and> length es \<le> n \<and> x = Some st \<longrightarrow>
        newStreamLoopUntilTimeout C p proto s
          = (case cl_registerAgentAddress C t of
               (Ok _, u) \<Rightarrow> (Ok st, u)
             | (Err e, u) \<Rightarrow> (Err e, cl_log p proto st u)
             | (Panic, u) \<Rightarrow> (Panic, cl_log p proto st u)
             | (Block, u) \<Rightarrow> (Block, cl_log p proto st u)))
    \<and> (length es \<le> n \<and> x = None \<longrightarrow> newStreamLoopUntilTimeout C p proto s = (Err (ErrMsg ''stream nil and err nil''), t))
    \<and> (length es > n \<longrightarrow> fst (newStreamLoopUntilTimeout C p proto s) = Block)"
proof -
  let ?s1 = "s\<lparr>cl_net := (cl_net s)\<lparr>cw_turns := ts\<rparr>\<rparr>"
  have d: "cl_deadline s = (n, ?s1)" using assms(1) by (simp add: cl_deadline_def script_pop_def)
  show ?thesis
  proof (cases es)
    case Nil
    have "cl_NewStream ?s1 = (Inr x, t)" using assms(2,3) Nil by (simp add: cl_NewStream_def script_pop_def)
    with Nil d show ?thesis by (simp add: newStreamLoopUntilTimeout_def stream_loop.simps [of _ "Inr z" for z])
  next
    case (Cons y ys)
    have a: "cl_NewStream ?s1 = (Inl y, asked 1 ?s1)" using assms(2) Cons by (intro cl_NewStream_next) simp
    have run: "stream_loop n (Inl y) False (asked 1 ?s1) = Some (x, True, t)" if "length ys < n"
      using stream_loop_run [of "asked 1 ?s1" ys x rest n y False] assms(2,3) Cons that by simp
    have stuck: "stream_loop n (Inl y) False (asked 1 ?s1) = None" if "length ys \<ge> n"
      using stream_loop_returns [of n "Inl y" False "asked 1 ?s1"] assms(2) Cons that
      by (cases "stream_loop n (Inl y) False (asked 1 ?s1)") (auto dest: in_set_takeD)
    show ?thesis
      using Cons d a run stuck by (simp add: newStreamLoopUntilTimeout_def then_do_def split: prod.split res.split)
  qed
qed

lemma client_stream_loop_witness:
  "fst (newStreamLoopUntilTimeout ex_client_codec ''r'' AeaAddressStream
      (ex_client [Inl DeadlineExceeded, Inr (Some (ex_client_stream []))] [0])) = Block"
  using client_stream_loop [of "ex_client [Inl DeadlineExceeded, Inr (Some (ex_client_stream []))] [0]" 0 "[]"
      "[DeadlineExceeded]" "Some (ex_client_stream [])" "[]" _ "ex_client_stream []" ex_client_codec "''r''" AeaAddressStream]
  by (simp add: ex_client_def)

text \<open>C28: A client sends an envelope only under its own address and only to a proven peer, whatever the call answers:
  every stream that routing opens is either one to the relay, for a registration or an address request, or one
  for the envelope, and then the envelope's sender is the client's own agent and the stream goes to the peer
  that a record of the receiver with a valid proof names. When the client reports that the envelope was routed,
  it was for its own agent and dropped because the agent is not connected, or the peer that was found got it
  with the client's own record and the last stream carried back a status \<open>SUCCESS\<close>.\<close>

theorem client_routes_proven:
  assumes "cl_RouteEnvelope C K e s = (x, s')"
  shows "(\<exists>opened. cw_used (cl_net s') = cw_used (cl_net s) @ opened \<and> (\<forall>(p, proto, st) \<in> set opened.
      proto \<in> {AeaRegisterRelayStream, AeaAddressStream} \<and> p = relayPeer s \<or>
      proto = AeaEnvelopeStream \<and> Sender e = cl_myAgentAddress s \<and>
      (\<exists>r. valid_proof K r (To e) (PeerPublicKey r) \<and> IDFromFetchAIPublicKey K (PeerPublicKey r) = Inr p)))
    \<and> (x = Ok () \<longrightarrow> Sender e = cl_myAgentAddress s \<and>
        (To e = cl_myAgentAddress s \<and> cl_processEnvelope s = None \<or>
         (\<exists>r p eb st st1 stb. valid_proof K r (To e) (PeerPublicKey r) \<and> IDFromFetchAIPublicKey K (PeerPublicKey r) = Inr p
           \<and> env_Marshal C e = Inr eb \<and> SendEnvelopeMessage C StreamPipe st eb (cl_myAgentRecord s) = (Ok (), st1)
           \<and> fst (ReadAcnStatus C StreamPipe st1) = Ok (Some stb) \<and> Code stb = SUCCESS
           \<and> last (cw_used (cl_net s')) = (p, AeaEnvelopeStream, stream_Close (snd (ReadAcnStatus C StreamPipe st1))))))"
proof -
  have "x = Ok () \<Longrightarrow> Sender e = cl_myAgentAddress s \<and>
    (To e = cl_myAgentAddress s \<and> cl_processEnvelope s = None \<or>
     (\<exists>r p eb st st1 stb. valid_proof K r (To e) (PeerPublicKey r) \<and> IDFromFetchAIPublicKey K (PeerPublicKey r) = Inr p
       \<and> env_Marshal C e = Inr eb \<and> SendEnvelopeMessage C StreamPipe st eb (cl_myAgentRecord s) = (Ok (), st1)
       \<and> fst (ReadAcnStatus C StreamPipe st1) = Ok (Some stb) \<and> Code stb = SUCCESS
       \<and> last (cw_used (cl_net s')) = (p, AeaEnvelopeStream, stream_Close (snd (ReadAcnStatus C StreamPipe st1)))))"
    using cl_RouteEnvelope_Ok assms by blast
  with cl_RouteEnvelope_opens [OF assms] show ?thesis by (rule conjI [OF _ impI])
qed

lemma client_routes_proven_witness:
  "\<exists>s' st st'. cl_RouteEnvelope ex_client_codec ex_crypto (ex_env ''cosmosB'' ''cosmosA'')
      (ex_client [Inr (Some (ex_client_stream [frame [2]])), Inr (Some (ex_client_stream [frame [4]]))] []) = (Ok (), s')
    \<and> cw_used (cl_net s') = [(''r'', AeaAddressStream, st), (replicate 2 CHR ''p'', AeaEnvelopeStream, st')]
    \<and> (\<exists>r. valid_proof ex_crypto r ''cosmosB'' (PeerPublicKey r)
        \<and> IDFromFetchAIPublicKey ex_crypto (PeerPublicKey r) = Inr (replicate 2 CHR ''p''))"
proof -
  let ?s = "ex_client [Inr (Some (ex_client_stream [frame [2]])), Inr (Some (ex_client_stream [frame [4]]))] []"
  let ?e = "ex_env ''cosmosB'' ''cosmosA''"
  have "\<exists>st st' s'. cl_RouteEnvelope ex_client_codec ex_crypto ?e ?s = (Ok (), s')
      \<and> cw_used (cl_net s') = [(''r'', AeaAddressStream, st), (replicate 2 CHR ''p'', AeaEnvelopeStream, st')]"
    using cl_RouteEnvelope_delivers [of ex_client_codec ?e ?s "ex_client_stream [frame [2]]" "ex_client_stream [frame [4]]"
        "[]" "[1]" "ex_record 66 2" "[2]" "[]" ex_crypto "replicate 2 CHR ''p''" "''ma''" "[]" "[5]" "[3]" "[4]" "[]"]
      ex_client_codec_ok ex_client_messages ex_valid [of 66 2]
    by (auto simp: ex_client_def ex_client_stream_def ex_env_def ex_peer)
  then obtain st st' s' where s': "cl_RouteEnvelope ex_client_codec ex_crypto ?e ?s = (Ok (), s')"
      "cw_used (cl_net s') = [(''r'', AeaAddressStream, st), (replicate 2 CHR ''p'', AeaEnvelopeStream, st')]" by blast
  have "cw_used (cl_net ?s) = []" "To ?e = ''cosmosB''" by (simp_all add: ex_client_def ex_env_def)
  with conjunct1 [OF client_routes_proven [OF s'(1)]] s'(2)
  have "\<exists>r. valid_proof ex_crypto r ''cosmosB'' (PeerPublicKey r)
      \<and> IDFromFetchAIPublicKey ex_crypto (PeerPublicKey r) = Inr (replicate 2 CHR ''p'')"
    by (auto simp: AeaEnvelopeStream_def AeaRegisterRelayStream_def AeaAddressStream_def)
  with s' show ?thesis by blast
qed

end
