(* ===== verification/Network.thy ===== *)
theory Network
  imports PeerLife DhtClient
begin

text \<open>
  Two nodes at the two ends of their streams. A stream that one node opens and another handles is a pair
  of values: what the one writes (\<open>tx\<close>) arrives at the other (\<open>rx\<close>) in some pieces, and the other way
  round. The lemmas say what each end does under the assumption that the other end is heard; the root
  theory closes the circle.
\<close>

section \<open>The relay's side\<close>

text \<open>An envelope for a registered relay client goes to its peer on one new stream.\<close>

lemma RouteEnvelope_relay:
  assumes "codec_ok C" and "mailboxServer s = None" and "Sender e = myAgentAddress (cfg s)"
    and "To e \<noteq> myAgentAddress (cfg s)" and "tcpAddresses s (To e) = None" and "dhtAddresses s (To e) = Some ps"
    and "peer_Decode K ps = Inr p" and "w_NewStream (net s) = Inr st # rest" and "wcap st = None"
    and "env_Marshal C e = Inr eb" and "carries C (AeaEnvelope \<lparr>ape_Envelope = eb, ape_Record = myAgentRecord (cfg s)\<rparr>) b"
    and "carries C (Status (Some \<lparr>Code = SUCCESS, Msgs = []\<rparr>)) ok" and "concat (rx st) = frame ok @ rest2"
  shows "\<exists>st' s'. RouteEnvelope C K e s = (Ok (), s') \<and> tx st' = tx st @ frame b
    \<and> w_used (net s') = w_used (net s) @ [(p, AeaEnvelopeStream, st')]"
proof -
  let ?s = "route_begun s"
  have begun: "net ?s = net s" "cfg ?s = cfg s" "dhtAddresses ?s = dhtAddresses s" "mailboxServer ?s = None"
    using assms(2) by (simp_all add: routeCountAll_Inc_def routeCount_add_def)
  have rec: "getEnvelopeAcnRecord e s = Ok (myAgentRecord (cfg s))"
    using assms(3) by (simp add: getEnvelopeAcnRecord_def)
  have mb: "route_mailbox e ?s = (False, ?s)" using begun(4) by (simp add: route_mailbox_def)
  have "RouteEnvelope C K e s = routeEnvelopeWithNewStream C e p (myAgentRecord (cfg s)) ?s"
    using RouteEnvelope_onward [OF rec mb, of C K] assms(4-7) begun by simp
  with routeWithNewStream_delivers [OF assms(1,10,11) _ assms(9,12,13), of ?s rest p] assms(8) begun
  show ?thesis by auto
qed

section \<open>The client's side\<close>

lemma cl_register_exchange:
  assumes "codec_ok C" and "cw_NewStream (cl_net s) = Inr (Some st) # rest" and "wcap st = None"
    and "carries C (Register (cl_myAgentRecord s)) b" and "carries C (Status (Some \<lparr>Code = SUCCESS, Msgs = []\<rparr>)) ok"
    and "concat (rx st) = frame ok @ more_bytes"
  shows "\<exists>st'. cl_registerAgentAddress C s = (Ok (), cl_log (relayPeer s) AeaRegisterRelayStream st' (asked 1 s))
    \<and> tx st' = tx st @ frame b"
proof -
  note b = carries_laws [OF assms(1,4)] and a = carries_laws [OF assms(1,5)]
  let ?st = "st\<lparr>tx := tx st @ frame b\<rparr>"
  have "concat (rx ?st) = frame ok @ more_bytes" using assms(6) by simp
  from stream_Read_frame [OF this a(4)] obtain pieces where
      "pipe_Read StreamPipe ?st = (Ok ok, ?st\<lparr>rx := pieces\<rparr>)" by blast
  then have "ReadAcnStatus C StreamPipe ?st = (Ok (Some \<lparr>Code = SUCCESS, Msgs = []\<rparr>), ?st\<lparr>rx := pieces\<rparr>)"
    using a(2) by (simp add: ReadAcnStatus_def)
  then have "SendAgentRegisterMessage C StreamPipe st (cl_myAgentRecord s) = (Ok (), ?st\<lparr>rx := pieces\<rparr>)"
    using stream_Write_open [OF assms(3) b(3,5)] b(1) by (simp add: SendAgentRegisterMessage_def)
  then show ?thesis
    using cl_NewStream_next [OF assms(2)]
    by (intro exI [of _ "stream_Close (?st\<lparr>rx := pieces\<rparr>)"]) (simp add: cl_registerAgentAddress_def stream_Close_def)
qed

lemma cl_envelope_stream_to_agent:
  assumes "codec_ok C" and "client_inv s" and "wcap st = None"
    and "carries C (AeaEnvelope \<lparr>ape_Envelope = eb, ape_Record = Some r\<rparr>) b" and "concat (rx st) = frame b @ rest"
    and "env_Unmarshal C eb = Inr e" and "valid_proof K r (Address r) (remote_key K st)"
    and "carries C (Status (Some \<lparr>Code = SUCCESS, Msgs = []\<rparr>)) ok"
    and "To e = cl_myAgentAddress s" and "cl_processEnvelope s = Some f" and "f e (cl_agent s) = (Ok (), g)"
  shows "\<exists>st'. cl_handleAeaEnvelopeStream C K st s = (Ok (), st', s\<lparr>cl_agent := g\<rparr>) \<and> tx st' = tx st @ frame ok
    \<and> streamClosed st'"
proof -
  have "cl_HandleAeaEnvelope e s = (Ok (), s\<lparr>cl_agent := g\<rparr>)"
    using assms(9-11) by (simp add: cl_HandleAeaEnvelope_def)
  then show ?thesis
    unfolding cl_handleAeaEnvelopeStream_def
    by (intro client.envelope_stream_answer [OF assms(1-7) _ assms(8)]) (simp add: client_handler_def)
qed

section \<open>Two peers\<close>

text \<open>The agent of \<open>a\<close> sends to the agent of \<open>b\<close>; \<open>b\<close> handles what \<open>a\<close> writes on two streams and \<open>a\<close> hears what \<open>b\<close>
  answers, in whatever pieces.\<close>

lemma peer_to_peer:
  assumes "codec_ok C"
    and "mailboxServer a = None" and "Sender e = myAgentAddress (cfg a)" and "To e \<noteq> myAgentAddress (cfg a)"
    and "tcpAddresses a (To e) = None" and "dhtAddresses a (To e) = None" and "myAgentRecord (cfg a) = Some ra"
    and "w_FindProviders (net a) = (p # ps) # qs" and "w_NewStream (net a) = Inr a1 # Inr a2 # rest"
    and "wcap a1 = None" and "tx a1 = []" and "wcap a2 = None" and "tx a2 = []" and "ComputeCID K (To e) = Inr cid"
    and "peer_inv b" and "mailboxServer b = None" and "tcpAddresses b (To e) = None" and "To e = myAgentAddress (cfg b)"
    and "processEnvelope b = Some f" and "f e (agent b) = (Ok (), g)" and "myAgentRecord (cfg b) = Some rb"
    and "IDFromPublicKey K (peer_publicKey (cfg b)) = Inr ib"
    and "wcap b1 = None" and "tx b1 = []" and "wcap b2 = None" and "tx b2 = []"
    and "valid_proof K rb (To e) (PeerPublicKey rb)" and "IDFromFetchAIPublicKey K (PeerPublicKey rb) = Inr pid"
    and "valid_proof K ra (Address ra) (remote_key K b2)"
    and "carries C (LookupRequest (To e)) rq" and "carries C (LookupResponse (Some rb)) rs"
    and "env_Marshal C e = Inr eb" and "carries C (AeaEnvelope \<lparr>ape_Envelope = eb, ape_Record = Some ra\<rparr>) m"
    and "carries C (Status (Some \<lparr>Code = SUCCESS, Msgs = []\<rparr>)) ok"
    and "concat (rx b1) = frame rq" and "handleAeaAddressStream C K b1 b = (x1, b1', b')" and "concat (rx a1) = tx b1'"
    and "concat (rx b2) = frame m" and "handleAeaEnvelopeStream C K b2 b' = (x2, b2', b'')" and "concat (rx a2) = tx b2'"
  shows "\<exists>a1' a2' a'. RouteEnvelope C K e a = (Ok (), a') \<and> agent b'' = g
    \<and> w_used (net a') = w_used (net a) @ [(p, AeaAddressStream, a1'), (pid, AeaEnvelopeStream, a2')]
    \<and> tx a1' = concat (rx b1) \<and> tx a2' = concat (rx b2)"
proof -
  have req: "handle_address (peer_handler C K) (To e) b = (Ok (Some rb), b)"
    using assms(18,21,22) by (simp add: peer_handler_def HandleAeaAddressRequest_def)
  have "concat (rx b1) = frame rq @ []" using assms(35) by simp
  from peer.address_stream_found [OF assms(1,23,30) this req assms(31)]
  have b1: "b' = b" "tx b1' = frame rs" using assms(24,36) by (auto simp: handleAeaAddressStream_def)
  have "concat (rx b2) = frame m @ []" using assms(38) by simp
  from envelope_stream_to_agent [OF assms(1,15,25,33) this codec_env [OF assms(1,32)] assms(29,34,16-20)]
  have b2: "b'' = b\<lparr>agent := g\<rparr>" "tx b2' = frame ok" using assms(26,39) b1(1) by auto
  show ?thesis
    using RouteEnvelope_delivers [OF assms(1-6,8-10,12,14,30,31) _ assms(27,28,32) _ assms(34), of "[]" m "[]"]
      assms(7,11,13,33,35,37,38,40) b1(2) b2 by auto
qed

end
