(* ===== verification/Node.thy ===== *)
theory Node
  imports Network
begin

text \<open>
  \<open>libp2p_node.go\<close>, the main program, and \<open>dht/dhtclient/options.go\<close>: the agent's configuration is
  read, it becomes the options of a peer or, without a public port, of a client; the node is made and
  joined to the agent by two goroutines and a callback. A node holds the \<open>AeaApi\<close> object as the agent's
  side of its state, so the callback is \<open>Put\<close> on it.

  The program ends with a panic where \<open>check\<close> sees an error. What the outside answers is the record
  \<open>outside\<close>. The facts: peers and clients keep the contract \<open>dht_node\<close> that forwarding in order needs; what a started
  node is made of; what an agent writes to its node is written
  by the other node to the other agent; an envelope for an agent that has left is a panic.
\<close>

section \<open>Options of a client\<close>

datatype ClientOption =
    ClIdentityFromFetchAIKey string
  | ClRegisterAgentAddress AgentRecord
  | ClBootstrapFrom "string list"

definition cl_apply_option :: "crypto \<Rightarrow> maddr_lib \<Rightarrow> ClientOption \<Rightarrow> 'g DHTClient \<Rightarrow> 'g DHTClient res" where
  "cl_apply_option K L opt s =
     (case opt of
        ClIdentityFromFetchAIKey key \<Rightarrow>
          (case KeyPairFromFetchAIKey K key of
             Inl e \<Rightarrow> Err e
           | Inr (sk, pk) \<Rightarrow> Ok (s\<lparr>cl_key := Some sk, cl_publicKey := pk\<rparr>))
      | ClRegisterAgentAddress record \<Rightarrow>
          Ok (s\<lparr>cl_myAgentAddress := Address record, cl_myAgentRecord := Some (copy_record record)\<rparr>)
      | ClBootstrapFrom entryPeers \<Rightarrow>
          bind_res (GetPeersAddrInfo L entryPeers) (\<lambda>ps. Ok (s\<lparr>cl_bootstrapPeers := ps\<rparr>)))"

fun cl_apply_options :: "crypto \<Rightarrow> maddr_lib \<Rightarrow> ClientOption list \<Rightarrow> 'g DHTClient \<Rightarrow> 'g DHTClient res" where
  "cl_apply_options K L [] s = Ok s"
| "cl_apply_options K L (opt # opts) s = bind_res (cl_apply_option K L opt s) (cl_apply_options K L opts)"

definition zero_client :: "'g \<Rightarrow> client_world \<Rightarrow> 'g DHTClient" where
  "zero_client g w =
     \<lparr>cl_bootstrapPeers = [], relayPeer = [], cl_key = None, cl_publicKey = (0, 0), cl_myAgentAddress = [],
      cl_myAgentRecord = None, cl_processEnvelope = None, cl_agent = g, cl_closed = False, cl_net = w\<rparr>"

section \<open>The program\<close>

record outside =
  o_environ :: environ
  o_maddr :: maddr_lib
  o_peer :: peer_setup
  o_world :: world
  o_client :: client_setup
  o_index :: nat
  o_client_world :: client_world

definition main_client_options :: "AeaApi \<Rightarrow> ClientOption list" where
  "main_client_options a =
     [ClIdentityFromFetchAIKey (PrivateKey a), ClBootstrapFrom (EntryPeers a)]
     @ (case aea_AgentRecord a of None \<Rightarrow> [] | Some r \<Rightarrow> [ClRegisterAgentAddress r])"

text \<open>\<open>time.Duration(registrationDelay)\<close> drops the fraction of the seconds; the product with a million and with
  \<open>time.Microsecond\<close> (1000) is a signed 64-bit number. Delays of \<open>2 ^ 63\<close> seconds are not considered.\<close>

definition registration_duration :: "rat \<Rightarrow> int" where
  "registration_duration d =
     sint (word_of_int (if d < 0 then \<lceil>d\<rceil> else \<lfloor>d\<rfloor>) * 1000000 * 1000 :: 64 word)"

definition main_peer_options :: "AeaApi \<Rightarrow> PeerOption list" where
  "main_peer_options a =
     [LocalURI (fst (aea_Address a)) (snd (aea_Address a)), PublicURI (fst (PublicAddress a)) (snd (PublicAddress a)),
      IdentityFromFetchAIKey (PrivateKey a), EnableRelayService, EnableDelegateService (snd (DelegateAddress a)),
      BootstrapFrom (EntryPeers a)]
     @ (case aea_AgentRecord a of None \<Rightarrow> [] | Some r \<Rightarrow> [RegisterAgentAddressOpt r])
     @ (if snd (MonitoringAddress a) \<noteq> 0 then [EnablePrometheusMonitoring (snd (MonitoringAddress a))] else [])
     @ (if RegistrationDelayInSeconds a \<noteq> 0 then [WithRegistrationDelay (registration_duration (RegistrationDelayInSeconds a))] else [])
     @ (if RecordStoragePath a \<noteq> [] then [StoreRecordsTo (RecordStoragePath a)] else [])
     @ (if length (MailboxUri a) > 0 then [EnableMailboxService (MailboxUri a)] else [])"

datatype node = PeerNode "AeaApi DHTPeer" | ClientNode "AeaApi DHTClient"

primrec node_agent :: "node \<Rightarrow> AeaApi" where
  "node_agent (PeerNode s) = agent s"
| "node_agent (ClientNode s) = cl_agent s"

primrec with_agent :: "AeaApi \<Rightarrow> node \<Rightarrow> node" where
  "with_agent g (PeerNode s) = PeerNode (s\<lparr>agent := g\<rparr>)"
| "with_agent g (ClientNode s) = ClientNode (s\<lparr>cl_agent := g\<rparr>)"

primrec node_RouteEnvelope :: "codec \<Rightarrow> crypto \<Rightarrow> Envelope \<Rightarrow> node \<Rightarrow> unit res \<times> node" where
  "node_RouteEnvelope C K e (PeerNode s) = map_prod id PeerNode (RouteEnvelope C K e s)"
| "node_RouteEnvelope C K e (ClientNode s) = map_prod id ClientNode (cl_RouteEnvelope C K e s)"

primrec node_ProcessEnvelope :: "(Envelope \<Rightarrow> AeaApi \<Rightarrow> unit res \<times> AeaApi) \<Rightarrow> node \<Rightarrow> node" where
  "node_ProcessEnvelope f (PeerNode s) = PeerNode (ProcessEnvelope f s)"
| "node_ProcessEnvelope f (ClientNode s) = ClientNode (cl_ProcessEnvelope f s)"

primrec node_PeerID :: "crypto \<Rightarrow> node \<Rightarrow> string" where
  "node_PeerID K (PeerNode s) = PeerID K s"
| "node_PeerID K (ClientNode s) = cl_PeerID K s"

primrec node_MultiAddr :: "crypto \<Rightarrow> (string \<Rightarrow> string \<Rightarrow> string) \<Rightarrow> string list \<Rightarrow> node \<Rightarrow> string" where
  "node_MultiAddr K encapsulate addrs (PeerNode s) = MultiAddr K encapsulate addrs s"
| "node_MultiAddr K encapsulate addrs (ClientNode s) = cl_MultiAddr s"

text \<open>\<open>Close\<close> of either node, with what the libraries answer to being closed.\<close>

record close_answers =
  ca_listener :: "err option"
  ca_conns :: "err option list"
  ca_dht :: "err option"
  ca_host :: "err option"
  ca_file :: "err option"

primrec node_Close :: "close_answers \<Rightarrow> node \<Rightarrow> err list res \<times> node" where
  "node_Close ca (PeerNode s) = map_prod id PeerNode (Close (ca_listener ca) (ca_conns ca) (ca_dht ca) (ca_host ca) (ca_file ca) s)"
| "node_Close ca (ClientNode s) = map_prod id ClientNode (cl_Close (ca_dht ca) (ca_host ca) s)"

definition make_node :: "codec \<Rightarrow> crypto \<Rightarrow> outside \<Rightarrow> AeaApi \<Rightarrow> node res" where
  "make_node C K W a =
     (if snd (PublicAddress a) = 0
      then bind_res (cl_apply_options K (o_maddr W) (main_client_options a) (zero_client a (o_client_world W))) (\<lambda>s0.
             case cl_New C K (o_index W) (o_client W) s0 of (r, s) \<Rightarrow> bind_res r (\<lambda>_. Ok (ClientNode s)))
      else bind_res (New C K (o_maddr W) (o_peer W) (main_peer_options a) a (o_world W)) (\<lambda>s. Ok (PeerNode s)))"

text \<open>The callback: \<open>agent.Put\<close>.\<close>

definition put_envelope :: "Envelope \<Rightarrow> AeaApi \<Rightarrow> unit res \<times> AeaApi" where
  "put_envelope e = Put (Some e)"

text \<open>\<open>main\<close> up to the point where it waits for a signal.\<close>

definition node_main :: "codec \<Rightarrow> crypto \<Rightarrow> outside \<Rightarrow> node res" where
  "node_main C K W =
     (case Init (o_environ W) AeaApi_zero of
        (Err e, a) \<Rightarrow> Panic
      | (Panic, a) \<Rightarrow> Panic
      | (Block, a) \<Rightarrow> Block
      | (Ok _, a) \<Rightarrow>
          (case make_node C K W a of
             Err e \<Rightarrow> Panic
           | Panic \<Rightarrow> Panic
           | Block \<Rightarrow> Block
           | Ok n \<Rightarrow>
               (case Connect (node_agent n) of
                  (Err e, g) \<Rightarrow> Panic
                | (Panic, g) \<Rightarrow> Panic
                | (Block, g) \<Rightarrow> Block
                | (Ok _, g) \<Rightarrow> Ok (node_ProcessEnvelope put_envelope (with_agent g n)))))"

text \<open>The lines that \<open>main\<close> prints for the program that started it, between the making of the node and the connection to
  the agent; what it does when a signal has arrived: the deferred \<open>node.Close\<close>.\<close>

definition main_prints :: "crypto \<Rightarrow> (string \<Rightarrow> string \<Rightarrow> string) \<Rightarrow> string list \<Rightarrow> node \<Rightarrow> string list" where
  "main_prints K encapsulate addrs n =
     [''MULTIADDRS_LIST_START'', node_MultiAddr K encapsulate addrs n, ''MULTIADDRS_LIST_END'']"

definition main_end :: "close_answers \<Rightarrow> node \<Rightarrow> node" where
  "main_end ca n = snd (node_Close ca n)"

text \<open>One turn of \<open>for envel := range agent.Queue()\<close>: \<open>False\<close> when the queue is closed and drained. Errors of
  routing are logged; a nil envelope is a nil dereference.\<close>

definition forward_turn :: "codec \<Rightarrow> crypto \<Rightarrow> node \<Rightarrow> bool res \<times> node" where
  "forward_turn C K n =
     (case Queue (node_agent n) of
        None \<Rightarrow> (Block, n)
      | Some q \<Rightarrow>
          (case chan_buf q of
             [] \<Rightarrow> (if chan_closed q then Ok False else Block, n)
           | v # vs \<Rightarrow>
               (let n1 = with_agent ((node_agent n)\<lparr>out_queue := Some (q\<lparr>chan_buf := vs\<rparr>)\<rparr>) n in
                case v of
                  None \<Rightarrow> (Panic, n1)
                | Some e \<Rightarrow>
                    (case node_RouteEnvelope C K e n1 of
                       (Panic, n2) \<Rightarrow> (Panic, n2)
                     | (Block, n2) \<Rightarrow> (Block, n2)
                     | (_, n2) \<Rightarrow> (Ok True, n2)))))"

text \<open>The goroutine, for at most the given number of turns (\<open>Block\<close> also when they are used up).\<close>

definition forward_loop :: "codec \<Rightarrow> crypto \<Rightarrow> nat \<Rightarrow> node \<Rightarrow> unit res \<times> node" where
  "forward_loop C K turns n = run_turns (forward_turn C K) turns n"

section \<open>The contract of a node\<close>

text \<open>The interface \<open>DHTNode\<close> (\<open>dht/dhtnode/dhtnode.go\<close>) as the main program relies on it: a node whose callback is the
  agent's \<open>Put\<close> (\<open>wired\<close>) stays one, and routing does not touch the queue that is being forwarded.\<close>

locale dht_node =
  fixes route :: "Envelope \<Rightarrow> 'n \<Rightarrow> unit res \<times> 'n"
    and get_agent :: "'n \<Rightarrow> AeaApi"
    and set_agent :: "AeaApi \<Rightarrow> 'n \<Rightarrow> 'n"
    and wired :: "'n \<Rightarrow> bool"
  assumes get_set: "get_agent (set_agent g n) = g"
    and set_wired: "wired n \<Longrightarrow> wired (set_agent g n)"
    and route_law: "\<lbrakk>wired n; route e n = (r, n')\<rbrakk> \<Longrightarrow> wired n' \<and> out_queue (get_agent n') = out_queue (get_agent n)"
begin

lemma route_next:
  assumes "wired n" and "route e (set_agent ((get_agent n)\<lparr>out_queue := q\<rparr>) n) = (r, n')"
  shows "wired n' \<and> out_queue (get_agent n') = q"
  using route_law [OF set_wired [OF assms(1)] assms(2)] by (simp add: get_set)

end

lemma put_envelope_queue: "put_envelope e g = (r, g') \<Longrightarrow> out_queue g' = out_queue g"
  by (auto simp: put_envelope_def Put_def split: if_splits prod.splits)

interpretation peer_node: dht_node "RouteEnvelope C K" agent "\<lambda>g s. s\<lparr>agent := g\<rparr>" "\<lambda>s. processEnvelope s = Some put_envelope"
proof
  fix s :: "AeaApi DHTPeer" and e r s'
  assume "processEnvelope s = Some put_envelope" and "RouteEnvelope C K e s = (r, s')"
  with RouteEnvelope_frame [of C K e s r s'] delivered_keeps [of put_envelope "agent s" "agent s'" out_queue] put_envelope_queue
  show "processEnvelope s' = Some put_envelope \<and> out_queue (agent s') = out_queue (agent s)"
    by (auto simp: routing_frame_def)
qed simp_all

interpretation client_node: dht_node "cl_RouteEnvelope C K" cl_agent "\<lambda>g s. s\<lparr>cl_agent := g\<rparr>"
  "\<lambda>s. cl_processEnvelope s = Some put_envelope"
proof
  fix s :: "AeaApi DHTClient" and e r s'
  assume w: "cl_processEnvelope s = Some put_envelope" and r: "cl_RouteEnvelope C K e s = (r, s')"
  have f: "cl_frame s s'" by (rule cl_RouteEnvelope_frame [OF r])
  with w cl_frame_fields [OF f] cl_frame_delivered [OF f] delivered_keeps [of put_envelope "cl_agent s" "cl_agent s'" out_queue]
    put_envelope_queue
  show "cl_processEnvelope s' = Some put_envelope \<and> out_queue (cl_agent s') = out_queue (cl_agent s)" by auto
qed simp_all

primrec node_wired :: "node \<Rightarrow> bool" where
  "node_wired (PeerNode s) \<longleftrightarrow> processEnvelope s = Some put_envelope"
| "node_wired (ClientNode s) \<longleftrightarrow> cl_processEnvelope s = Some put_envelope"

interpretation main_node: dht_node "node_RouteEnvelope C K" node_agent with_agent node_wired
proof
  fix n e r n' and g :: AeaApi
  show "node_agent (with_agent g n) = g" by (cases n) simp_all
  show "node_wired n \<Longrightarrow> node_wired (with_agent g n)" by (cases n) simp_all
  assume "node_wired n" and "node_RouteEnvelope C K e n = (r, n')"
  then show "node_wired n' \<and> out_queue (node_agent n') = out_queue (node_agent n)"
    by (cases n) (auto dest: peer_node.route_law client_node.route_law simp: map_prod_def split: prod.splits)
qed

text \<open>The forwarding goroutine is a worker on the queue of the agent.\<close>

definition take_envelope :: "node \<Rightarrow> node" where
  "take_envelope n =
     with_agent ((node_agent n)\<lparr>out_queue := map_option (\<lambda>q. q\<lparr>chan_buf := tl (chan_buf q)\<rparr>) (out_queue (node_agent n))\<rparr>) n"

definition forward_job :: "codec \<Rightarrow> crypto \<Rightarrow> Envelope option \<Rightarrow> node \<Rightarrow> unit res \<times> node" where
  "forward_job C K v n =
     (case v of None \<Rightarrow> (Panic, take_envelope n) | Some e \<Rightarrow> node_RouteEnvelope C K e (take_envelope n))"

definition out_closed :: "node \<Rightarrow> bool" where
  "out_closed n = (case out_queue (node_agent n) of None \<Rightarrow> False | Some q \<Rightarrow> chan_closed q)"

interpretation forwarding: queue_turns "\<lambda>n. agent_queue (node_agent n)" out_closed "forward_job C K" "forward_turn C K" node_wired
proof unfold_locales
  fix n t e es r
  assume n: "node_wired n" "agent_queue (node_agent n) = e # es"
  then obtain q where q: "out_queue (node_agent n) = Some q" "chan_buf q = e # es"
    by (auto simp: agent_queue_def split: option.splits)
  have take: "take_envelope n = with_agent ((node_agent n)\<lparr>out_queue := Some (q\<lparr>chan_buf := es\<rparr>)\<rparr>) n"
    using q by (simp add: take_envelope_def)
  show "forward_turn C K n = (case forward_job C K e n of (Panic, t) \<Rightarrow> (Panic, t) | (Block, t) \<Rightarrow> (Block, t) | (_, t) \<Rightarrow> (Ok True, t))"
    using q by (simp add: forward_turn_def forward_job_def take Queue_def split: option.split)
  assume j: "forward_job C K e n = (r, t)"
  have "node_wired t \<and> out_queue (node_agent t) = Some (q\<lparr>chan_buf := es\<rparr>)"
  proof (cases e)
    case None
    then show ?thesis
      using j main_node.set_wired [OF n(1)] by (auto simp: forward_job_def take main_node.get_set)
  next
    case (Some v)
    then show ?thesis using j main_node.route_next [OF n(1)] by (simp add: forward_job_def take)
  qed
  with q show "agent_queue (node_agent t) = es \<and> node_wired t \<and> out_closed t = out_closed n"
    by (simp add: agent_queue_def out_closed_def)
next
  show "forward_turn C K n = (if out_closed n then Ok False else Block, n)" if "agent_queue (node_agent n) = []" for n
    using that by (auto simp: forward_turn_def agent_queue_def out_closed_def Queue_def split: option.splits)
qed

section \<open>What a started node is made of\<close>

lemma RegisterAgentAddress_agent [simp]: "agent (snd (RegisterAgentAddress K a s)) = agent s"
  by (auto simp: RegisterAgentAddress_def setAddressAnnounced_def dht_Provide_def Let_def
      split: sum.splits option.splits prod.splits)

lemma announce_all_agent [simp]: "agent (announce_all K as s) = agent s"
  by (induction as arbitrary: s) simp_all

lemma notify_peers_agent: "notify_peers ps s = (r, s') \<Longrightarrow> agent s' = agent s"
proof (induction ps arbitrary: s)
  case (Cons p ps)
  obtain x s1 where n: "host_NewStream s = (x, s1)" by (cases "host_NewStream s")
  then have "agent s1 = agent s" by (auto simp: host_NewStream_def split: prod.splits)
  moreover have "agent (log_stream p AeaNotifStream st s1) = agent s1" for st by (simp add: log_stream_def)
  ultimately show ?case using Cons n by (auto split: sum.splits prod.splits res.splits)
qed simp

lemma storage_init_agent: "initAgentRecordPersistentStorage C K opened s = (r, s') \<Longrightarrow> agent s' = agent s"
  by (auto simp: initAgentRecordPersistentStorage_def split: sum.splits prod.splits)

lemma New_services_agent:
  assumes "New_services K su sig s = (Ok u, s')"
  shows "agent s' = agent s"
proof -
  let ?t = "s\<lparr>enableAddressAnnouncement := True\<rparr>" and ?me = "myAgentAddress (cfg s)"
  let ?x = "if bootstrapPeers (cfg s) \<noteq> []
    then if ?me \<noteq> [] \<and> \<not> IsAddressAnnounced ?me ?t then RegisterAgentAddress K ?me ?t else (Ok (), ?t) else (Ok (), s)"
  obtain q t where x: "?x = (q, t)" by (cases ?x)
  have "agent (snd ?x) = agent s" by simp
  then have "agent t = agent s" unfolding x by simp
  with assms show ?thesis unfolding New_services_def launchMailboxService_def Let_def x by (auto split: if_splits res.splits)
qed

lemma New_agent:
  assumes "New C K L su opts g w = Ok s"
  shows "agent s = g"
  using assms
  by (rule New_stages) (auto dest!: notify_peers_agent storage_init_agent New_services_agent simp: fresh_peer_def split: if_splits)

lemma New_cfg:
  assumes "New C K L su opts g w = Ok s"
  shows "\<exists>c :: PeerConfig. apply_options K L opts zero_config = Ok c \<and> cfg s = c\<lparr>persistentStoragePath := storage_path K c\<rparr>"
  using assms
proof (rule New_stages)
  fix c :: PeerConfig and sig s0 n s2 u
  assume 1: "apply_options K L opts zero_config = Ok c" "notify_peers (bootstrapPeers c) (fresh_peer c g w) = (Ok (), s0)"
    and 2: "initAgentRecordPersistentStorage C K (pn_OpenFile su (storage_path K c))
      (s0\<lparr>cfg := c\<lparr>persistentStoragePath := storage_path K c\<rparr>\<rparr>) = (Ok n, s2)"
    and 3: "New_services K su sig (if bootstrapPeers c \<noteq> [] then announce_all K (pn_order su) s2 else s2) = (Ok u, s)"
  let ?s3 = "if bootstrapPeers c \<noteq> [] then announce_all K (pn_order su) s2 else s2"
  have m: "mailboxServer ?s3 = None"
    using notify_peers_same [OF 1(2)] storage_init_keeps(2) [OF 2] announce_all_same [of s2 K "pn_order su"]
    by (auto simp: same_records_def fresh_peer_def)
  have "cfg s = cfg s2"
    using New_services_records [OF 3 m] announce_all_same [of s2 K "pn_order su"] by (simp add: same_records_def)
  with storage_init_keeps(1) [OF 2] 1(1) show ?thesis by simp
qed

lemma apply_options_append:
  "apply_options K L (xs @ ys) c = Ok c' \<longleftrightarrow> (\<exists>c1. apply_options K L xs c = Ok c1 \<and> apply_options K L ys c1 = Ok c')"
  by (induction xs arbitrary: c) auto

lemma apply_options_own:
  assumes "apply_options K L opts c = Ok c'" and "\<forall>r. RegisterAgentAddressOpt r \<notin> set opts"
  shows "myAgentAddress c' = myAgentAddress c \<and> myAgentRecord c' = myAgentRecord c"
  using assms
proof (induction opts arbitrary: c)
  case (Cons opt opts)
  then obtain c1 where 1: "apply_option K L opt c = Ok c1" "apply_options K L opts c1 = Ok c'" by auto
  have "myAgentAddress c1 = myAgentAddress c \<and> myAgentRecord c1 = myAgentRecord c"
    using 1(1) Cons.prems(2) by (cases opt) (auto simp: apply_option_def split: sum.splits prod.splits)
  with Cons 1(2) show ?case by auto
qed simp

lemma main_options_own:
  assumes "apply_options K L (main_peer_options a) zero_config = Ok c" and "agent_record a = Some r"
  shows "myAgentAddress c = Address r \<and> myAgentRecord c = Some (copy_record r)"
proof -
  let ?later = "(if port_monitoring a \<noteq> 0 then [EnablePrometheusMonitoring (port_monitoring a)] else [])
     @ (if registrationDelay a \<noteq> 0 then [WithRegistrationDelay (registration_duration (registrationDelay a))] else [])
     @ (if recordsStoragePath a \<noteq> [] then [StoreRecordsTo (recordsStoragePath a)] else [])
     @ (if length (mailbox_uri a) > 0 then [EnableMailboxService (mailbox_uri a)] else [])"
  have split: "main_peer_options a = [LocalURI (host a) (port a), PublicURI (host_public a) (port_public a),
      IdentityFromFetchAIKey (aea_id a), EnableRelayService, EnableDelegateService (port_delegate a), BootstrapFrom (entry_peers a)]
      @ [RegisterAgentAddressOpt r] @ ?later"
    using assms(2) by (simp add: main_peer_options_def)
  obtain c1 c2 where "apply_option K L (RegisterAgentAddressOpt r) c1 = Ok c2" "apply_options K L ?later c2 = Ok c"
    using assms(1) unfolding split apply_options_append by auto
  moreover have "\<forall>r. RegisterAgentAddressOpt r \<notin> set ?later" by auto
  ultimately show ?thesis using apply_options_own by (fastforce simp: apply_option_def)
qed

text \<open>The stages of the program for a peer.\<close>

lemma node_main_peer:
  assumes "node_main C K W = Ok (PeerNode s)"
  obtains a t g where "Init (o_environ W) AeaApi_zero = (Ok (), a)" "port_public a \<noteq> 0"
    "New C K (o_maddr W) (o_peer W) (main_peer_options a) a (o_world W) = Ok t"
    "Connect a = (Ok (), g)" "s = ProcessEnvelope put_envelope (t\<lparr>agent := g\<rparr>)"
proof -
  obtain a where a: "Init (o_environ W) AeaApi_zero = (Ok (), a)"
    using assms by (auto simp: node_main_def split: prod.splits res.splits)
  obtain n g where n: "make_node C K W a = Ok n" "Connect (node_agent n) = (Ok (), g)"
      "PeerNode s = node_ProcessEnvelope put_envelope (with_agent g n)"
    using assms a by (auto simp: node_main_def split: prod.splits res.splits)
  from n(3) obtain t where t: "n = PeerNode t" by (cases n) auto
  with n(1) have "port_public a \<noteq> 0" "New C K (o_maddr W) (o_peer W) (main_peer_options a) a (o_world W) = Ok t"
    by (auto simp: make_node_def split: if_splits prod.splits res.splits)
  moreover from n(2) t New_agent [OF this(2)] have "Connect a = (Ok (), g)" by simp
  ultimately show thesis using that a n(3) t by simp
qed

lemma Connect_record: "Connect a = (r, g) \<Longrightarrow> agent_record g = agent_record a \<and> agent_addr g = agent_addr a \<and> standalone g = standalone a"
  by (auto simp: Connect_def split: if_splits option.splits prod.splits res.splits)

text \<open>A started peer is one of the peers of its store.\<close>

lemma node_main_reachable:
  assumes "node_main C K W = Ok (PeerNode s)" and "\<forall>path bs. pn_OpenFile (o_peer W) path = Inr bs \<longrightarrow> bs = []"
  shows "peer_reachable C K s"
  using assms(1)
proof (rule node_main_peer)
  fix a t g
  assume t: "New C K (o_maddr W) (o_peer W) (main_peer_options a) a (o_world W) = Ok t"
    and s: "s = ProcessEnvelope put_envelope (t\<lparr>agent := g\<rparr>)"
  show ?thesis
    unfolding s by (intro peer_next [OF peer_next [OF peer_new [OF t assms(2)] step_agent] step_callback])
qed

lemma node_main_own:
  assumes "node_main C K W = Ok (PeerNode s)" and "agent_record (agent s) = Some r"
  shows "myAgentAddress (cfg s) = Address r \<and> myAgentRecord (cfg s) = Some (copy_record r)
    \<and> valid_proof K (copy_record r) (Address r) (own_key K s)"
  using assms(1)
proof (rule node_main_peer)
  fix a t g
  assume t: "New C K (o_maddr W) (o_peer W) (main_peer_options a) a (o_world W) = Ok t"
    and s: "s = ProcessEnvelope put_envelope (t\<lparr>agent := g\<rparr>)" and g: "Connect a = (Ok (), g)"
  obtain c :: PeerConfig where c: "apply_options K (o_maddr W) (main_peer_options a) zero_config = Ok c" "New_checks K c = Ok ()"
    using t by (rule New_stages)
  have cfg: "cfg s = c\<lparr>persistentStoragePath := storage_path K c\<rparr>"
    using New_cfg [OF t] c(1) s by (auto simp: ProcessEnvelope_def)
  have r: "agent_record a = Some r" using assms(2) s Connect_record [OF g] by (simp add: ProcessEnvelope_def)
  note own = main_options_own [OF c(1) r]
  then have "own_record_addressed c" by (simp add: own_record_addressed_def copy_record_def)
  from New_checks_proven [OF c(2) this, of "s\<lparr>cfg := c\<rparr>" "copy_record r"] own cfg
  show ?thesis by (simp add: own_key_def)
qed

section \<open>The agent's queues\<close>

lemma Stop_queues:
  assumes "Stop a = (x, a')"
  shows "agent_record a' = agent_record a \<and> standalone a' = standalone a \<and> agent_queue a' = agent_queue a
    \<and> (x = Ok () \<longrightarrow> (\<exists>q. send_queue a' = Some q \<and> chan_closed q))"
proof -
  have stop: "agent_record b' = agent_record b \<and> standalone b' = standalone b \<and> out_queue b' = out_queue b
      \<and> send_queue b' = send_queue b" if "aea_stop b = (y, b')" for b y b'
    using that by (auto simp: aea_stop_def split: option.splits prod.splits res.splits)
  obtain r ch where snd_nil: "chan_send None (send_queue a) = (r, ch)" by (cases "chan_send None (send_queue a)")
  show ?thesis
  proof (cases "r = Ok ()")
    case True
    let ?a = "a\<lparr>send_queue := ch, aea_closing := True\<rparr>"
    obtain y b where b: "aea_stop ?a = (y, b)" by (cases "aea_stop ?a")
    have keep: "agent_record b = agent_record a" "standalone b = standalone a" "out_queue b = out_queue a" "send_queue b = ch"
      using stop [OF b] by simp_all
    have "agent_record a' = agent_record b \<and> standalone a' = standalone b \<and> agent_queue a' = agent_queue b
        \<and> (x = Ok () \<longrightarrow> (\<exists>q. send_queue a' = Some q \<and> chan_closed q))"
      using assms snd_nil b True
      by (cases y) (auto simp: Stop_def chan_close_def agent_queue_def split: option.splits if_splits)
    with keep show ?thesis by (simp add: agent_queue_def)
  next
    case False
    with assms snd_nil show ?thesis by (cases r) (auto simp: Stop_def agent_queue_def)
  qed
qed

lemma listen_step_queue:
  assumes "listen_step C a = (x, a')"
  shows "agent_record a' = agent_record a \<and> standalone a' = standalone a
    \<and> (\<forall>e. Some e \<in> set (agent_queue a') \<longrightarrow>
        Some e \<in> set (agent_queue a) \<or> (\<exists>r. agent_record a = Some r \<and> Sender e = Address r))"
proof (cases "aea_pipe a")
  case None
  with assms show ?thesis by (auto simp: listen_step_def)
next
  case (Some p)
  obtain q p1 ch where h: "HandleAcnMessageFromPipe C SocketPipe aea_AddAcnStatusMessage (agent_addr a) p (acn_status_chan a) = (q, p1, ch)"
    by (metis prod_cases3)
  let ?a = "a\<lparr>aea_pipe := Some p1, acn_status_chan := ch\<rparr>"
  have same: "agent_record ?a = agent_record a" "standalone ?a = standalone a" "agent_queue ?a = agent_queue a"
    by (simp_all add: agent_queue_def)
  have "set (case ch' of None \<Rightarrow> [] | Some q \<Rightarrow> chan_buf q) \<subseteq> insert v (set (case ch of None \<Rightarrow> [] | Some q \<Rightarrow> chan_buf q))"
    if "chan_send v ch = (y, ch')" for v :: "Envelope option" and ch ch' y
    using that by (cases ch) (auto simp: chan_send_def split: if_splits)
  then have sent: "set (agent_queue (?a\<lparr>out_queue := oq\<rparr>)) \<subseteq> insert v (set (agent_queue a))"
    if "chan_send v (out_queue a) = (y, oq)" for v y oq
    using that by (simp add: agent_queue_def)
  obtain z b where st: "Stop ?a = (z, b)" by (cases "Stop ?a")
  consider "a' = ?a" | y where "Stop ?a = (y, a')"
    | e r y oq where "agent_record a = Some r" "Sender e = Address r" "chan_send (Some e) (out_queue a) = (y, oq)" "a' = ?a\<lparr>out_queue := oq\<rparr>"
  proof (cases "\<exists>e. q = Ok (Some e)")
    case True
    then obtain e where e: "q = Ok (Some e)" by blast
    obtain y oq where "chan_send (Some e) (out_queue a) = (y, oq)" by (cases "chan_send (Some e) (out_queue a)")
    with assms Some h e that(1,3) show thesis
      by (cases y) (auto simp: listen_step_def Let_def split: option.splits if_splits)
  next
    case False
    with Some h have "listen_step C a = (case q of Panic \<Rightarrow> (Panic, ?a) | Block \<Rightarrow> (Block, ?a) | Ok _ \<Rightarrow> (Ok True, ?a)
        | Err e \<Rightarrow> if is_pipe_error e then if \<not> aea_closing a then and_then (z, b) (\<lambda>_ a2. (Ok False, a2)) else (Ok False, ?a)
            else (Ok True, ?a))"
      by (cases q) (simp_all add: listen_step_def Let_def st split: option.split)
    with assms st that(1,2) show thesis by (cases q; cases z) (auto split: if_splits)
  qed
  then show ?thesis
  proof cases
    case 1
    with same show ?thesis by simp
  next
    case 2
    with Stop_queues [OF 2] same show ?thesis by simp
  next
    case 3
    with sent [OF 3(3)] same show ?thesis by auto
  qed
qed

lemma listen_queue:
  "listenForEnvelopes C a = (x, a') \<Longrightarrow> agent_record a' = agent_record a \<and> standalone a' = standalone a
    \<and> (\<forall>e. Some e \<in> set (agent_queue a') \<longrightarrow>
        Some e \<in> set (agent_queue a) \<or> (\<exists>r. agent_record a = Some r \<and> Sender e = Address r))"
proof (induction C a arbitrary: x a' rule: listenForEnvelopes.induct)
  case (1 C a)
  obtain y b where st: "listen_step C a = (y, b)" by (cases "listen_step C a")
  note s = listen_step_queue [OF st]
  show ?case
  proof (cases "y = Ok True")
    case True
    then have "listenForEnvelopes C b = (x, a')" using "1.prems" st by (subst (asm) listenForEnvelopes.simps) simp
    from "1.IH" [OF st [symmetric] True refl this] s show ?thesis by auto
  next
    case False
    then have "a' = b" using "1.prems" st by (subst (asm) listenForEnvelopes.simps) (auto split: res.splits bool.splits)
    with s show ?thesis by simp
  qed
qed

text \<open>The agent's side of a peer after it was left alone: a message that cannot be read ends the listening and closes
  both queues.\<close>

lemma listen_step_left:
  assumes "listen_step C a = (Ok False, g)" and "\<not> aea_closing a"
  shows "standalone g = standalone a \<and> (\<exists>q. send_queue g = Some q \<and> chan_closed q)"
proof -
  obtain p where p: "aea_pipe a = Some p" using assms(1) by (cases "aea_pipe a") (auto simp: listen_step_def)
  obtain q p1 ch where h: "HandleAcnMessageFromPipe C SocketPipe aea_AddAcnStatusMessage (agent_addr a) p (acn_status_chan a) = (q, p1, ch)"
    by (metis prod_cases3)
  let ?a = "a\<lparr>aea_pipe := Some p1, acn_status_chan := ch\<rparr>"
  obtain z b where st: "Stop ?a = (z, b)" by (cases "Stop ?a")
  have "z = Ok () \<and> g = b"
  proof (cases q)
    case (Ok v)
    with assms p h show ?thesis
      by (cases v) (auto simp: listen_step_def Let_def split: option.splits if_splits res.splits prod.splits)
  next
    case (Err e)
    with assms p h st show ?thesis
      by (cases z) (auto simp: listen_step_def Let_def split: if_splits)
  qed (use assms p h in \<open>auto simp: listen_step_def Let_def\<close>)
  with Stop_queues [OF st] show ?thesis by simp
qed

section \<open>Properties of the node\<close>

text \<open>C16: The agent and the node fit together. In a peer that the main program has started, every envelope that the
  listening loop takes from the agent's socket and queues is one that routing accepts: its sender is the
  peer's own agent, for which the peer has a record with a proof valid for its own key.\<close>

theorem own_envelopes_accepted:
  assumes "node_main C K W = Ok (PeerNode s)" and "\<not> standalone (agent s)" and "listenForEnvelopes C (agent s) = (x, g)"
    and "Some e \<in> set (agent_queue g)"
  shows "\<exists>r. getEnvelopeAcnRecord e (s\<lparr>agent := g\<rparr>) = Ok (Some r) \<and> valid_proof K r (Sender e) (own_key K s)"
  using assms(1)
proof (rule node_main_peer)
  fix a t h
  assume h: "Connect a = (Ok (), h)" and s: "s = ProcessEnvelope put_envelope (t\<lparr>agent := h\<rparr>)"
  have "agent_queue (agent s) = []"
    using h s assms(2) by (auto simp: Connect_def ProcessEnvelope_def agent_queue_def make_chan_def split: if_splits option.splits prod.splits res.splits)
  with listen_queue [OF assms(3)] assms(4) obtain r where r: "agent_record (agent s) = Some r" "Sender e = Address r" by auto
  with node_main_own [OF assms(1) r(1)] show ?thesis by (auto simp: getEnvelopeAcnRecord_def)
qed

text \<open>C17: The forwarding goroutine calls \<open>RouteEnvelope\<close> for what its agent has queued, exactly once each and in order, whatever
  errors the calls report, and then waits, or returns when the queue is closed; this holds for peers and clients.
  Its outcome and the node it leaves are those of these calls made one after the other. It stops earlier only at
  a call that panics or never returns, and with its outcome, and then the envelopes behind it stay queued.\<close>

theorem forwards_in_order:
  assumes "node_wired n" and "out_queue (node_agent n) = Some q" and "chan_buf q = map Some es"
    and "run_jobs (\<lambda>e m. node_RouteEnvelope C K e
        (with_agent ((node_agent m)\<lparr>out_queue := map_option (\<lambda>q. q\<lparr>chan_buf := tl (chan_buf q)\<rparr>) (out_queue (node_agent m))\<rparr>) m)) es n
      = (r, n')"
  shows "forward_loop C K (Suc (length es)) n = (if r = Ok () then (if chan_closed q then Ok () else Block, n') else (r, n'))
    \<and> r \<in> {Ok (), Panic, Block} \<and> (r = Ok () \<longrightarrow> agent_queue (node_agent n') = [])
    \<and> (\<exists>k \<le> length es. agent_queue (node_agent n') = map Some (drop k es))"
proof -
  have b: "agent_queue (node_agent n) = map Some es" using assms(2,3) by (simp add: agent_queue_def)
  have j: "run_jobs (forward_job C K) (agent_queue (node_agent n)) n = (r, n')"
    using assms(4) by (simp add: b run_jobs_map forward_job_def [abs_def] take_envelope_def)
  have "r \<noteq> Err e" for e using run_jobs_not_Err [of "forward_job C K" "agent_queue (node_agent n)" n e] j by simp
  then have "r \<in> {Ok (), Panic, Block}" by (cases r) auto
  moreover have "out_closed n = chan_closed q" using assms(2) by (simp add: out_closed_def)
  moreover note forwarding.turns_run [where C = C and K = K, OF assms(1)] forwarding.run_jobs_good [where C = C and K = K, OF assms(1) j]
  ultimately show ?thesis using j by (auto simp: forward_loop_def b drop_map)
qed

text \<open>C35: When the agent's socket fails, the listening goroutine closes the queues and returns, but the callback stays.
  The next envelope for that agent that comes with a valid proof makes the handler send on a closed channel:
  the node panics.\<close>

theorem envelope_after_agent_left:
  assumes "codec_ok C" and "processEnvelope s = Some put_envelope" and "\<not> standalone (agent s)" and "\<not> aea_closing (agent s)"
    and "listen_step C (agent s) = (Ok False, g)"
    and "mailboxServer s = None" and "tcpAddresses s (To e) = None" and "To e = myAgentAddress (cfg s)"
    and "carries C (AeaEnvelope \<lparr>ape_Envelope = eb, ape_Record = Some r\<rparr>) b" and "concat (rx st) = frame b @ rest"
    and "env_Unmarshal C eb = Inr e" and "valid_proof K r (Address r) (remote_key K st)"
  shows "fst (handleAeaEnvelopeStream C K st (s\<lparr>agent := g\<rparr>)) = Panic"
proof -
  obtain q where "standalone g = standalone (agent s)" "send_queue g = Some q" "chan_closed q"
    using listen_step_left [OF assms(5,4)] by blast
  then have "put_envelope e g = (Panic, g)" using assms(3) by (simp add: put_envelope_def Put_def chan_send_def)
  with assms(2,6-8) have "HandleAeaEnvelope C e (s\<lparr>agent := g\<rparr>) = (Panic, s\<lparr>agent := g\<rparr>)"
    by (simp add: HandleAeaEnvelope_def route_mailbox_def)
  moreover obtain pieces where "receiveEnvelopeFromPeer C K st = (Ok e, st\<lparr>rx := pieces\<rparr>)"
    using receive_valid [OF assms(1,9-12)] by blast
  ultimately show ?thesis by (simp add: handleAeaEnvelopeStream_def HandleAeaEnvelopeStream_def peer_handler_def)
qed

section \<open>An example node\<close>

text \<open>A node with a public address whose agent has written one envelope.\<close>

definition ex_node_codec :: codec where
  "ex_node_codec =
     table_codec
       [(LookupRequest ''cosmosB'', [1]), (LookupResponse (Some (ex_record 66 2)), [2]),
        (AeaEnvelope \<lparr>ape_Envelope = [5], ape_Record = Some (ex_record 65 7)\<rparr>, [3]),
        (Status (Some \<lparr>Code = SUCCESS, Msgs = []\<rparr>), [4]), (AeaEnvelope \<lparr>ape_Envelope = [5], ape_Record = None\<rparr>, [6])]
       [(ex_env ''cosmosB'' ''cosmosA'', [5])] []"

definition ex_agent_socket :: "bytes list \<Rightarrow> conn" where
  "ex_agent_socket pieces = \<lparr>rx = pieces, rx_end = None, tx = [], wcap = None\<rparr>"

definition ex_node_environ :: environ where
  "ex_node_environ = \<lparr>os_Args = [''node'', ''env''], godotenv_Overload = (\<lambda>f. None),
     os_Getenv = (\<lambda>v. case map_of
       [(''AEA_P2P_ID'', ex_key 7), (''AEA_P2P_URI'', ''h'' @ '':'' @ itoa 9000), (''AEA_P2P_URI_PUBLIC'', ''h'' @ '':'' @ itoa 9000),
        (''AEA_TO_NODE'', ''5''), (''NODE_TO_AEA'', ''6''), (''AEA_AGENT_ADDR'', ''cosmosA''), (''AEA_P2P_POR_ADDRESS'', ''cosmosA''),
        (''AEA_P2P_POR_PUBKEY'', ex_key 65), (''AEA_P2P_POR_PEER_PUBKEY'', ex_key 7),
        (''AEA_P2P_POR_SIGNATURE'', b64_Encode (replicate 64 0)), (''AEA_P2P_POR_SERVICE_ID'', ''acn''),
        (''AEA_P2P_POR_LEDGER_ID'', ''cosmos''), (''AEA_P2P_CFG_STORAGE_PATH'', ''store'')] v of None \<Rightarrow> [] | Some x \<Rightarrow> x),
     ResolveTCPAddr = (\<lambda>u. Inr u), ListenTCP = (\<lambda>u. None), ParseFloat32 = (\<lambda>s. Inr 0),
     net_Dial = Inr (ex_agent_socket [frame [6]])\<rparr>"

definition ex_outside :: outside where
  "ex_outside = \<lparr>o_environ = ex_node_environ, o_maddr = ex_maddr, o_peer = ex_setup [], o_world = ex_net [] [],
     o_client = \<lparr>su_libp2p = None, su_kaddht = None, su_connect = None, su_connects = [], su_turns = 0, su_Bootstrap = None,
       su_Addrs = []\<rparr>,
     o_index = 0, o_client_world = \<lparr>cw_NewStream = [], cw_turns = [], cw_Connect = [], cw_ready = [], cw_NewMultiaddr = Inr, cw_used = []\<rparr>\<rparr>"

lemma ex_node_codec_ok: "codec_ok ex_node_codec"
  unfolding ex_node_codec_def by (intro codec_ok_table) simp_all

lemma ex_node_messages:
  "carries ex_node_codec (LookupRequest ''cosmosB'') [1]"
  "carries ex_node_codec (LookupResponse (Some (ex_record 66 2))) [2]"
  "carries ex_node_codec (AeaEnvelope \<lparr>ape_Envelope = [5], ape_Record = Some (ex_record 65 7)\<rparr>) [3]"
  "carries ex_node_codec (Status (Some \<lparr>Code = SUCCESS, Msgs = []\<rparr>)) [4]"
  "carries ex_node_codec (AeaEnvelope \<lparr>ape_Envelope = [5], ape_Record = None\<rparr>) [6]"
  "env_Marshal ex_node_codec (ex_env ''cosmosB'' ''cosmosA'') = Inr [5]"
  by (simp_all add: carries_def ex_node_codec_def table_codec_def maxMessageSizeDelegateConnection_def)

lemma ex_env_ne [simp]: "ex_key b \<noteq> []"
  by (simp add: ex_key_def EncodeToString_def)

lemma ex_getenv:
  "os_Getenv ex_node_environ ''AEA_P2P_ID'' = ex_key 7" "os_Getenv ex_node_environ ''AEA_P2P_URI'' = ''h'' @ '':'' @ itoa 9000"
  "os_Getenv ex_node_environ ''AEA_P2P_URI_PUBLIC'' = ''h'' @ '':'' @ itoa 9000"
  "os_Getenv ex_node_environ ''AEA_TO_NODE'' = ''5''" "os_Getenv ex_node_environ ''NODE_TO_AEA'' = ''6''"
  "os_Getenv ex_node_environ ''AEA_AGENT_ADDR'' = ''cosmosA''" "os_Getenv ex_node_environ ''AEA_P2P_POR_ADDRESS'' = ''cosmosA''"
  "os_Getenv ex_node_environ ''AEA_P2P_POR_PUBKEY'' = ex_key 65" "os_Getenv ex_node_environ ''AEA_P2P_POR_PEER_PUBKEY'' = ex_key 7"
  "os_Getenv ex_node_environ ''AEA_P2P_POR_SIGNATURE'' = b64_Encode (replicate 64 0)"
  "os_Getenv ex_node_environ ''AEA_P2P_POR_SERVICE_ID'' = ''acn''" "os_Getenv ex_node_environ ''AEA_P2P_POR_LEDGER_ID'' = ''cosmos''"
  "os_Getenv ex_node_environ ''AEA_P2P_CFG_STORAGE_PATH'' = ''store''" "os_Getenv ex_node_environ ''AEA_P2P_MAILBOX_URI'' = []"
  "os_Getenv ex_node_environ ''AEA_P2P_DELEGATE_URI'' = []" "os_Getenv ex_node_environ ''AEA_P2P_URI_MONITORING'' = []"
  "os_Getenv ex_node_environ ''AEA_P2P_ENTRY_URIS'' = []" "os_Getenv ex_node_environ ''AEA_P2P_CFG_REGISTRATION_DELAY'' = []"
  by (simp_all add: ex_node_environ_def)

definition ex_node_api :: AeaApi where
  "ex_node_api = AeaApi_zero\<lparr>msgin_path := ''5'', msgout_path := ''6'', agent_addr := ''cosmosA'',
     agent_record := Some (ex_record 65 7), aea_id := ex_key 7, host := ''h'', port := 9000, host_public := ''h'',
     port_public := 9000, recordsStoragePath := ''store'', acn_status_chan := Some (make_chan 1000),
     aea_pipe := Some (NewPipe ''5'' ''6'' (Inr (ex_agent_socket [frame [6]])))\<rparr>"

lemma ex_node_record:
  "\<lparr>ServiceId = ''acn'', LedgerId = ''cosmos'', Address = ''cosmosA'', PublicKey = ex_key 65, PeerPublicKey = ex_key 7,
    Signature = b64_Encode (replicate 64 0), NotBefore = [], NotAfter = []\<rparr> = ex_record 65 7"
  using ex_record_simps(1) [of 7] by (simp add: ex_record_def)

lemma ex_node_Init: "Init ex_node_environ AeaApi_zero = (Ok (), ex_node_api)"
proof -
  have uri: "parse_uri (''h'' @ '':'' @ itoa 9000) = Inr (''h'', 9000)" using parse_uri_host_port [of "''h''" 9000] by simp
  have "load_env ex_node_environ AeaApi_zero = AeaApi_zero\<lparr>msgin_path := ''5'', msgout_path := ''6'', agent_addr := ''cosmosA'',
      agent_record := Some (ex_record 65 7), aea_id := ex_key 7, recordsStoragePath := ''store''\<rparr>"
    unfolding load_env_def Let_def ex_getenv by (simp add: ex_node_record AeaApi_zero_def)
  moreover have "os_Args ex_node_environ = [''node'', ''env'']" "godotenv_Overload ex_node_environ ''env'' = None"
      "ResolveTCPAddr ex_node_environ u = Inr u" "ListenTCP ex_node_environ u = None"
      "net_Dial ex_node_environ = Inr (ex_agent_socket [frame [6]])" for u
    by (simp_all add: ex_node_environ_def)
  ultimately show ?thesis
    unfolding Init_def Let_def ex_getenv uri by (simp add: parse_opt_uri_def uri [simplified] Init_finish_def ex_getenv
      ex_node_api_def AeaApi_zero_def Let_def)
qed

lemma ex_node_options:
  "\<exists>c. apply_options ex_crypto ex_maddr (main_peer_options ex_node_api) zero_config = Ok c \<and> New_checks ex_crypto c = Ok ()
    \<and> bootstrapPeers c = [] \<and> delegatePort c = 0"
proof -
  have "IsValidProofOfRepresentation ex_crypto (Some (ex_record 65 7)) ''cosmosA'' (ex_key 7)
      = Ok (\<lparr>Code = SUCCESS, Msgs = []\<rparr>, None)"
    using PoR_valid [OF ex_valid [of 65 7]] by simp
  then show ?thesis
    by (simp add: main_peer_options_def ex_node_api_def AeaApi_zero_def apply_option_def ex_maddr_def ex_key_pair ex_copy_record
        New_checks_def ex_pubkey zero_config_def)
qed

lemma ex_node_started:
  "\<exists>s g. node_main ex_node_codec ex_crypto ex_outside = Ok (PeerNode s) \<and> Connect ex_node_api = (Ok (), g) \<and> agent s = g"
proof -
  obtain c where c: "apply_options ex_crypto ex_maddr (main_peer_options ex_node_api) zero_config = Ok c" "New_checks ex_crypto c = Ok ()"
      "bootstrapPeers c = []" "delegatePort c = 0"
    using ex_node_options by blast
  with ex_session_signature [OF c(2)] have "\<exists>t. New ex_node_codec ex_crypto ex_maddr (ex_setup []) (main_peer_options ex_node_api) ex_node_api (ex_net [] []) = Ok t"
    by (simp add: New_def New_services_def ex_setup_def initAgentRecordPersistentStorage_def fresh_peer_def Let_def load_records.simps)
  then obtain t where t: "New ex_node_codec ex_crypto ex_maddr (ex_setup []) (main_peer_options ex_node_api) ex_node_api (ex_net [] []) = Ok t"
    by blast
  have "port_public ex_node_api \<noteq> 0" by (simp add: ex_node_api_def)
  with t have m: "make_node ex_node_codec ex_crypto ex_outside ex_node_api = Ok (PeerNode t)"
    by (simp add: make_node_def ex_outside_def)
  have "\<exists>g. Connect ex_node_api = (Ok (), g)"
    by (simp add: Connect_def ex_node_api_def AeaApi_zero_def NewPipe_def SocketPipe_def sock_Connect_def)
  then obtain g where g: "Connect ex_node_api = (Ok (), g)" by blast
  have "o_environ ex_outside = ex_node_environ" by (simp add: ex_outside_def)
  then have "node_main ex_node_codec ex_crypto ex_outside = Ok (PeerNode (ProcessEnvelope put_envelope (t\<lparr>agent := g\<rparr>)))"
    using ex_node_Init m g New_agent [OF t] by (simp add: node_main_def)
  with g show ?thesis by (auto simp: ProcessEnvelope_def)
qed

lemma ex_node_connected:
  assumes "Connect ex_node_api = (Ok (), g)"
  shows "agent_connected g (ex_agent_socket [frame [6]]) (ex_record 65 7) [[6]]" "\<not> standalone g"
  using assms
  by (auto simp: Connect_def agent_connected_def ex_node_api_def AeaApi_zero_def NewPipe_def SocketPipe_def sock_Connect_def
      ex_agent_socket_def make_chan_def OutQueueSize_def)

lemma ex_node_envelope: "envelope_message ex_node_codec (ex_env ''cosmosB'' ''cosmosA'') [6]"
  using ex_node_messages(5) codec_env [OF ex_node_codec_ok ex_node_messages(6)]
  by (auto simp: envelope_message_def intro!: exI [of _ "\<lparr>ape_Envelope = [5], ape_Record = None\<rparr>"])

lemma own_envelopes_accepted_witness:
  "\<exists>s g r. node_main ex_node_codec ex_crypto ex_outside = Ok (PeerNode s) \<and> listenForEnvelopes ex_node_codec (agent s) = (Block, g)
    \<and> getEnvelopeAcnRecord (ex_env ''cosmosB'' ''cosmosA'') (s\<lparr>agent := g\<rparr>) = Ok (Some r) \<and> valid_proof ex_crypto r ''cosmosA'' (own_key ex_crypto s)"
proof -
  obtain s where s: "node_main ex_node_codec ex_crypto ex_outside = Ok (PeerNode s)" "Connect ex_node_api = (Ok (), agent s)"
    using ex_node_started by auto
  have 1: "list_all2 (envelope_message ex_node_codec) [ex_env ''cosmosB'' ''cosmosA''] [[6]]" using ex_node_envelope by simp
  have 2: "success_message ex_node_codec [4]" using ex_node_messages(4) by (simp add: success_message_def)
  from agent_listens [OF ex_node_codec_ok 2 1 ex_node_connected(1) [OF s(2)]]
  obtain g where g: "listenForEnvelopes ex_node_codec (agent s) = (Block, g)" "agent_queue g = [Some (ex_env ''cosmosB'' ''cosmosA'')]"
    by auto
  with own_envelopes_accepted [OF s(1) ex_node_connected(2) [OF s(2)] g(1), of "ex_env ''cosmosB'' ''cosmosA''"] s(1)
  show ?thesis by auto
qed

text \<open>The agent closes its end of the socket.\<close>

definition ex_node_peer :: "AeaApi \<Rightarrow> AeaApi DHTPeer" where
  "ex_node_peer g = (fresh_peer ex_cfg g (ex_net [] []))\<lparr>processEnvelope := Some put_envelope\<rparr>"

definition ex_agent_gone :: AeaApi where
  "ex_agent_gone = AeaApi_zero\<lparr>out_queue := Some (make_chan OutQueueSize), send_queue := Some (make_chan SendQueueSize),
     aea_pipe := Some \<lparr>sock_port = 0, sock_conn = Some \<lparr>rx = [], rx_end = Some EOF, tx = [], wcap = None\<rparr>, sock_dial = Inl EOF\<rparr>\<rparr>"

lemma ex_agent_gone_left: "\<exists>g. listen_step C ex_agent_gone = (Ok False, g)"
  by (simp add: ex_agent_gone_def AeaApi_zero_def listen_step_def HandleAcnMessageFromPipe_def SocketPipe_def sock_Read_def
      conn_read_def is_pipe_error_def Stop_def chan_send_def make_chan_def SendQueueSize_def aea_stop_def sock_Close_def chan_close_def Let_def)

lemma envelope_after_agent_left_witness:
  "\<exists>g. listen_step ex_serve_codec ex_agent_gone = (Ok False, g)
    \<and> fst (handleAeaEnvelopeStream ex_serve_codec ex_crypto (ex_stream [frame [3]] 2) ((ex_node_peer ex_agent_gone)\<lparr>agent := g\<rparr>)) = Panic"
proof -
  obtain g where g: "listen_step ex_serve_codec ex_agent_gone = (Ok False, g)"
    using ex_agent_gone_left by blast
  have p: "processEnvelope (ex_node_peer h) = Some put_envelope" "agent (ex_node_peer h) = h" "mailboxServer (ex_node_peer h) = None"
      "tcpAddresses (ex_node_peer h) = Map.empty" "cfg (ex_node_peer h) = ex_cfg" for h
    by (simp_all add: ex_node_peer_def fresh_peer_def)
  have a: "\<not> standalone ex_agent_gone" "\<not> aea_closing ex_agent_gone" by (simp_all add: ex_agent_gone_def AeaApi_zero_def)
  have "fst (handleAeaEnvelopeStream ex_serve_codec ex_crypto (ex_stream [frame [3]] 2) ((ex_node_peer ex_agent_gone)\<lparr>agent := g\<rparr>)) = Panic"
    by (rule envelope_after_agent_left [OF ex_serve_codec_ok p(1) _ _ _ p(3) _ _ ex_serve_messages(1) _ ex_serve_messages(6) ex_proof_2,
          where rest = "[]"]) (simp_all add: p a g)
  with g show ?thesis by blast
qed

text \<open>An agent that has queued two envelopes under other names and left.\<close>

definition ex_refused_agent :: AeaApi where
  "ex_refused_agent = AeaApi_zero\<lparr>out_queue := Some \<lparr>chan_cap = OutQueueSize,
     chan_buf = map Some [ex_env ''b'' ''x'', ex_env ''b'' ''y''], chan_closed = True\<rparr>\<rparr>"

lemma forwards_in_order_witness:
  "\<exists>s'. forward_loop ex_node_codec ex_crypto 3 (PeerNode (ex_node_peer ex_refused_agent)) = (Ok (), PeerNode s')
    \<and> routeCountAll (metric s') = 2 \<and> agent_queue (agent s') = []"
proof -
  let ?n = "PeerNode (ex_node_peer ex_refused_agent)" and ?es = "[ex_env ''b'' ''x'', ex_env ''b'' ''y'']"
  let ?job = "\<lambda>e m. node_RouteEnvelope ex_node_codec ex_crypto e
      (with_agent ((node_agent m)\<lparr>out_queue := map_option (\<lambda>q. q\<lparr>chan_buf := tl (chan_buf q)\<rparr>) (out_queue (node_agent m))\<rparr>) m)"
  have refuse: "RouteEnvelope ex_node_codec ex_crypto e s = (Err (ErrMsg (''Envelope sender is not registered locally '' @ Sender e)), route_begun s)"
    if "cfg s = ex_cfg" "mailboxServer s = None" "peerRecords s = Map.empty" "Sender e \<noteq> ''cosmosA''" for e and s :: "AeaApi DHTPeer"
    using that by (simp add: RouteEnvelope_def getEnvelopeAcnRecord_def Let_def routeCountAll_Inc_def routeCount_add_def)
  have "\<exists>s'. run_jobs ?job ?es ?n = (Ok (), PeerNode s') \<and> routeCountAll (metric s') = 2"
    by (simp add: refuse ex_node_peer_def ex_refused_agent_def fresh_peer_def routeCountAll_Inc_def routeCount_add_def)
  then obtain s' where s': "run_jobs ?job ?es ?n = (Ok (), PeerNode s')" "routeCountAll (metric s') = 2" by blast
  have n: "node_wired ?n" "out_queue (node_agent ?n) = Some \<lparr>chan_cap = OutQueueSize, chan_buf = map Some ?es, chan_closed = True\<rparr>"
    by (simp_all add: ex_node_peer_def ex_refused_agent_def fresh_peer_def)
  from forwards_in_order [OF n _ s'(1)] s'(2) show ?thesis by (simp add: numeral_3_eq_3)
qed

end
