(* ===== verification/ClientLife.thy ===== *)
theory ClientLife
  imports Node
begin

text \<open>
  The life of a \<open>DHTClient\<close> (\<open>dht/dhtclient/dhtclient.go\<close>) as a transition system: construction from options, then
  envelopes of the agent, streams that arrive, the callback, the end, in any order, while the network answers what it
  likes. A goroutine of the client that is interrupted by another finds nothing changed but the network's answers, the log of
  the streams, the callback and the agent. What is shown of a run from the options on: who the client is does not
  change, its record is proven, its relay is the entry peer that was drawn, and nothing but envelopes leaves for
  any other peer than the relay, and those only for peers that a proven record names.
\<close>

section \<open>Steps\<close>

text \<open>The network's new answers leave the log of the streams alone.\<close>

inductive client_step :: "codec \<Rightarrow> crypto \<Rightarrow> 'g DHTClient \<Rightarrow> 'g DHTClient \<Rightarrow> bool"
  for C :: codec and K :: crypto where
  cstep_callback: "client_step C K s (cl_ProcessEnvelope f s)"
| cstep_route: "cl_RouteEnvelope C K e s = (r, s') \<Longrightarrow> client_step C K s s'"
| cstep_envelope: "cl_handleAeaEnvelopeStream C K st s = (r, st', s') \<Longrightarrow> client_step C K s s'"
| cstep_address: "cl_handleAeaAddressStream C st s = (r, st', s') \<Longrightarrow> client_step C K s s'"
| cstep_close: "cl_Close de he s = (r, s') \<Longrightarrow> client_step C K s s'"
| cstep_agent: "client_step C K s (s\<lparr>cl_agent := g\<rparr>)"
| cstep_net: "cw_used w = cw_used (cl_net s) \<Longrightarrow> client_step C K s (s\<lparr>cl_net := w\<rparr>)"

section \<open>The invariant\<close>

definition cl_own_key :: "crypto \<Rightarrow> 'g DHTClient \<Rightarrow> string" where
  "cl_own_key K s = (case FetchAIPublicKeyFromPubKey K (cl_publicKey s) of Inl _ \<Rightarrow> [] | Inr k \<Rightarrow> k)"

text \<open>What a step of a client leaves as it was.\<close>

definition client_same :: "'g DHTClient \<Rightarrow> 'g DHTClient \<Rightarrow> bool" where
  "client_same s s' \<longleftrightarrow> cl_key s' = cl_key s \<and> cl_publicKey s' = cl_publicKey s \<and> cl_myAgentAddress s' = cl_myAgentAddress s
     \<and> cl_myAgentRecord s' = cl_myAgentRecord s \<and> cl_bootstrapPeers s' = cl_bootstrapPeers s \<and> relayPeer s' = relayPeer s"

text \<open>The streams that a client with this relay may open.\<close>

definition client_streams :: "crypto \<Rightarrow> peerID \<Rightarrow> (peerID \<times> string) set" where
  "client_streams K relay =
     {(relay, AeaRegisterRelayStream), (relay, AeaAddressStream)} \<union>
     {(p, proto). proto = AeaEnvelopeStream \<and>
       (\<exists>r a. valid_proof K r a (PeerPublicKey r) \<and> IDFromFetchAIPublicKey K (PeerPublicKey r) = Inr p)}"

definition client_keeps :: "crypto \<Rightarrow> 'g DHTClient \<Rightarrow> 'g DHTClient \<Rightarrow> bool" where
  "client_keeps K s s' \<longleftrightarrow> client_same s s' \<and> cl_opens (client_streams K (relayPeer s)) s s'"

lemma client_keeps_refl: "client_keeps K s s"
  by (simp add: client_keeps_def client_same_def cl_opens_same)

lemma client_keeps_trans: "\<lbrakk>client_keeps K s t; client_keeps K t u\<rbrakk> \<Longrightarrow> client_keeps K s u"
  by (auto simp: client_keeps_def client_same_def intro: cl_opens_trans)

lemma client_keeps_update [simp]:
  "client_keeps K s (s\<lparr>cl_processEnvelope := f\<rparr>)" "client_keeps K s (s\<lparr>cl_agent := g\<rparr>)" "client_keeps K s (s\<lparr>cl_closed := b\<rparr>)"
  "cw_used w = cw_used (cl_net s) \<Longrightarrow> client_keeps K s (s\<lparr>cl_net := w\<rparr>)"
  by (simp_all add: client_keeps_def client_same_def cl_opens_same)

lemma cl_HandleAeaEnvelope_keeps: "client_keeps K s (snd (cl_HandleAeaEnvelope e s))"
  by (auto simp: cl_HandleAeaEnvelope_def client_keeps_refl split: option.splits prod.splits res.splits if_splits)

lemma cl_frame_same: "cl_frame s s' \<Longrightarrow> client_same s s'"
  by (auto simp: cl_frame_def client_same_def)

lemma client_step_keeps:
  assumes "client_step C K s s'"
  shows "client_keeps K s s'"
  using assms
proof cases
  case (cstep_route e r)
  have "route_streams K e s \<subseteq> client_streams K (relayPeer s)" by (auto simp: route_streams_def client_streams_def)
  with cstep_route show ?thesis
    using cl_frame_same [OF cl_RouteEnvelope_frame] cl_opens_mono [OF cl_RouteEnvelope_streams] by (auto simp: client_keeps_def)
next
  case (cstep_envelope st r st')
  then have "s' = s \<or> (\<exists>e. s' = snd (cl_HandleAeaEnvelope e s))"
    using client.envelope_stream_proven [of C K st s]
    by (fastforce simp: cl_handleAeaEnvelopeStream_def client_handler_def)
  then show ?thesis using cl_HandleAeaEnvelope_keeps client_keeps_refl by metis
next
  case (cstep_address st r st')
  then have "s' = s"
    by (auto simp: cl_handleAeaAddressStream_def HandleAeaAddressStream_def client_handler_def cl_HandleAeaAddressRequest_def
        split: prod.splits res.splits option.splits if_splits)
  then show ?thesis by (simp add: client_keeps_refl)
next
  case (cstep_close de he r)
  then show ?thesis by (auto simp: cl_Close_def client_keeps_refl split: if_splits)
qed (simp_all add: cl_ProcessEnvelope_def)

lemma client_run_keeps: "(client_step C K)\<^sup>*\<^sup>* m s \<Longrightarrow> client_keeps K m s"
  by (induction rule: rtranclp_induct) (auto intro: client_keeps_refl client_keeps_trans client_step_keeps)

section \<open>Construction\<close>

text \<open>The own record of a configuration is filed under the agent's own address; no stream is used yet.\<close>

definition client_configured :: "'g DHTClient \<Rightarrow> bool" where
  "client_configured s \<longleftrightarrow> (\<forall>r. cl_myAgentRecord s = Some r \<longrightarrow> Address r = cl_myAgentAddress s) \<and> cw_used (cl_net s) = []"

lemma cl_apply_options_configured:
  "\<lbrakk>cl_apply_options K L opts s = Ok s'; client_configured s\<rbrakk> \<Longrightarrow> client_configured s'"
proof (induction opts arbitrary: s)
  case (Cons opt opts)
  then obtain t where t: "cl_apply_option K L opt s = Ok t" "cl_apply_options K L opts t = Ok s'"
    by (cases "cl_apply_option K L opt s") auto
  have "client_configured t"
    using t(1) Cons.prems(2)
    by (cases "\<exists>l. opt = ClBootstrapFrom l"; cases opt; cases "GetPeersAddrInfo L (case opt of ClBootstrapFrom l \<Rightarrow> l)")
      (auto simp: cl_apply_option_def client_configured_def copy_record_def split: sum.splits)
  with Cons.IH t(2) show ?case by blast
qed simp

lemma cl_New_checks_Ok:
  assumes "cl_New_checks K s = Ok ()"
  shows "\<exists>r. cl_myAgentRecord s = Some r \<and> valid_proof K r (Address r) (cl_own_key K s) \<and> cl_bootstrapPeers s \<noteq> []"
proof -
  obtain r st where "cl_myAgentRecord s = Some r" "cl_bootstrapPeers s \<noteq> []"
      "IsValidProofOfRepresentation K (Some r) (Address r) (cl_own_key K s) = Ok (st, None)" "Code st = SUCCESS"
    using assms by (auto simp: cl_New_checks_def cl_own_key_def Let_def split: if_splits option.splits res.splits)
  with PoR_accepted show ?thesis by fastforce
qed

text \<open>The client that \<open>New\<close> makes: the configured one with the relay that was drawn, its record checked, and one stream
  to the relay used for its registration.\<close>

lemma cl_New_made:
  assumes "cl_New C K index su s0 = (Ok (), m)" and "client_configured s0"
  shows "\<exists>r. cl_myAgentRecord s0 = Some r \<and> valid_proof K r (cl_myAgentAddress s0) (cl_own_key K s0)"
    and "cl_bootstrapPeers s0 \<noteq> []"
    and "client_keeps K (s0\<lparr>relayPeer := cl_bootstrapPeers s0 ! (index mod length (cl_bootstrapPeers s0))\<rparr>) m"
proof -
  have checks: "cl_New_checks K s0 = Ok ()" using assms(1) by (cases "cl_New_checks K s0") (auto simp: cl_New_def cl_New_register_def)
  from cl_New_checks_Ok [OF this] assms(2)
  show "\<exists>r. cl_myAgentRecord s0 = Some r \<and> valid_proof K r (cl_myAgentAddress s0) (cl_own_key K s0)" "cl_bootstrapPeers s0 \<noteq> []"
    by (auto simp: client_configured_def)
  let ?s = "s0\<lparr>relayPeer := cl_bootstrapPeers s0 ! (index mod length (cl_bootstrapPeers s0))\<rparr>"
  have reg: "cl_registerAgentAddress C ?s = (Ok (), m)"
    using assms(1) checks
    by (auto simp: cl_New_def cl_New_register_def Let_def split: option.splits prod.splits res.splits)
  show "client_keeps K ?s m"
    using cl_frame_same [OF cl_registerAgentAddress_frame [OF reg]]
      cl_opens_mono [OF cl_registerAgentAddress_opens [OF reg], of "client_streams K (relayPeer ?s)"]
    by (simp add: client_keeps_def client_streams_def)
qed

section \<open>Property of a client's life\<close>

text \<open>C29: Whatever a client has done since it was made from its options, and whatever the network has answered: its keys, its
  address, its record, its entry peers and its relay are those it was made with; the record carries a proof for
  its address that is valid for its own key; the relay is the entry peer that the random number drew; and every
  stream that it has opened went to that relay, for a registration or an address request, unless it was for an
  envelope, and then it went to the peer that a record with a valid proof names. Streams that were opened and
  given up are counted.\<close>

theorem client_stays_proven:
  assumes "cl_apply_options K L opts (zero_client g w) = Ok s0" and "cw_used w = []" and "cl_New C K index su s0 = (Ok (), m)"
    and "(client_step C K)\<^sup>*\<^sup>* m s"
  shows "cl_key s = cl_key s0 \<and> cl_publicKey s = cl_publicKey s0 \<and> cl_myAgentAddress s = cl_myAgentAddress s0
    \<and> cl_myAgentRecord s = cl_myAgentRecord s0 \<and> cl_bootstrapPeers s = cl_bootstrapPeers s0
    \<and> (\<exists>r. cl_myAgentRecord s0 = Some r \<and> valid_proof K r (cl_myAgentAddress s0) (cl_own_key K s0))
    \<and> index mod length (cl_bootstrapPeers s0) < length (cl_bootstrapPeers s0)
    \<and> relayPeer s = cl_bootstrapPeers s0 ! (index mod length (cl_bootstrapPeers s0))
    \<and> (\<forall>(p, proto, st) \<in> set (cw_used (cl_net s)).
        proto \<in> {AeaRegisterRelayStream, AeaAddressStream} \<and> p = relayPeer s \<or>
        proto = AeaEnvelopeStream \<and> (\<exists>r a. valid_proof K r a (PeerPublicKey r) \<and> IDFromFetchAIPublicKey K (PeerPublicKey r) = Inr p))"
proof -
  let ?s = "s0\<lparr>relayPeer := cl_bootstrapPeers s0 ! (index mod length (cl_bootstrapPeers s0))\<rparr>"
  have "client_configured (zero_client g w)" using assms(2) by (simp add: client_configured_def zero_client_def)
  from cl_apply_options_configured [OF assms(1) this] have conf: "client_configured s0" .
  note made = cl_New_made [OF assms(3) conf]
  have keep: "client_keeps K ?s s" by (rule client_keeps_trans [OF made(3) client_run_keeps [OF assms(4)]])
  have "\<forall>(p, proto, st) \<in> set (cw_used (cl_net s)). (p, proto) \<in> client_streams K (relayPeer ?s)"
    using keep conf by (auto simp: client_keeps_def cl_opens_def client_configured_def)
  moreover have "relayPeer s = relayPeer ?s" using keep by (simp add: client_keeps_def client_same_def)
  ultimately have "\<forall>(p, proto, st) \<in> set (cw_used (cl_net s)).
        proto \<in> {AeaRegisterRelayStream, AeaAddressStream} \<and> p = relayPeer s \<or>
        proto = AeaEnvelopeStream \<and> (\<exists>r a. valid_proof K r a (PeerPublicKey r) \<and> IDFromFetchAIPublicKey K (PeerPublicKey r) = Inr p)"
    by (auto simp: client_streams_def)
  then show ?thesis
    using made(1,2) keep by (simp add: client_keeps_def client_same_def)
qed

definition ex_client_world :: client_world where
  "ex_client_world = \<lparr>cw_NewStream = [Inr (Some (ex_client_stream [frame [4]]))], cw_turns = [], cw_Connect = [], cw_ready = [],
     cw_NewMultiaddr = (\<lambda>_. Inr ''ma''), cw_used = []\<rparr>"

definition ex_client_setup :: client_setup where
  "ex_client_setup = \<lparr>su_libp2p = None, su_kaddht = None, su_connect = None, su_connects = [], su_turns = 0, su_Bootstrap = None,
     su_Addrs = [[[True]]]\<rparr>"

lemma ex_client_starts:
  "\<exists>s0 st. cl_apply_options ex_crypto ex_maddr [ClIdentityFromFetchAIKey (ex_key 7), ClRegisterAgentAddress (ex_record 65 7),
      ClBootstrapFrom [''r'']] (zero_client ([] :: Envelope list) ex_client_world) = Ok s0
    \<and> cl_New ex_client_codec ex_crypto 0 ex_client_setup s0
      = (Ok (), cl_log ''r'' AeaRegisterRelayStream st (asked 1 (s0\<lparr>relayPeer := ''r''\<rparr>)))
    \<and> cl_myAgentAddress s0 = ''cosmosA'' \<and> cl_myAgentRecord s0 = Some (ex_record 65 7) \<and> cl_bootstrapPeers s0 = [''r''] \<and> \<not> cl_closed s0"
proof -
  let ?s0 = "(zero_client ([] :: Envelope list) ex_client_world)\<lparr>cl_key := Some 7, cl_publicKey := (0, 7),
    cl_myAgentAddress := ''cosmosA'', cl_myAgentRecord := Some (ex_record 65 7), cl_bootstrapPeers := [''r'']\<rparr>"
  have opts: "cl_apply_options ex_crypto ex_maddr [ClIdentityFromFetchAIKey (ex_key 7), ClRegisterAgentAddress (ex_record 65 7),
      ClBootstrapFrom [''r'']] (zero_client [] ex_client_world) = Ok ?s0"
    by (simp add: cl_apply_option_def ex_key_pair ex_copy_record ex_maddr_def zero_client_def)
  have por: "IsValidProofOfRepresentation ex_crypto (Some (ex_record 65 7)) ''cosmosA'' (ex_key 7)
      = Ok (\<lparr>Code = SUCCESS, Msgs = []\<rparr>, None)"
    using PoR_valid [OF ex_valid [of 65 7]] by simp
  have checks: "cl_New_checks ex_crypto ?s0 = Ok ()"
    using por ex_pubkey [of 7] by (simp add: cl_New_checks_def zero_client_def)
  have reg: "carries ex_client_codec (Register (cl_myAgentRecord (?s0\<lparr>relayPeer := ''r''\<rparr>))) [6]"
    by (simp add: carries_def ex_client_codec_def table_codec_def maxMessageSizeDelegateConnection_def)
  obtain st where "cl_registerAgentAddress ex_client_codec (?s0\<lparr>relayPeer := ''r''\<rparr>)
      = (Ok (), cl_log ''r'' AeaRegisterRelayStream st (asked 1 (?s0\<lparr>relayPeer := ''r''\<rparr>)))"
    using cl_register_exchange [OF ex_client_codec_ok _ _ reg ex_client_messages(4), of "ex_client_stream [frame [4]]" "[]" "[]"]
    by (auto simp: zero_client_def ex_client_world_def ex_client_stream_def)
  then have "cl_New ex_client_codec ex_crypto 0 ex_client_setup ?s0
      = (Ok (), cl_log ''r'' AeaRegisterRelayStream st (asked 1 (?s0\<lparr>relayPeer := ''r''\<rparr>)))"
    using checks by (simp add: cl_New_def cl_New_register_def ex_client_setup_def bootstrap_loop.simps Let_def)
  moreover have "cl_myAgentAddress ?s0 = ''cosmosA''" "cl_myAgentRecord ?s0 = Some (ex_record 65 7)" "cl_bootstrapPeers ?s0 = [''r'']"
      "\<not> cl_closed ?s0"
    by (simp_all add: zero_client_def)
  ultimately show ?thesis using opts by blast
qed

lemma client_stays_proven_witness:
  "\<exists>(m :: Envelope list DHTClient) s. (client_step ex_client_codec ex_crypto)\<^sup>*\<^sup>* m s \<and> cw_used (cl_net m) \<noteq> [] \<and> cl_closed s
    \<and> cl_myAgentAddress s = ''cosmosA'' \<and> cl_myAgentRecord s = Some (ex_record 65 7) \<and> relayPeer s = ''r''"
proof -
  obtain s0 st where s0: "cl_apply_options ex_crypto ex_maddr [ClIdentityFromFetchAIKey (ex_key 7), ClRegisterAgentAddress (ex_record 65 7),
      ClBootstrapFrom [''r'']] (zero_client ([] :: Envelope list) ex_client_world) = Ok s0"
    "cl_New ex_client_codec ex_crypto 0 ex_client_setup s0
      = (Ok (), cl_log ''r'' AeaRegisterRelayStream st (asked 1 (s0\<lparr>relayPeer := ''r''\<rparr>)))"
    "cl_myAgentAddress s0 = ''cosmosA''" "cl_myAgentRecord s0 = Some (ex_record 65 7)" "cl_bootstrapPeers s0 = [''r'']" "\<not> cl_closed s0"
    using ex_client_starts by blast
  let ?m = "cl_log ''r'' AeaRegisterRelayStream st (asked 1 (s0\<lparr>relayPeer := ''r''\<rparr>))"
  have "\<not> cl_closed ?m" using s0(6) by (simp add: cl_log_def)
  then have "cl_Close None None ?m = (Ok [], ?m\<lparr>cl_closed := True\<rparr>)" by (simp add: cl_Close_def)
  then have run: "(client_step ex_client_codec ex_crypto)\<^sup>*\<^sup>* ?m (?m\<lparr>cl_closed := True\<rparr>)" by (blast intro: cstep_close)
  have w: "cw_used ex_client_world = []" by (simp add: ex_client_world_def)
  from client_stays_proven [OF s0(1) w s0(2) run] s0(3-5)
  have "cl_myAgentAddress (?m\<lparr>cl_closed := True\<rparr>) = ''cosmosA''" "cl_myAgentRecord (?m\<lparr>cl_closed := True\<rparr>) = Some (ex_record 65 7)"
      "relayPeer (?m\<lparr>cl_closed := True\<rparr>) = ''r''"
    by simp_all
  moreover have "cw_used (cl_net ?m) \<noteq> []" "cl_closed (?m\<lparr>cl_closed := True\<rparr>)" by (simp_all add: cl_log_def)
  ultimately show ?thesis using run by blast
qed

end
