(* ===== verification/Monitoring.thy ===== *)
theory Monitoring
  imports Complex_Main Go_Std
begin

text \<open>
  \<open>dht/monitoring\<close>: the metrics that a peer keeps when it does not report to prometheus
  (\<open>file.go\<close>), the variant that does (\<open>prometheus.go\<close>), the interface of the two as the locale
  \<open>monitoring_service\<close>, and the timers of both (\<open>service.go\<close>). Metrics count, so their floats are
  rational numbers here: adding one is exact on floats up to \<open>2 ^ 53\<close>. Counts of a histogram are
  \<open>uint64\<close> and wrap. Times are in nanoseconds. The dictionaries hold the metrics themselves, since
  every holder of a metric gets it from the dictionary.

  The facts: the metrics that a peer asks for are there after its set-up with either service; the statistics file holds the
  current metrics after every turn that succeeds; after any observations a histogram holds, for every bucket, the number of observations up
  to its bound, and in the last place the number of all.
\<close>

section \<open>Metrics\<close>

record FileGauge =
  fg_value :: rat

definition fg_Set :: "rat \<Rightarrow> FileGauge \<Rightarrow> FileGauge" where
  "fg_Set v g = g\<lparr>fg_value := v\<rparr>"

definition fg_Add :: "rat \<Rightarrow> FileGauge \<Rightarrow> FileGauge" where
  "fg_Add count g = g\<lparr>fg_value := fg_value g + count\<rparr>"

definition fg_Sub :: "rat \<Rightarrow> FileGauge \<Rightarrow> FileGauge" where
  "fg_Sub count g = g\<lparr>fg_value := fg_value g - count\<rparr>"

definition fg_Inc :: "FileGauge \<Rightarrow> FileGauge" where
  "fg_Inc g = fg_Add 1 g"

definition fg_Dec :: "FileGauge \<Rightarrow> FileGauge" where
  "fg_Dec g = fg_Sub 1 g"

record FileCounter =
  fc_value :: rat

definition fc_Add :: "rat \<Rightarrow> FileCounter \<Rightarrow> FileCounter" where
  "fc_Add count c = c\<lparr>fc_value := fc_value c + count\<rparr>"

definition fc_Inc :: "FileCounter \<Rightarrow> FileCounter" where
  "fc_Inc c = fc_Add 1 c"

record FileHistogram =
  fh_buckets :: "rat list"
  fh_counts :: "64 word list"

text \<open>The loop of \<open>Observe\<close> over the buckets from index \<open>i\<close> on; the last place is outside of them. An
  index outside of \<open>counts\<close> is a panic.\<close>

fun observe_loop :: "rat \<Rightarrow> nat \<Rightarrow> rat list \<Rightarrow> 64 word list \<Rightarrow> 64 word list option" where
  "observe_loop v i [] counts = (if i < length counts then Some (counts[i := counts ! i + 1]) else None)"
| "observe_loop v i (b # bs) counts =
     (if v \<le> b
      then if i < length counts then observe_loop v (Suc i) bs (counts[i := counts ! i + 1]) else None
      else observe_loop v (Suc i) bs counts)"

definition fh_Observe :: "rat \<Rightarrow> FileHistogram \<Rightarrow> unit res \<times> FileHistogram" where
  "fh_Observe v h =
     (case observe_loop v 0 (fh_buckets h) (fh_counts h) of
        None \<Rightarrow> (Panic, h)
      | Some counts \<Rightarrow> (Ok (), h\<lparr>fh_counts := counts\<rparr>))"

section \<open>Timers\<close>

record Timer =
  tm_list :: "string \<rightharpoonup> int"

definition tm_GetTimer :: "int \<Rightarrow> int \<Rightarrow> int" where
  "tm_GetTimer now timer = now - timer"

definition tm_NewTimerNamed :: "int \<Rightarrow> string \<Rightarrow> Timer \<Rightarrow> string \<times> Timer" where
  "tm_NewTimerNamed now name tm = (name, tm\<lparr>tm_list := (tm_list tm)(name \<mapsto> now)\<rparr>)"

definition tm_GetTimerNamed :: "int \<Rightarrow> string \<Rightarrow> Timer \<Rightarrow> int res \<times> Timer" where
  "tm_GetTimerNamed now timer tm =
     (case tm_list tm timer of
        None \<Rightarrow> (Err (ErrMsg (''Unknown timer '' @ timer)), tm)
      | Some start \<Rightarrow> (Ok (now - start), tm\<lparr>tm_list := (tm_list tm)(timer := None)\<rparr>))"

section \<open>The service\<close>

record FileMonitoring =
  Namespace :: string
  gaugeDict :: "string \<rightharpoonup> FileGauge"
  counterDict :: "string \<rightharpoonup> FileCounter"
  histoDict :: "string \<rightharpoonup> FileHistogram"
  fm_timer :: Timer
  fm_path :: string
  fm_write :: bool
  fm_running :: bool
  fm_closed :: bool

definition NewFileMonitoring :: "string \<Rightarrow> string \<Rightarrow> bool \<Rightarrow> FileMonitoring" where
  "NewFileMonitoring cwd namespace write =
     \<lparr>Namespace = namespace, gaugeDict = Map.empty, counterDict = Map.empty, histoDict = Map.empty,
      fm_timer = \<lparr>tm_list = Map.empty\<rparr>, fm_path = cwd @ ''/'' @ namespace @ ''.stats'', fm_write = write,
      fm_running = False, fm_closed = False\<rparr>"

definition fm_NewCounter :: "string \<Rightarrow> FileMonitoring \<Rightarrow> FileCounter \<times> FileMonitoring" where
  "fm_NewCounter name fm =
     (let counter = \<lparr>fc_value = 0\<rparr> in (counter, fm\<lparr>counterDict := (counterDict fm)(name \<mapsto> counter)\<rparr>))"

definition fm_GetCounter :: "string \<Rightarrow> FileMonitoring \<Rightarrow> FileCounter option" where
  "fm_GetCounter name fm = counterDict fm name"

definition fm_NewGauge :: "string \<Rightarrow> FileMonitoring \<Rightarrow> FileGauge \<times> FileMonitoring" where
  "fm_NewGauge name fm =
     (let gauge = \<lparr>fg_value = 0\<rparr> in (gauge, fm\<lparr>gaugeDict := (gaugeDict fm)(name \<mapsto> gauge)\<rparr>))"

definition fm_GetGauge :: "string \<Rightarrow> FileMonitoring \<Rightarrow> FileGauge option" where
  "fm_GetGauge name fm = gaugeDict fm name"

definition fm_NewHistogram :: "string \<Rightarrow> rat list \<Rightarrow> FileMonitoring \<Rightarrow> FileHistogram \<times> FileMonitoring" where
  "fm_NewHistogram name buckets fm =
     (let histogram = \<lparr>fh_buckets = buckets, fh_counts = replicate (length buckets + 1) 0\<rparr>
      in (histogram, fm\<lparr>histoDict := (histoDict fm)(name \<mapsto> histogram)\<rparr>))"

definition fm_GetHistogram :: "string \<Rightarrow> FileMonitoring \<Rightarrow> FileHistogram option" where
  "fm_GetHistogram name fm = histoDict fm name"

text \<open>\<open>Start\<close> does nothing unless the metrics are to be written; \<open>Stop\<close> closes the channel that \<open>Start\<close>
  makes, so it panics when the service was never started or is stopped twice.\<close>

definition fm_Start :: "FileMonitoring \<Rightarrow> FileMonitoring" where
  "fm_Start fm = (if fm_running fm \<or> \<not> fm_write fm then fm else fm\<lparr>fm_running := True\<rparr>)"

definition fm_Stop :: "FileMonitoring \<Rightarrow> unit res \<times> FileMonitoring" where
  "fm_Stop fm = (if \<not> fm_running fm \<or> fm_closed fm then (Panic, fm) else (Ok (), fm\<lparr>fm_closed := True\<rparr>))"

definition fm_Info :: "FileMonitoring \<Rightarrow> string" where
  "fm_Info fm = ''FileMonitoring on '' @ fm_path fm"

text \<open>What \<open>Start\<close> writes. The formatting of a float, \<open>%e\<close>, is an argument; so are the orders in which the two ranges
  go through the dictionaries.\<close>

definition fg_Get :: "FileGauge \<Rightarrow> rat" where
  "fg_Get g = fg_value g"

definition fc_Get :: "FileCounter \<Rightarrow> rat" where
  "fc_Get c = fc_value c"

definition stats_line :: "(rat \<Rightarrow> string) \<Rightarrow> string \<Rightarrow> string \<Rightarrow> rat option \<Rightarrow> string" where
  "stats_line fmt namespace name v = (case v of None \<Rightarrow> [] | Some x \<Rightarrow> namespace @ ''_'' @ name @ '' '' @ fmt x @ [CHR 0x0A])"

definition getStats :: "(rat \<Rightarrow> string) \<Rightarrow> string list \<Rightarrow> string list \<Rightarrow> FileMonitoring \<Rightarrow> string" where
  "getStats fmt gauges counters fm =
     concat (map (\<lambda>n. stats_line fmt (Namespace fm) n (map_option fg_Get (gaugeDict fm n))) gauges)
     @ concat (map (\<lambda>n. stats_line fmt (Namespace fm) n (map_option fc_Get (counterDict fm n))) counters)"

text \<open>The file: its text and the offset of the next write, and what it answers in a turn. A call that fails does nothing.
  A file that could not be opened is nil, and calls on it fail.\<close>

record stats_file =
  sf_text :: string
  sf_offset :: nat

record file_answers =
  fa_Truncate :: "err option"
  fa_Seek :: "err option"
  fa_Write :: "err option"

definition file_Truncate :: "file_answers \<Rightarrow> stats_file \<Rightarrow> stats_file" where
  "file_Truncate a f = (if fa_Truncate a = None then f\<lparr>sf_text := []\<rparr> else f)"

definition file_Seek :: "file_answers \<Rightarrow> stats_file \<Rightarrow> stats_file" where
  "file_Seek a f = (if fa_Seek a = None then f\<lparr>sf_offset := 0\<rparr> else f)"

definition file_WriteString :: "file_answers \<Rightarrow> string \<Rightarrow> stats_file \<Rightarrow> stats_file" where
  "file_WriteString a d f =
     (if fa_Write a \<noteq> None then f
      else let k = sf_offset f; old = sf_text f @ replicate (k - length (sf_text f)) CHR 0x00 in
        f\<lparr>sf_text := take k old @ d @ drop (k + length d) old, sf_offset := k + length d\<rparr>)"

text \<open>The loop of \<open>Start\<close>: in each turn it is closing (\<open>None\<close>) or writes the metrics as they are then.\<close>

fun fm_write_loop ::
  "(rat \<Rightarrow> string) \<Rightarrow> (file_answers \<times> string list \<times> string list \<times> FileMonitoring) option list \<Rightarrow> stats_file option \<Rightarrow>
   unit res \<times> stats_file option" where
  "fm_write_loop fmt [] file = (Block, file)"
| "fm_write_loop fmt (None # turns) file = (Ok (), file)"
| "fm_write_loop fmt (Some (a, gauges, counters, fm) # turns) file =
     fm_write_loop fmt turns
       (map_option (\<lambda>f. file_WriteString a (getStats fmt gauges counters fm) (file_Seek a (file_Truncate a f))) file)"

definition fm_Timer :: "FileMonitoring \<Rightarrow> Timer" where
  "fm_Timer fm = fm_timer fm"

section \<open>Prometheus\<close>

text \<open>The variant of \<open>prometheus.go\<close>. The client library is a parameter: \<open>promauto\<close>'s constructors, over its registry, each with
  the namespace, the name and the help text. They give the metric or panic.\<close>

record ('m, 'r) prom_lib =
  prom_NewCounter :: "string \<Rightarrow> string \<Rightarrow> string \<Rightarrow> 'r \<Rightarrow> 'm res \<times> 'r"
  prom_NewGauge :: "string \<Rightarrow> string \<Rightarrow> string \<Rightarrow> 'r \<Rightarrow> 'm res \<times> 'r"
  prom_NewHistogram :: "string \<Rightarrow> string \<Rightarrow> string \<Rightarrow> rat list \<Rightarrow> 'r \<Rightarrow> 'm res \<times> 'r"

text \<open>The registry and the patterns of \<open>http.DefaultServeMux\<close> are of the whole process; the server is its address and
  whether it is closed.\<close>

record ('m, 'r) PrometheusMonitoring =
  pm_Namespace :: string
  pm_Port :: "16 word"
  pm_running :: bool
  pm_httpServer :: "string \<times> bool"
  pm_counterDict :: "string \<rightharpoonup> 'm"
  pm_gaugeDict :: "string \<rightharpoonup> 'm"
  pm_histoDict :: "string \<rightharpoonup> 'm"
  pm_timer :: Timer
  pm_registry :: 'r
  pm_mux :: "string set"

definition NewPrometheusMonitoring :: "string \<Rightarrow> 16 word \<Rightarrow> 'r \<Rightarrow> string set \<Rightarrow> ('m, 'r) PrometheusMonitoring" where
  "NewPrometheusMonitoring namespace port reg mux =
     \<lparr>pm_Namespace = namespace, pm_Port = port, pm_running = False, pm_httpServer = ([], False), pm_counterDict = Map.empty,
      pm_gaugeDict = Map.empty, pm_histoDict = Map.empty, pm_timer = \<lparr>tm_list = Map.empty\<rparr>, pm_registry = reg, pm_mux = mux\<rparr>"

definition pm_NewCounter ::
  "('m, 'r) prom_lib \<Rightarrow> string \<Rightarrow> string \<Rightarrow> ('m, 'r) PrometheusMonitoring \<Rightarrow> 'm res \<times> ('m, 'r) PrometheusMonitoring" where
  "pm_NewCounter L name description pm =
     (case prom_NewCounter L (pm_Namespace pm) name description (pm_registry pm) of (r, reg) \<Rightarrow>
        and_then (r, pm\<lparr>pm_registry := reg\<rparr>) (\<lambda>counter pm1.
          (Ok counter, pm1\<lparr>pm_counterDict := (pm_counterDict pm1)(name \<mapsto> counter)\<rparr>)))"

definition pm_GetCounter :: "string \<Rightarrow> ('m, 'r) PrometheusMonitoring \<Rightarrow> 'm option" where
  "pm_GetCounter name pm = pm_counterDict pm name"

definition pm_NewGauge ::
  "('m, 'r) prom_lib \<Rightarrow> string \<Rightarrow> string \<Rightarrow> ('m, 'r) PrometheusMonitoring \<Rightarrow> 'm res \<times> ('m, 'r) PrometheusMonitoring" where
  "pm_NewGauge L name description pm =
     (case prom_NewGauge L (pm_Namespace pm) name description (pm_registry pm) of (r, reg) \<Rightarrow>
        and_then (r, pm\<lparr>pm_registry := reg\<rparr>) (\<lambda>gauge pm1.
          (Ok gauge, pm1\<lparr>pm_gaugeDict := (pm_gaugeDict pm1)(name \<mapsto> gauge)\<rparr>)))"

definition pm_GetGauge :: "string \<Rightarrow> ('m, 'r) PrometheusMonitoring \<Rightarrow> 'm option" where
  "pm_GetGauge name pm = pm_gaugeDict pm name"

definition pm_NewHistogram ::
  "('m, 'r) prom_lib \<Rightarrow> string \<Rightarrow> string \<Rightarrow> rat list \<Rightarrow> ('m, 'r) PrometheusMonitoring \<Rightarrow>
   'm res \<times> ('m, 'r) PrometheusMonitoring" where
  "pm_NewHistogram L name description buckets pm =
     (case prom_NewHistogram L (pm_Namespace pm) name description buckets (pm_registry pm) of (r, reg) \<Rightarrow>
        and_then (r, pm\<lparr>pm_registry := reg\<rparr>) (\<lambda>histogram pm1.
          (Ok histogram, pm1\<lparr>pm_histoDict := (pm_histoDict pm1)(name \<mapsto> histogram)\<rparr>)))"

definition pm_GetHistogram :: "string \<Rightarrow> ('m, 'r) PrometheusMonitoring \<Rightarrow> 'm option" where
  "pm_GetHistogram name pm = pm_histoDict pm name"

text \<open>\<open>Start\<close> up to the call that serves; a pattern can be handled only once in a process. \<open>Stop\<close> does not reset \<open>running\<close>.\<close>

definition pm_Start :: "('m, 'r) PrometheusMonitoring \<Rightarrow> unit res \<times> ('m, 'r) PrometheusMonitoring" where
  "pm_Start pm =
     (if pm_running pm then (Ok (), pm)
      else let pm1 = pm\<lparr>pm_httpServer := ('':'' @ itoa (unat (pm_Port pm)), False)\<rparr> in
        if ''/metrics'' \<in> pm_mux pm1 then (Panic, pm1)
        else (Ok (), pm1\<lparr>pm_mux := insert ''/metrics'' (pm_mux pm1), pm_running := True\<rparr>))"

definition pm_Stop :: "('m, 'r) PrometheusMonitoring \<Rightarrow> ('m, 'r) PrometheusMonitoring" where
  "pm_Stop pm = pm\<lparr>pm_httpServer := (fst (pm_httpServer pm), True)\<rparr>"

definition pm_Info :: "('m, 'r) PrometheusMonitoring \<Rightarrow> string" where
  "pm_Info pm = ''Prometheus at '' @ itoa (unat (pm_Port pm))"

definition pm_Timer :: "('m, 'r) PrometheusMonitoring \<Rightarrow> Timer" where
  "pm_Timer pm = pm_timer pm"

text \<open>A service that has been stopped does not start again: \<open>Start\<close> returns at once and the server stays closed.\<close>

lemma pm_no_restart:
  assumes "pm_Start pm = (Ok (), pm1)"
  shows "pm_Start (pm_Stop pm1) = (Ok (), pm_Stop pm1) \<and> snd (pm_httpServer (pm_Stop pm1))"
  using assms by (auto simp: pm_Start_def pm_Stop_def Let_def split: if_splits)

section \<open>The contract of a monitoring service\<close>

text \<open>\<open>MonitoringService\<close>: a metric that was made is found under its kind and name, and making it changes no other.\<close>

datatype metric_kind = KHistogram | KGauge | KCounter

locale monitoring_service =
  fixes new_metric :: "metric_kind \<Rightarrow> string \<Rightarrow> string \<Rightarrow> 's \<Rightarrow> 'm res \<times> 's"
    and get_metric :: "metric_kind \<Rightarrow> string \<Rightarrow> 's \<Rightarrow> 'm option"
  assumes get_new: "new_metric k name descr s = (Ok m, s') \<Longrightarrow>
    get_metric k' name' s' = (if k' = k \<and> name' = name then Some m else get_metric k' name' s)"
    and get_failed: "\<lbrakk>new_metric k name descr s = (r, s'); \<not> is_ok r\<rbrakk> \<Longrightarrow> get_metric k' name' s' = get_metric k' name' s"

text \<open>Making a list of metrics with the errors ignored.\<close>

fun add_metrics ::
  "(metric_kind \<Rightarrow> string \<Rightarrow> string \<Rightarrow> 's \<Rightarrow> 'm res \<times> 's) \<Rightarrow> (metric_kind \<times> string \<times> string) list \<Rightarrow> 's \<Rightarrow> unit res \<times> 's" where
  "add_metrics new [] s = (Ok (), s)"
| "add_metrics new ((k, name, descr) # ms) s =
     (case new k name descr s of
        (Panic, s1) \<Rightarrow> (Panic, s1)
      | (Block, s1) \<Rightarrow> (Block, s1)
      | (_, s1) \<Rightarrow> add_metrics new ms s1)"

context monitoring_service
begin

lemma get_kept:
  assumes "new_metric k name descr s = (r, s')" and "get_metric k' name' s \<noteq> None"
  shows "get_metric k' name' s' \<noteq> None"
  using get_new [of k name descr s _ s' k' name'] get_failed [of k name descr s r s' k' name'] assms by (cases r) auto

lemma add_kept:
  "\<lbrakk>add_metrics new_metric ms s = (r, s'); get_metric k n s \<noteq> None\<rbrakk> \<Longrightarrow> get_metric k n s' \<noteq> None"
proof (induction ms arbitrary: s)
  case (Cons m ms)
  obtain k' n' h where m: "m = (k', n', h)" by (cases m)
  obtain x t where x: "new_metric k' n' h s = (x, t)" by (cases "new_metric k' n' h s")
  from get_kept [OF x Cons.prems(2)] Cons.IH [of t] Cons.prems(1) x m show ?case by (cases x) auto
qed simp

text \<open>After all have been made without an error, every one is there.\<close>

lemma add_registered:
  assumes "add_metrics new_metric ms s = (Ok (), s')" and "\<And>k n h t e. (k, n, h) \<in> set ms \<Longrightarrow> fst (new_metric k n h t) \<noteq> Err e"
    and "(k, n, h) \<in> set ms"
  shows "get_metric k n s' \<noteq> None"
  using assms
proof (induction ms arbitrary: s)
  case (Cons m ms)
  obtain k' n' h' where m: "m = (k', n', h')" by (cases m)
  obtain x t where x: "new_metric k' n' h' s = (x, t)" by (cases "new_metric k' n' h' s")
  have "\<exists>v. x = Ok v" using Cons.prems(1) Cons.prems(2) [of k' n' h' s] x m by (cases x) auto
  then obtain v where v: "x = Ok v" ..
  have rest: "add_metrics new_metric ms t = (Ok (), s')" using Cons.prems(1) x v m by simp
  show ?case
  proof (cases "(k, n, h) \<in> set ms")
    case True
    then show ?thesis using Cons.IH [OF rest] Cons.prems(2) by auto
  next
    case False
    then have "get_metric k n t = Some v" using Cons.prems(3) m get_new [OF x [unfolded v], of k n] by auto
    then show ?thesis using add_kept [OF rest, of k n] by simp
  qed
qed simp

end

section \<open>The metrics of a peer\<close>

definition latencyBucketsMicroSeconds :: "rat list" where
  "latencyBucketsMicroSeconds = [100, 500, 1000, 10000, 100000, 500000, 1000000]"

text \<open>The metrics in the order of \<open>addMonitoringMetrics\<close>.\<close>

definition peer_metrics :: "(metric_kind \<times> string \<times> string) list" where
  "peer_metrics =
     [(KHistogram, ''dht_op_latency_store'', ''Histogram for time to store a key in the DHT''),
      (KHistogram, ''dht_op_latency_lookup'', ''Histogram for time to find a key in the DHT''),
      (KHistogram, ''op_latency_register'', ''Histogram for end-to-end time to register an agent in the acn''),
      (KHistogram, ''op_latency_route'',
         ''Histogram for end-to-end time to route an envelope to its destination, excluding time to send envelope itself''),
      (KGauge, ''op_route_count'', ''Number of ongoing envelope routing requests''),
      (KCounter, ''op_route_count_all'', ''Total number envelope routing requests, successful or not''),
      (KCounter, ''op_route_count_success'', ''Total number envelope routed successfully''),
      (KGauge, ''service_delegate_clients_count'', ''Number of active delagate connections''),
      (KCounter, ''service_delegate_clients_count_all'', ''Number of all delagate clients, connected or disconnected''),
      (KGauge, ''service_relay_clients_count'', ''Number of active relay clients''),
      (KCounter, ''service_relay_clients_count_all'', ''Total number of all relayed clients, connected or disconnected'')]"

definition addMonitoringMetrics ::
  "(metric_kind \<Rightarrow> string \<Rightarrow> string \<Rightarrow> 's \<Rightarrow> 'm res \<times> 's) \<Rightarrow> 's \<Rightarrow> unit res \<times> 's" where
  "addMonitoringMetrics new s = add_metrics new peer_metrics s"

text \<open>The two services; a metric of the file variant is one of three.\<close>

datatype file_metric = MHistogram FileHistogram | MGauge FileGauge | MCounter FileCounter

definition fm_new :: "metric_kind \<Rightarrow> string \<Rightarrow> string \<Rightarrow> FileMonitoring \<Rightarrow> file_metric res \<times> FileMonitoring" where
  "fm_new k name descr fm =
     (case k of
        KHistogram \<Rightarrow> map_prod (Ok \<circ> MHistogram) id (fm_NewHistogram name latencyBucketsMicroSeconds fm)
      | KGauge \<Rightarrow> map_prod (Ok \<circ> MGauge) id (fm_NewGauge name fm)
      | KCounter \<Rightarrow> map_prod (Ok \<circ> MCounter) id (fm_NewCounter name fm))"

definition fm_get :: "metric_kind \<Rightarrow> string \<Rightarrow> FileMonitoring \<Rightarrow> file_metric option" where
  "fm_get k name fm =
     (case k of
        KHistogram \<Rightarrow> map_option MHistogram (fm_GetHistogram name fm)
      | KGauge \<Rightarrow> map_option MGauge (fm_GetGauge name fm)
      | KCounter \<Rightarrow> map_option MCounter (fm_GetCounter name fm))"

definition pm_new ::
  "('m, 'r) prom_lib \<Rightarrow> metric_kind \<Rightarrow> string \<Rightarrow> string \<Rightarrow> ('m, 'r) PrometheusMonitoring \<Rightarrow> 'm res \<times> ('m, 'r) PrometheusMonitoring" where
  "pm_new L k name descr pm =
     (case k of
        KHistogram \<Rightarrow> pm_NewHistogram L name descr latencyBucketsMicroSeconds pm
      | KGauge \<Rightarrow> pm_NewGauge L name descr pm
      | KCounter \<Rightarrow> pm_NewCounter L name descr pm)"

definition pm_get :: "metric_kind \<Rightarrow> string \<Rightarrow> ('m, 'r) PrometheusMonitoring \<Rightarrow> 'm option" where
  "pm_get k name pm =
     (case k of KHistogram \<Rightarrow> pm_GetHistogram name pm | KGauge \<Rightarrow> pm_GetGauge name pm | KCounter \<Rightarrow> pm_GetCounter name pm)"

interpretation file_service: monitoring_service fm_new fm_get
  by unfold_locales
    (auto simp: fm_new_def fm_get_def fm_NewHistogram_def fm_NewGauge_def fm_NewCounter_def fm_GetHistogram_def fm_GetGauge_def
      fm_GetCounter_def Let_def split: metric_kind.splits)

interpretation prometheus_service: monitoring_service "pm_new L" pm_get
proof unfold_locales
  fix k name descr k' name' m r and s s' :: "('a, 'b) PrometheusMonitoring"
  note defs = pm_new_def pm_get_def pm_NewHistogram_def pm_NewGauge_def pm_NewCounter_def pm_GetHistogram_def pm_GetGauge_def
    pm_GetCounter_def
  show "pm_get k' name' s' = (if k' = k \<and> name' = name then Some m else pm_get k' name' s)" if "pm_new L k name descr s = (Ok m, s')"
    using that by (cases k; cases k') (auto simp: defs then_do_def split: prod.splits res.splits)
  show "pm_get k' name' s' = pm_get k' name' s" if "pm_new L k name descr s = (r, s')" "\<not> is_ok r"
    using that by (cases k; cases k'; cases r) (auto simp: defs then_do_def split: prod.splits res.splits)
qed

section \<open>The service of a peer\<close>

definition monitoringNamespace :: string where
  "monitoringNamespace = ''acn''"

datatype ('m, 'r) MonitoringService = FileService FileMonitoring | PrometheusService "('m, 'r) PrometheusMonitoring"

text \<open>\<open>setupMonitoring\<close>, with the working directory, the registry and the patterns of the process.\<close>

definition setupMonitoring ::
  "('m, 'r) prom_lib \<Rightarrow> string \<Rightarrow> 'r \<Rightarrow> string set \<Rightarrow> 16 word \<Rightarrow> unit res \<times> ('m, 'r) MonitoringService" where
  "setupMonitoring L cwd reg mux monitoringPort =
     (if monitoringPort \<noteq> 0
      then map_prod id PrometheusService
        (addMonitoringMetrics (pm_new L) (NewPrometheusMonitoring monitoringNamespace monitoringPort reg mux))
      else map_prod id FileService (addMonitoringMetrics fm_new (NewFileMonitoring cwd monitoringNamespace False)))"

definition service_get :: "metric_kind \<Rightarrow> string \<Rightarrow> ('m, 'r) MonitoringService \<Rightarrow> bool" where
  "service_get k name m =
     (case m of FileService fm \<Rightarrow> fm_get k name fm \<noteq> None | PrometheusService pm \<Rightarrow> pm_get k name pm \<noteq> None)"

lemma pm_new_no_error:
  assumes "\<And>ns n h r e. fst (prom_NewCounter L ns n h r) \<noteq> Err e" and "\<And>ns n h r e. fst (prom_NewGauge L ns n h r) \<noteq> Err e"
    and "\<And>ns n h b r e. fst (prom_NewHistogram L ns n h b r) \<noteq> Err e"
  shows "fst (pm_new L k n h s) \<noteq> Err e"
  using assms(1) [of "pm_Namespace s" n h "pm_registry s" e] assms(2) [of "pm_Namespace s" n h "pm_registry s" e]
    assms(3) [of "pm_Namespace s" n h latencyBucketsMicroSeconds "pm_registry s" e]
  by (cases k) (auto simp: pm_new_def pm_NewCounter_def pm_NewGauge_def pm_NewHistogram_def then_do_def split: prod.splits res.splits)

text \<open>Every metric that the peer asks for by name is there when the set-up returns: none of the unchecked \<open>Get\<close> calls gives nil.
  The constructors of the client library give no error, they panic.\<close>

lemma metrics_registered:
  assumes "setupMonitoring L cwd reg mux p = (Ok (), m)" and "(k, n, h) \<in> set peer_metrics"
    and "\<And>ns n h r e. fst (prom_NewCounter L ns n h r) \<noteq> Err e" and "\<And>ns n h r e. fst (prom_NewGauge L ns n h r) \<noteq> Err e"
    and "\<And>ns n h b r e. fst (prom_NewHistogram L ns n h b r) \<noteq> Err e"
  shows "service_get k n m"
proof (cases "p = 0")
  case True
  obtain r fm where f: "addMonitoringMetrics fm_new (NewFileMonitoring cwd monitoringNamespace False) = (r, fm)"
    by (cases "addMonitoringMetrics fm_new (NewFileMonitoring cwd monitoringNamespace False)")
  have m: "r = Ok ()" "m = FileService fm" using assms(1) True f by (simp_all add: setupMonitoring_def)
  have "fst (fm_new k n h t) \<noteq> Err e" for k n h t e
    by (cases k) (simp_all add: fm_new_def)
  from file_service.add_registered [OF f [unfolded addMonitoringMetrics_def m(1)] this assms(2)] m(2) show ?thesis
    by (simp add: service_get_def)
next
  case False
  obtain r pm where f: "addMonitoringMetrics (pm_new L) (NewPrometheusMonitoring monitoringNamespace p reg mux) = (r, pm)"
    by (cases "addMonitoringMetrics (pm_new L) (NewPrometheusMonitoring monitoringNamespace p reg mux)")
  have m: "r = Ok ()" "m = PrometheusService pm" using assms(1) False f by (simp_all add: setupMonitoring_def)
  from prometheus_service.add_registered [OF f [unfolded addMonitoringMetrics_def m(1)] pm_new_no_error [OF assms(3-5)] assms(2)] m(2)
  show ?thesis by (simp add: service_get_def)
qed

text \<open>The file variant never fails.\<close>

lemma file_metrics_Ok: "fst (add_metrics fm_new ms fm) = Ok ()"
proof (induction ms arbitrary: fm)
  case (Cons m ms)
  obtain k n h where m: "m = (k, n, h)" by (cases m)
  show ?case using Cons by (cases k) (simp_all add: m fm_new_def case_prod_unfold)
qed simp

section \<open>The file of the statistics\<close>

text \<open>After a turn whose calls succeed the file holds the current metrics and nothing else, whatever it held before.\<close>

lemma stats_turn_current:
  assumes "fa_Truncate a = None" and "fa_Seek a = None" and "fa_Write a = None"
  shows "sf_text (file_WriteString a (getStats fmt gs cs fm) (file_Seek a (file_Truncate a f))) = getStats fmt gs cs fm"
  using assms by (simp add: file_WriteString_def file_Seek_def file_Truncate_def Let_def)

lemma stats_file_current:
  assumes "fa_Truncate a = None" and "fa_Seek a = None" and "fa_Write a = None"
  shows "\<exists>f'. fm_write_loop fmt (map Some ts @ [Some (a, gs, cs, fm), None]) (Some f) = (Ok (), Some f')
    \<and> sf_text f' = getStats fmt gs cs fm"
proof (induction ts arbitrary: f)
  case Nil
  then show ?case using stats_turn_current [OF assms] by simp
next
  case (Cons t ts)
  then show ?case by (cases t) simp
qed

section \<open>Histograms\<close>

text \<open>A histogram as what it counts.\<close>

definition tally :: "rat list \<Rightarrow> rat list \<Rightarrow> 64 word list" where
  "tally buckets vs = map (\<lambda>b. of_nat (length (filter (\<lambda>v. v \<le> b) vs))) buckets @ [of_nat (length vs)]"

lemma observe_loop_step:
  "length cs = length bs \<Longrightarrow> observe_loop v (length xs) bs (xs @ cs @ [c])
    = Some (xs @ map2 (\<lambda>b k. if v \<le> b then k + 1 else k) bs cs @ [c + 1])"
proof (induction bs arbitrary: xs cs)
  case (Cons b bs)
  then obtain k ks where cs: "cs = k # ks" "length ks = length bs" by (cases cs) auto
  have "observe_loop v (length (xs @ [w])) bs ((xs @ [w]) @ ks @ [c])
      = Some ((xs @ [w]) @ map2 (\<lambda>b k. if v \<le> b then k + 1 else k) bs ks @ [c + 1])" for w
    by (rule Cons.IH [OF cs(2)])
  then show ?case using cs(1) by simp
qed simp

lemma tally_Observe:
  assumes "fh_buckets h = bs" and "fh_counts h = tally bs vs"
  shows "fh_Observe v h = (Ok (), h\<lparr>fh_counts := tally bs (vs @ [v])\<rparr>)"
proof -
  have "map2 (\<lambda>b k. if v \<le> b then k + 1 else k) bs (map (\<lambda>b. of_nat (length (filter (\<lambda>v. v \<le> b) vs))) bs)
      = map (\<lambda>b. of_nat (length (filter (\<lambda>v. v \<le> b) (vs @ [v]))) :: 64 word) bs" for bs
    by (induction bs) (simp_all add: add.commute)
  then show ?thesis
    using assms observe_loop_step [of _ bs v "[]"] by (simp add: fh_Observe_def tally_def add.commute)
qed

text \<open>Observing a list of values, one after the other.\<close>

fun observe_all :: "rat list \<Rightarrow> FileHistogram \<Rightarrow> unit res \<times> FileHistogram" where
  "observe_all [] h = (Ok (), h)"
| "observe_all (v # vs) h = and_then (fh_Observe v h) (\<lambda>_ h1. observe_all vs h1)"

lemma observe_all_tally:
  "\<lbrakk>fh_buckets h = bs; fh_counts h = tally bs us\<rbrakk> \<Longrightarrow> observe_all vs h = (Ok (), h\<lparr>fh_counts := tally bs (us @ vs)\<rparr>)"
  by (induction vs arbitrary: us h) (simp_all add: tally_Observe)

text \<open>A histogram made with \<open>NewHistogram\<close> never panics, and after any observations it holds for every bucket the
  number of values up to the bucket's bound and at the end the number of all values, modulo \<open>2 ^ 64\<close>.\<close>

lemma histogram_counts:
  "observe_all vs (fst (fm_NewHistogram name buckets fm)) =
    (Ok (), \<lparr>fh_buckets = buckets,
       fh_counts = map (\<lambda>b. of_nat (length (filter (\<lambda>v. v \<le> b) vs))) buckets @ [of_nat (length vs)]\<rparr>)"
proof -
  have "tally buckets [] = replicate (length buckets + 1) 0"
    by (simp add: tally_def map_replicate_const replicate_append_same)
  then show ?thesis
    using observe_all_tally [of "fst (fm_NewHistogram name buckets fm)" buckets "[]" vs]
    by (simp add: fm_NewHistogram_def Let_def tally_def)
qed

end
