(* ===== verification/Spec2Isabelle.thy ===== *)
theory Spec2Isabelle
  imports AgentSys Delivery Directory PeerTypes ClientLife Monitoring
begin

text \<open>
  \<^bold>\<open>The Agent Communication Network node\<close> (package \<open>libp2p_node\<close>).

  A node connects one agent, over a local socket, with a peer-to-peer network in which agents are
  found by their ledger address. A node with a public address is a \<open>DHTPeer\<close>: it announces the
  addresses of its agents in a Kademlia DHT, looks other addresses up, delivers envelopes over libp2p
  streams, and serves agents that have no node of their own: relay clients (nodes without a public
  address), delegate clients (TLS connections) and mailbox clients (HTTP). A node without a public
  address is a \<open>DHTClient\<close>, which reaches everything through a relay. An agent's address is bound to the
  node that speaks for it by a \<^emph>\<open>proof of representation\<close>: a record in which the agent's key signs the
  node's key.

  \<^bold>\<open>Theories, bottom up\<close>

  \<^item> \<open>Prelude\<close>: outcomes of a Go call (\<open>Ok\<close>, \<open>Err\<close>, \<open>Panic\<close>, \<open>Block\<close>), error values, shared lemmas.
  \<^item> \<open>Go_Std\<close>, \<open>Go_Asn1\<close>, \<open>Go_Chan\<close>: what the source uses of Go's library: big-endian words, hexadecimal,
    decimal and base64 text, \<open>strings.Split\<close>, DER of two integers, channels. \<open>Go_Chan\<close> has the contract
    \<open>bounded_queue\<close>, of which channels, mailboxes and the per-pair queues of a peer are instances, and the contracts
    \<open>queue_turns\<close> and \<open>queue_worker\<close> of a goroutine that empties a queue: the forwarding loop of the node, the slow loop and
    the loop of a pair are instances, so that each of them is the run of its job on the queued envelopes.
  \<^item> \<open>Framing\<close> (\<open>src/utils/utils.go\<close>, \<open>src/aea/pipe.go\<close>): connections, streams, sockets and their
    length-prefixed frames; the contract \<open>framed_pipe\<close> for the three of them.
  \<^item> \<open>AcnTypes\<close>, \<open>Acn\<close> (\<open>src/acn/utils.go\<close>): messages of the protocol and the exchanges over any pipe.
  \<^item> \<open>Ledger\<close> (\<open>src/utils/utils.go\<close>): keys, signatures and addresses of the three ledgers.
  \<^item> \<open>DhtNode\<close> (\<open>src/dht/dhtnode\<close>): the check of a proof of representation.
  \<^item> \<open>Aea\<close> (\<open>src/aea\<close>): configuration, the agent's queues, the listening and the sending loop; the contract
    \<open>draining_pipe\<close> makes reading loops terminate.
  \<^item> \<open>AgentSys\<close> (\<open>src/aea/api.go\<close>): the two loops cut where a goroutine may wait, and all interleavings of the pieces with
    the callbacks, the reader of the queue and the agent, who may break the connection at any byte.
  \<^item> \<open>Mailbox\<close> (\<open>src/dht/dhtpeer/mailbox.go\<close>): the HTTP handlers, and the server as a transition system
    whose registrations are \<open>apiRegister\<close> with the check of the proof.
  \<^item> \<open>Handlers\<close> (\<open>src/dht/common/handlers.go\<close>): the stream handlers that peers and clients share, with the
    contract \<open>dht_handler\<close> they rely on.
  \<^item> \<open>DhtPeer\<close>, \<open>DhtPeerRoute\<close>, \<open>DhtPeerServe\<close> (\<open>src/dht/dhtpeer/dhtpeer.go\<close>): the peer's state,
    announcements and store; lookup and routing; what it does for others, and closing. The loops are functions of
    their single turns.
  \<^item> \<open>Delivery\<close>: from the connection of a delegate client through the loop of its pair to a mailbox client.
  \<^item> \<open>PeerLife\<close> (\<open>src/dht/dhtpeer/options.go\<close>, \<open>New\<close> of \<open>dhtpeer.go\<close>, \<open>src/dht/dhtpeer/utils.go\<close>): options,
    construction with the certificate and the services, the delegate listener, the routes of the mailbox server, and
    everything that may happen to a peer as the step relation \<open>peer_step\<close>: whole handlers, and the critical sections of those
    that take locks more than once (\<open>peer_section\<close>), so that sections of different goroutines interleave; \<open>peer_reachable\<close> also stops a peer and starts
    it again on its store.
  \<^item> \<open>Directory\<close>: what a peer promises those who register, as an abstract machine of a few lines (entries, a journal
    of proven records, the records of the mailboxes; a relay registration enters and journals in two steps), and the
    refinement of it by the peer.
  \<^item> \<open>PeerTypes\<close>: the well-formedness of a peer's state (capacities, bounds, which addresses have a
    record), between any two critical sections.
  \<^item> \<open>DhtClient\<close> (\<open>src/dht/dhtclient/dhtclient.go\<close>): the client: set-up, loops, routing, handlers,
    reconnection. Every stream that was opened is logged, also one whose new registration failed.
  \<^item> \<open>ClientLife\<close>: construction and everything that may happen to a client as the step relation \<open>client_step\<close>,
    and runs of it from the options on.
  \<^item> \<open>Network\<close>: two nodes at the two ends of their streams.
  \<^item> \<open>Node\<close> (\<open>src/libp2p_node.go\<close>, \<open>src/dht/dhtclient/options.go\<close>): the main program, from the environment to the
    running node, its forwarding loop and its end; the contract \<open>dht_node\<close>, which peers and clients keep.
  \<^item> \<open>Monitoring\<close> (\<open>src/dht/monitoring\<close>): metrics on file with the text of the statistics and its writing loop, metrics in
    prometheus, timers; the contract \<open>monitoring_service\<close>, which both keep, and what a peer makes of it.

  \<^bold>\<open>How code becomes definitions\<close>

  An operation is a function of its arguments and the state it works on, returning an outcome and the
  new state; \<open>Panic\<close> is a Go panic (a nil dereference, an index out of range, a send on a closed
  channel), \<open>Block\<close> a call that waits for something that does not come in the modelled input. A struct is
  a record with the source's field names where these are free. Protobuf (generated code) is the record
  \<open>codec\<close>, elliptic curves, hashes and peer identities (libraries) are the record \<open>crypto\<close>; both are
  arguments, and what is relied on is a named hypothesis (\<open>codec_ok\<close>: what is marshalled is unmarshalled
  again). What the network, the Kademlia library, the clock and the operating system answer is a script
  in the state, consumed in the order of the calls; a script that has run out answers as a timeout does.
  Goroutines are functions; where handlers interleave in a way a claim depends on, there is a step
  relation (\<open>mb_step\<close>, \<open>agent_sys_step\<close>, \<open>peer_step\<close>, \<open>client_step\<close>). Loops that read terminate by what is left to read; retry loops run once per
  answer before the deadline; the two loops of the client that never return after their deadline are
  partial functions, \<open>None\<close> for divergence.

  \<^bold>\<open>What the lemmas show\<close>

  Frames survive any splitting on streams, and do not on plain connections; exchanges return what the
  other side sent; the proof check is sound and complete for its specification \<open>valid_proof\<close>; no state
  of a peer changes without a proof valid for the key of the remote peer, or, where that key cannot be converted,
  for the empty key: the handlers ignore the error and go on with it (\<open>remote_key\<close>); lookups only return proven peers; queues are first in, first
  out within their bounds; the store of records can be read back. In every reachable state of a peer,
  over all its lives, every record it holds or stores is proven, its state is well-formed, and what it has stored it
  still knows after any number of restarts: the peer refines the abstract directory. A client keeps its identity, its
  record and its relay over a run. In every interleaving on the agent's socket what is written is whole frames in order, as far as the socket
  takes them, and what is not acknowledged is not accepted. Across components:
  a started node accepts what its own agent sends and forwards it in order; an envelope goes from agent
  to agent through two nodes, through a relay to a client, and from a delegate client to a mailbox client.
  A deferred envelope is tried exactly once more.
  The deviations that the model shows (lost acknowledgements, leaking gauges, dangling sessions, deadlines
  without effect, a panic after the agent has left) are theorems too.

  \<^bold>\<open>Not modelled\<close>

  Logging and the notifications that only log (\<open>src/dht/dhtpeer/notifee.go\<close>), when latencies are observed, protobuf code,
  test support (\<open>src/mocks\<close>, \<open>src/dht/dhttests\<close>), libp2p and its options, TLS and HTTP beneath the handlers. Durations are
  not numbers: a timeout is the end of a script of answers. Locks are taken as what they are for: each critical
  section is one step. A write to the store appends a whole frame or nothing: a partial write, of which the code does not
  look at the length, is left out. The handlers that \<open>New\<close> installs before it has opened the store, and the mailbox handlers
  before \<open>start\<close> has run, run in the model only afterwards.
\<close>

section \<open>From agent to agent\<close>

text \<open>C4: Two nodes and their agents. The agent of \<open>a\<close> writes an envelope to its node; the listening loop, one turn of
  the forwarding loop, the two stream handlers of \<open>b\<close> and one turn of the sending loop of \<open>b\<close> run, where \<open>b\<close> hears what
  \<open>a\<close> writes and \<open>a\<close> hears what \<open>b\<close> answers, in whatever pieces. Then the sender is told success, routing succeeds
  after one lookup and one delivery with exactly the bytes that \<open>b\<close> was assumed to hear, and the agent of \<open>b\<close> is
  written the envelope.\<close>

theorem agent_to_agent_delivery:
  assumes "codec_ok C"
    and "agent_connected (agent a) ca ra [m0]" and "carries C (AeaEnvelope \<lparr>ape_Envelope = eb, ape_Record = None\<rparr>) m0"
    and "env_Marshal C e = Inr eb" and "Sender e = Address ra" and "carries C (Status (Some \<lparr>Code = SUCCESS, Msgs = []\<rparr>)) ok"
    and "listenForEnvelopes C (agent a) = (x0, ga)" and "forward_turn C K (PeerNode (a\<lparr>agent := ga\<rparr>)) = (y0, n)"
    and "mailboxServer a = None" and "myAgentAddress (cfg a) = Address ra" and "To e \<noteq> Address ra"
    and "tcpAddresses a (To e) = None" and "dhtAddresses a (To e) = None" and "myAgentRecord (cfg a) = Some ra"
    and "w_FindProviders (net a) = (p # ps) # qs" and "w_NewStream (net a) = Inr a1 # Inr a2 # rest"
    and "wcap a1 = None" and "tx a1 = []" and "wcap a2 = None" and "tx a2 = []" and "ComputeCID K (To e) = Inr cid"
    and "peer_inv b" and "mailboxServer b = None" and "tcpAddresses b (To e) = None" and "To e = myAgentAddress (cfg b)"
    and "processEnvelope b = Some put_envelope" and "myAgentRecord (cfg b) = Some rb"
    and "IDFromPublicKey K (peer_publicKey (cfg b)) = Inr ib"
    and "\<not> standalone (agent b)" and "send_queue (agent b) = Some qb" and "chan_buf qb = []" and "\<not> chan_closed qb" and "0 < chan_cap qb"
    and "aea_pipe (agent b) = Some sb" and "sock_conn sb = Some cb" and "wcap cb = None" and "acn_status_chan (agent b) = Some sc"
    and "wcap b1 = None" and "tx b1 = []" and "wcap b2 = None" and "tx b2 = []"
    and "valid_proof K rb (To e) (PeerPublicKey rb)" and "IDFromFetchAIPublicKey K (PeerPublicKey rb) = Inr pid"
    and "valid_proof K ra (Address ra) (remote_key K b2)"
    and "carries C (LookupRequest (To e)) rq" and "carries C (LookupResponse (Some rb)) rs"
    and "carries C (AeaEnvelope \<lparr>ape_Envelope = eb, ape_Record = Some ra\<rparr>) m"
    and "concat (rx b1) = frame rq" and "handleAeaAddressStream C K b1 b = (x1, b1', b')" and "concat (rx a1) = tx b1'"
    and "concat (rx b2) = frame m" and "handleAeaEnvelopeStream C K b2 b' = (x2, b2', b'')" and "concat (rx a2) = tx b2'"
    and "send_step C arrivals (agent b'') = (y3, gb)"
  shows "agent_tx ga = tx ca @ frame ok \<and> agent_tx gb = tx cb @ frame m0
    \<and> (\<exists>a1' a2' a'. y0 = Ok True \<and> n = PeerNode a'
        \<and> w_used (net a') = w_used (net a) @ [(p, AeaAddressStream, a1'), (pid, AeaEnvelopeStream, a2')]
        \<and> tx a1' = concat (rx b1) \<and> tx a2' = concat (rx b2))"
proof -
  have ok: "success_message C ok" using assms(6) by (simp add: success_message_def)
  have "envelope_message C e m0"
    using assms(3) codec_env [OF assms(1,4)] by (auto simp: envelope_message_def intro!: exI [of _ "\<lparr>ape_Envelope = eb, ape_Record = None\<rparr>"])
  then have "list_all2 (envelope_message C) [e] [m0]" by simp
  from agent_listens [OF assms(1) ok this assms(2)] assms(5,7)
  have ga: "agent_queue ga = [Some e]" "agent_tx ga = tx ca @ frame ok" by simp_all
  then obtain q where q: "out_queue ga = Some q" "chan_buf q = [Some e]" by (auto simp: agent_queue_def split: option.splits)
  let ?a = "a\<lparr>agent := ga\<lparr>out_queue := Some (q\<lparr>chan_buf := []\<rparr>)\<rparr>\<rparr>"
  let ?g = "(agent b)\<lparr>send_queue := Some (qb\<lparr>chan_buf := [Some e]\<rparr>)\<rparr>"
  have put: "put_envelope e (agent b) = (Ok (), ?g)"
    using assms(29-33) by (simp add: put_envelope_def Put_def chan_send_def)
  obtain a1' a2' a' where r: "RouteEnvelope C K e ?a = (Ok (), a')" "agent b'' = ?g"
      "w_used (net a') = w_used (net a) @ [(p, AeaAddressStream, a1'), (pid, AeaEnvelopeStream, a2')]"
      "tx a1' = concat (rx b1)" "tx a2' = concat (rx b2)"
    using peer_to_peer [where a = ?a and p = p and rest = rest, OF assms(1) _ _ _ _ _ _ _ _ assms(17-26) put assms(27,28,38-46,4,47,6,48-53)]
      assms(5,9-16) by auto
  have "y0 = Ok True \<and> n = PeerNode a'" using assms(8) q r(1) by (simp add: forward_turn_def)
  moreover obtain ch' where "send_step C arrivals ?g = (Ok (\<not> aea_closing ?g), ?g\<lparr>send_queue := Some (qb\<lparr>chan_buf := []\<rparr>),
      aea_pipe := Some (sb\<lparr>sock_conn := Some (cb\<lparr>tx := tx cb @ frame m0\<rparr>)\<rparr>), acn_status_chan := ch'\<rparr>)"
    using send_step_envelope [OF assms(1,4,3), of ?g "qb\<lparr>chan_buf := [Some e]\<rparr>" "[]" sb cb sc arrivals] assms(34-37) by auto
  then have "agent_tx gb = tx cb @ frame m0" using assms(54) r(2) by (auto simp: agent_tx_def)
  ultimately show ?thesis using ga(2) r(3-5) by blast
qed

text \<open>The example node and a second one, whose agent has written nothing yet.\<close>

definition ex_far_agent :: AeaApi where
  "ex_far_agent = AeaApi_zero\<lparr>send_queue := Some (make_chan SendQueueSize), acn_status_chan := Some (make_chan 1000),
     aea_pipe := Some \<lparr>sock_port = 0, sock_conn = Some (ex_agent_socket []), sock_dial = Inl EOF\<rparr>\<rparr>"

definition ex_far_node :: "AeaApi DHTPeer" where
  "ex_far_node = (ex_node_peer ex_far_agent)\<lparr>cfg := ex_cfg\<lparr>peer_key := Some 2, peer_publicKey := (0, 2),
     myAgentAddress := ''cosmosB'', myAgentRecord := Some (ex_record 66 2)\<rparr>\<rparr>"

definition ex_near_node :: "AeaApi \<Rightarrow> AeaApi DHTPeer" where
  "ex_near_node g = (ex_node_peer g)\<lparr>net := ex_net [Inr (ex_stream [frame [2]] 2), Inr (ex_stream [frame [4]] 2)] [[''x'']]\<rparr>"

lemma ex_far_node_simps:
  "peer_inv ex_far_node" "mailboxServer ex_far_node = None" "tcpAddresses ex_far_node = Map.empty"
  "myAgentAddress (cfg ex_far_node) = ''cosmosB''" "myAgentRecord (cfg ex_far_node) = Some (ex_record 66 2)"
  "processEnvelope ex_far_node = Some put_envelope" "agent ex_far_node = ex_far_agent" "peer_publicKey (cfg ex_far_node) = (0, 2)"
  by (simp_all add: ex_far_node_def ex_node_peer_def fresh_peer_def peer_inv_def)

lemma ex_far_agent_simps:
  "\<not> standalone ex_far_agent" "send_queue ex_far_agent = Some (make_chan SendQueueSize)"
  "aea_pipe ex_far_agent = Some \<lparr>sock_port = 0, sock_conn = Some (ex_agent_socket []), sock_dial = Inl EOF\<rparr>"
  "acn_status_chan ex_far_agent = Some (make_chan 1000)"
  by (simp_all add: ex_far_agent_def AeaApi_zero_def)

lemma ex_near_node_simps:
  "mailboxServer (ex_near_node g) = None" "cfg (ex_near_node g) = ex_cfg" "tcpAddresses (ex_near_node g) = Map.empty"
  "dhtAddresses (ex_near_node g) = Map.empty" "agent (ex_near_node g) = g"
  "net (ex_near_node g) = ex_net [Inr (ex_stream [frame [2]] 2), Inr (ex_stream [frame [4]] 2)] [[''x'']]"
  by (simp_all add: ex_near_node_def ex_node_peer_def fresh_peer_def)

lemma agent_to_agent_delivery_witness:
  "\<exists>g ga n b1' b' b2' b'' y gb. Connect ex_node_api = (Ok (), g) \<and> listenForEnvelopes ex_node_codec g = (Block, ga)
    \<and> forward_turn ex_node_codec ex_crypto (PeerNode ((ex_near_node g)\<lparr>agent := ga\<rparr>)) = (Ok True, n)
    \<and> handleAeaAddressStream ex_node_codec ex_crypto (ex_stream [frame [1]] 7) ex_far_node = (Ok (), b1', b')
    \<and> handleAeaEnvelopeStream ex_node_codec ex_crypto (ex_stream [frame [3]] 7) b' = (Ok (), b2', b'')
    \<and> send_step ex_node_codec [] (agent b'') = (y, gb) \<and> agent_tx ga = frame [4] \<and> agent_tx gb = frame [6]"
proof -
  let ?e = "ex_env ''cosmosB'' ''cosmosA''"
  note m = ex_node_messages and c = ex_node_codec_ok and r = ex_far_node_simps and f = ex_far_agent_simps
  obtain g where g: "Connect ex_node_api = (Ok (), g)" using ex_node_started by blast
  have ok: "success_message ex_node_codec [4]" using m(4) by (simp add: success_message_def)
  have "list_all2 (envelope_message ex_node_codec) [?e] [[6]]" using ex_node_envelope by simp
  from agent_listens [OF c ok this ex_node_connected(1) [OF g]] obtain ga where
      ga: "listenForEnvelopes ex_node_codec g = (Block, ga)" by blast
  obtain y0 n where n: "forward_turn ex_node_codec ex_crypto (PeerNode ((ex_near_node g)\<lparr>agent := ga\<rparr>)) = (y0, n)" by fastforce
  have "handle_address (peer_handler ex_node_codec ex_crypto) ''cosmosB'' ex_far_node = (Ok (Some (ex_record 66 2)), ex_far_node)"
    by (simp add: peer_handler_def HandleAeaAddressRequest_def r)
  from peer.address_stream_found [OF c _ m(1) _ this m(2), of "ex_stream [frame [1]] 7" "[]"]
  obtain b1' where b1: "handleAeaAddressStream ex_node_codec ex_crypto (ex_stream [frame [1]] 7) ex_far_node = (Ok (), b1', ex_far_node)"
      "tx b1' = frame [2]"
    by (auto simp: handleAeaAddressStream_def)
  let ?g = "ex_far_agent\<lparr>send_queue := Some ((make_chan SendQueueSize)\<lparr>chan_buf := [Some ?e]\<rparr>)\<rparr>"
  have put: "put_envelope ?e (agent ex_far_node) = (Ok (), ?g)"
    unfolding r(7) by (simp add: put_envelope_def Put_def chan_send_def f make_chan_def SendQueueSize_def)
  have v: "valid_proof ex_crypto (ex_record 65 7) (Address (ex_record 65 7)) (remote_key ex_crypto (ex_stream [frame [3]] 7))"
    using ex_valid [of 65 7] by simp
  from envelope_stream_to_agent [OF c r(1) _ m(3) _ codec_env [OF c m(6)] v m(4) r(2) _ _ r(6) put, of "[]"] r(3,4)
  obtain b2' where b2: "handleAeaEnvelopeStream ex_node_codec ex_crypto (ex_stream [frame [3]] 7) ex_far_node
      = (Ok (), b2', ex_far_node\<lparr>agent := ?g\<rparr>)" "tx b2' = frame [4]"
    by auto
  obtain y gb where gb: "send_step ex_node_codec [] (agent (ex_far_node\<lparr>agent := ?g\<rparr>)) = (y, gb)" by fastforce
  have w: "valid_proof ex_crypto (ex_record 66 2) (To ?e) (PeerPublicKey (ex_record 66 2))" using ex_valid [of 66 2] by simp
  have con: "agent_connected (agent (ex_near_node g)) (ex_agent_socket [frame [6]]) (ex_record 65 7) [[6]]"
      "listenForEnvelopes ex_node_codec (agent (ex_near_node g)) = (Block, ga)"
    using ex_node_connected(1) [OF g] ga by (simp_all add: ex_near_node_simps)
  note d = agent_to_agent_delivery [where e = ?e and p = "''x''" and ps = "[]" and qs = "[]" and rest = "[]" and cid = "to_bytes ''cosmosB''"
      and ib = "replicate 2 CHR ''p''" and pid = "replicate 2 CHR ''p''" and ?a1.0 = "ex_stream [frame [2]] 2"
      and ?a2.0 = "ex_stream [frame [4]] 2" and cb = "ex_agent_socket []" and rb = "ex_record 66 2" and rq = "[1]" and rs = "[2]" and m = "[3]"
      and b1' = b1' and b2' = b2',
      OF c con(1) m(5,6) _ m(4) con(2) n _ _ _ _ _ _ _ _ _ _ _ _ _ r(1,2) _ _ r(6,5) _ _ _ _ _ _ _ _ _ _ _ _ _ _ w _ v _ _ m(3) _ b1(1) _ _ b2(1) _ gb]
  have "agent_tx ga = tx (ex_agent_socket [frame [6]]) @ frame [4] \<and> agent_tx gb = tx (ex_agent_socket []) @ frame [6] \<and> y0 = Ok True"
    using d m(1,2) b1(2) b2(2)
    by (auto simp: r f ex_near_node_simps ComputeCID_def ex_peer make_chan_def SendQueueSize_def ex_agent_socket_def)
  with g ga n b1(1) b2(1) gb show ?thesis by (auto simp: ex_agent_socket_def)
qed

section \<open>Through a relay\<close>

text \<open>C13: A client registers with a relay that hears it, and the relay's answer is heard by the client: the client's
  registration succeeds, it wrote what the relay heard, and the relay is left with the record. Afterwards an
  envelope from the relay's own agent to the client's agent goes to the client's peer on one new stream, and
  the client that hears it hands it to its agent; the relay reports success.\<close>

theorem relayed_delivery:
  assumes "codec_ok C"
    and "client_inv c" and "cl_myAgentRecord c = Some r" and "cw_NewStream (cl_net c) = Inr (Some c1) # cs"
    and "wcap c1 = None" and "tx c1 = []" and "cl_processEnvelope c = Some f" and "f e (cl_agent c) = (Ok (), g)"
    and "carries C (Register (Some r)) rg" and "carries C (Status (Some \<lparr>Code = SUCCESS, Msgs = []\<rparr>)) ok"
    and "wcap b1 = None" and "tx b1 = []" and "valid_proof K r (Address r) (remote_key K b1)"
    and "concat (rx b1) = frame rg" and "handleAeaRegisterStream C K b1 b = (x1, b1', b')" and "concat (rx c1) = tx b1'"
    and "mailboxServer b = None" and "Sender e = myAgentAddress (cfg b)" and "To e = Address r"
    and "Address r \<noteq> myAgentAddress (cfg b)" and "tcpAddresses b (Address r) = None" and "myAgentRecord (cfg b) = Some rb"
    and "peer_Decode K (peer_String K (remotePeer b1)) = Inr (remotePeer b1)"
    and "w_NewStream (net b) = Inr b2 # rest" and "wcap b2 = None" and "tx b2 = []"
    and "env_Marshal C e = Inr eb" and "carries C (AeaEnvelope \<lparr>ape_Envelope = eb, ape_Record = Some rb\<rparr>) m"
    and "wcap c2 = None" and "tx c2 = []" and "valid_proof K rb (Address rb) (remote_key K c2)"
    and "cl_registerAgentAddress C c = (x2, c')"
    and "concat (rx c2) = frame m" and "cl_handleAeaEnvelopeStream C K c2 c' = (x3, c2', c'')" and "concat (rx b2) = tx c2'"
  shows "x2 = Ok () \<and> peerRecords b' (Address r) = Some r \<and> cl_agent c'' = g
    \<and> (\<exists>c1'. cw_used (cl_net c') = cw_used (cl_net c) @ [(relayPeer c, AeaRegisterRelayStream, c1')] \<and> tx c1' = concat (rx b1))
    \<and> (\<exists>b2' b''. RouteEnvelope C K e b' = (Ok (), b'') \<and> tx b2' = concat (rx c2)
        \<and> w_used (net b'') = w_used (net b) @ [(remotePeer b1, AeaEnvelopeStream, b2')])"
proof -
  have ok: "success_message C ok" using assms(10) by (simp add: success_message_def)
  have "concat (rx b1) = frame rg @ []" using assms(14) by simp
  from register_stream_complete [OF assms(1,9) this assms(11) ok assms(13), of b]
  have b': "tx b1' = frame ok" "peerRecords b' (Address r) = Some r"
      "dhtAddresses b' (Address r) = Some (peer_String K (remotePeer b1))"
    using assms(12,15) by auto
  have keep: "cfg b' = cfg b" "mailboxServer b' = None" "tcpAddresses b' = tcpAddresses b"
      "w_NewStream (net b') = Inr b2 # rest" "w_used (net b') = w_used (net b)"
    using register_stream_frame [OF assms(15)] assms(17,24) by (simp_all add: register_frame_def)
  have heard: "concat (rx c1) = frame ok @ []" using assms(16) b'(1) by simp
  obtain c1' where c': "x2 = Ok ()" "c' = cl_log (relayPeer c) AeaRegisterRelayStream c1' (asked 1 c)" "tx c1' = frame rg"
    using cl_register_exchange [OF assms(1,4,5) _ assms(10) heard, of rg] assms(3,6,9,32) by auto
  have fields: "client_inv c'" "cl_processEnvelope c' = Some f" "cl_agent c' = cl_agent c" "To e = cl_myAgentAddress c'"
      "cw_used (cl_net c') = cw_used (cl_net c) @ [(relayPeer c, AeaRegisterRelayStream, c1')]"
    using assms(2,3,7,19) c'(2) by (auto simp: cl_log_def client_inv_def)
  have "concat (rx c2) = frame m @ []" using assms(33) by simp
  from cl_envelope_stream_to_agent [OF assms(1) fields(1) assms(29,28) this codec_env [OF assms(1,27)] assms(31,10) fields(4,2)]
  have c'': "cl_agent c'' = g" "tx c2' = frame ok" using assms(8,30,34) fields(3) by auto
  have "concat (rx b2) = frame ok @ []" using assms(35) c''(2) by simp
  from RouteEnvelope_relay [OF assms(1) keep(2) _ _ _ _ assms(23) keep(4) assms(25,27) _ assms(10) this, of m]
  show ?thesis
    using assms(14,18-22,26,28,33) b'(2,3) c'(1,3) c''(1) fields(5) keep by auto
qed

definition ex_receiver :: "Envelope list DHTPeer" where
  "ex_receiver = (ex_peer_state (ex_net [] []))\<lparr>cfg := ex_cfg\<lparr>peer_key := Some 2, peer_publicKey := (0, 2),
     myAgentAddress := ''cosmosB'', myAgentRecord := Some (ex_record 66 2)\<rparr>\<rparr>"

lemma ex_receiver_simps:
  "peer_inv ex_receiver" "mailboxServer ex_receiver = None" "tcpAddresses ex_receiver = Map.empty"
  "myAgentAddress (cfg ex_receiver) = ''cosmosB''" "myAgentRecord (cfg ex_receiver) = Some (ex_record 66 2)"
  "processEnvelope ex_receiver = Some (\<lambda>e g. (Ok (), g @ [e]))" "agent ex_receiver = []"
  "peer_publicKey (cfg ex_receiver) = (0, 2)"
  by (simp_all add: ex_receiver_def peer_inv_def)

definition ex_relay_codec :: codec where
  "ex_relay_codec =
     table_codec
       [(Register (Some (ex_record 65 7)), [6]), (Status (Some \<lparr>Code = SUCCESS, Msgs = []\<rparr>), [4]),
        (AeaEnvelope \<lparr>ape_Envelope = [5], ape_Record = Some (ex_record 66 2)\<rparr>, [3])]
       [(ex_env ''cosmosA'' ''cosmosB'', [5])] []"

definition ex_relay :: "Envelope list DHTPeer" where
  "ex_relay = ex_receiver\<lparr>net := ex_net [Inr (ex_stream [frame [4]] 7)] []\<rparr>"

lemma ex_relay_codec_ok: "codec_ok ex_relay_codec"
  unfolding ex_relay_codec_def by (intro codec_ok_table) simp_all

lemma ex_relay_messages:
  "carries ex_relay_codec (Register (Some (ex_record 65 7))) [6]"
  "carries ex_relay_codec (Status (Some \<lparr>Code = SUCCESS, Msgs = []\<rparr>)) [4]"
  "carries ex_relay_codec (AeaEnvelope \<lparr>ape_Envelope = [5], ape_Record = Some (ex_record 66 2)\<rparr>) [3]"
  "env_Marshal ex_relay_codec (ex_env ''cosmosA'' ''cosmosB'') = Inr [5]"
  by (simp_all add: carries_def ex_relay_codec_def table_codec_def maxMessageSizeDelegateConnection_def)

lemma ex_relay_simps:
  "mailboxServer ex_relay = None" "tcpAddresses ex_relay = Map.empty" "myAgentAddress (cfg ex_relay) = ''cosmosB''"
  "myAgentRecord (cfg ex_relay) = Some (ex_record 66 2)" "w_NewStream (net ex_relay) = [Inr (ex_stream [frame [4]] 7)]"
  by (simp_all add: ex_relay_def ex_receiver_simps ex_net_def)

lemma relayed_delivery_witness:
  "\<exists>b1' b' c' c2' c''. handleAeaRegisterStream ex_relay_codec ex_crypto (ex_stream [frame [6]] 7) ex_relay = (Ok (), b1', b')
    \<and> cl_registerAgentAddress ex_relay_codec (ex_client [Inr (Some (ex_client_stream [frame [4]]))] []) = (Ok (), c')
    \<and> cl_handleAeaEnvelopeStream ex_relay_codec ex_crypto (ex_stream [frame [3]] 2) c' = (Ok (), c2', c'')
    \<and> fst (RouteEnvelope ex_relay_codec ex_crypto (ex_env ''cosmosA'' ''cosmosB'') b') = Ok ()
    \<and> cl_agent c'' = [ex_env ''cosmosA'' ''cosmosB'']"
proof -
  let ?e = "ex_env ''cosmosA'' ''cosmosB''"
  let ?c = "ex_client [Inr (Some (ex_client_stream [frame [4]]))] []"
  note m = ex_relay_messages and k = ex_relay_codec_ok
  have v: "valid_proof ex_crypto (ex_record 65 7) (Address (ex_record 65 7)) (remote_key ex_crypto (ex_stream [frame [6]] 7))"
    using ex_valid [of 65 7] by simp
  have w: "valid_proof ex_crypto (ex_record 66 2) (Address (ex_record 66 2)) (remote_key ex_crypto (ex_stream [frame [3]] 2))"
    using ex_valid [of 66 2] by simp
  have ok: "success_message ex_relay_codec [4]" using m(2) by (simp add: success_message_def)
  from register_stream_complete [OF k m(1) _ _ ok v, of "[]" ex_relay]
  obtain b1' b' where b': "handleAeaRegisterStream ex_relay_codec ex_crypto (ex_stream [frame [6]] 7) ex_relay = (Ok (), b1', b')"
      "tx b1' = frame [4]"
    by auto
  have c: "client_inv ?c" "cl_myAgentRecord ?c = Some (ex_record 65 7)"
      "cw_NewStream (cl_net ?c) = [Inr (Some (ex_client_stream [frame [4]]))]"
      "cl_processEnvelope ?c = Some (\<lambda>e g. (Ok (), g @ [e]))" "cl_agent ?c = []"
    by (simp_all add: ex_client_def client_inv_def)
  obtain c1' where c': "cl_registerAgentAddress ex_relay_codec ?c
      = (Ok (), cl_log (relayPeer ?c) AeaRegisterRelayStream c1' (asked 1 ?c))"
    using cl_register_exchange [OF k c(3) _ _ m(2), of "[6]" "[]"] c(2) m(1) by (auto simp: ex_client_stream_def)
  define c0 where "c0 = cl_log (relayPeer ?c) AeaRegisterRelayStream c1' (asked 1 ?c)"
  have c0: "client_inv c0" "''cosmosA'' = cl_myAgentAddress c0" "cl_processEnvelope c0 = Some (\<lambda>e g. (Ok (), g @ [e]))"
      "cl_agent c0 = []"
    by (simp_all add: c0_def cl_log_def ex_client_def client_inv_def)
  from cl_envelope_stream_to_agent [OF k c0(1) _ m(3) _ codec_env [OF k m(4)] w m(2) _ c0(3), of "[]" "[?e]"] c0(2,4)
  obtain c2' where c2: "cl_handleAeaEnvelopeStream ex_relay_codec ex_crypto (ex_stream [frame [3]] 2) c0
      = (Ok (), c2', c0\<lparr>cl_agent := [?e]\<rparr>)" "tx c2' = frame [4]"
    by auto
  have "fst (RouteEnvelope ex_relay_codec ex_crypto ?e b') = Ok () \<and> cl_agent (c0\<lparr>cl_agent := [?e]\<rparr>) = [?e]"
    using relayed_delivery [OF k c(1,2,3) _ _ c(4) _ m(1,2) _ _ v _ b'(1) _ ex_relay_simps(1) _ _ _ _ ex_relay_simps(4)
        _ ex_relay_simps(5) _ _ m(4,3) _ _ w c' [folded c0_def] _ c2(1), of "[?e]"] c(5) b'(2) c2(2)
    by (auto simp: ex_relay_simps ex_client_stream_def)
  with b'(1) c' [folded c0_def] c2(1) show ?thesis by blast
qed

end
